(* ===== verification/Prelude.thy ===== *)
theory Prelude
  imports Main "HOL-Library.Multiset" "HOL-Library.List_Lexorder" "HOL-Library.Char_ord"
begin

text \<open>
  Shared vocabulary of the model of the two batch scripts
  \<^verbatim>\<open>src/scripts/annotate_mp.py\<close> and \<^verbatim>\<open>src/scripts/categorize_mp.py\<close>:
  the types that name Python values (paths and shell command lines are Python
  \<open>str\<close>, modelled as \<open>string\<close>; indices are Python \<open>int\<close>, modelled as \<open>int\<close>),
  the Python exceptions the scripts can raise, the collection \<open>py_simps\<close> of
  evaluation rules of the modelled Python built-ins, and generic lemmas on lists and
  multisets that the component theories share.
\<close>

named_theorems py_simps \<open>evaluation rules of the modelled Python built-ins\<close>

type_synonym path = string
type_synonym cmd = string

text \<open>
  Why \<^verbatim>\<open>argparse\<close> rejects a command line; each message names the option by
  its option strings joined with a slash (\<^verbatim>\<open>-p/--num_proc\<close>).
\<close>

datatype arg_error =
    Ambiguous string "string list"
  | ExpectedOne string
  | InvalidInt string string
  | IgnoredExplicit string
  | Required "string list"
  | Unrecognized "string list"

text \<open>
  The exceptions that end a script: \<^verbatim>\<open>SystemExit(2)\<close> after an \<^verbatim>\<open>argparse\<close>
  error message, \<^verbatim>\<open>SystemExit(0)\<close> after the help text, and the uncaught
  exceptions that end it with a traceback: \<^verbatim>\<open>IndexError\<close> (raised inside
  \<^verbatim>\<open>argparse\<close> on \<^verbatim>\<open>-h=\<close>), a missing configuration file (\<open>open\<close>), a missing
  key of the configuration dictionary, \<open>multiprocessing.Pool\<close> refusing a
  non-positive process count, subscripting a configuration document that is not a
  mapping (named by its type), and a configuration file that is not valid YAML.
\<close>

datatype py_error =
    ArgumentError arg_error
  | HelpExit
  | IndexError
  | FileNotFoundError
  | FileExistsError
  | NotADirectoryError
  | KeyError string
  | ValueError string
  | TypeError string
  | YAMLError

subsection \<open>Generic lemmas on lists and multisets\<close>

lemma mset_concat_map_sum:
  "mset (concat xss) = sum_list (map mset xss)"
  by (induction xss) auto

lemma take_drop_adjacent:
  assumes "a \<le> b" and "b \<le> c"
  shows "take (b - a) (drop a xs) @ take (c - b) (drop b xs) = take (c - a) (drop a xs)"
proof -
  have "drop b xs = drop (b - a) (drop a xs)" using assms(1) by simp
  moreover have "c - a = (b - a) + (c - b)" using assms by simp
  ultimately show ?thesis by (simp only: take_add)
qed

end
