(* ===== verification/PyStr.thy ===== *)
theory PyStr
  imports Prelude
begin

text \<open>
  The Python string and path built-ins the scripts call, modelled from CPython's
  semantics on POSIX: \<^verbatim>\<open>str.replace(old, new)\<close> (every non-overlapping occurrence,
  scanned left to right), \<^verbatim>\<open>str.endswith\<close>, \<^verbatim>\<open>os.path.basename\<close>,
  \<^verbatim>\<open>os.path.split\<close> (its head, the directory \<open>glob\<close> lists) and
  \<^verbatim>\<open>os.path.join\<close> with two arguments. The lemmas characterise \<open>py_replace\<close> on
  a string that ends with the replaced pattern, the one fact the output-path derivation
  of both scripts rests on.
\<close>

subsection \<open>\<^verbatim>\<open>str.replace\<close>\<close>

text \<open>
  With a non-empty \<open>old\<close>, CPython scans left to right and replaces each occurrence,
  resuming after it. With an empty \<open>old\<close> it inserts \<open>new\<close> before every character
  and at the end (\<^verbatim>\<open>"ab".replace("", "-") == "-a-b-"\<close>).
\<close>

function replace_occ :: "string \<Rightarrow> string \<Rightarrow> string \<Rightarrow> string" where
  "replace_occ old new [] = []"
| "replace_occ old new (c # cs) =
     (if old \<noteq> [] \<and> take (length old) (c # cs) = old
      then new @ replace_occ old new (drop (length old) (c # cs))
      else c # replace_occ old new cs)"
  by pat_completeness auto
termination
  by (relation "measure (\<lambda>(old, new, s). length s)") auto

definition py_replace :: "string \<Rightarrow> string \<Rightarrow> string \<Rightarrow> string" where
  "py_replace old new s =
     (if old = [] then new @ concat (map (\<lambda>c. c # new) s) else replace_occ old new s)"

definition py_endswith :: "string \<Rightarrow> string \<Rightarrow> bool" where
  "py_endswith s suf \<longleftrightarrow> drop (length s - length suf) s = suf"

text \<open>
  A pattern is border-free when no non-empty proper prefix of it is also a suffix of
  it; then two occurrences can never overlap.
\<close>

definition border_free :: "string \<Rightarrow> bool" where
  "border_free p \<longleftrightarrow> list_all (\<lambda>k. drop k p \<noteq> take (length p - k) p) [1..<length p]"

subsection \<open>\<^verbatim>\<open>os.path\<close> on POSIX\<close>

text \<open>\<^verbatim>\<open>basename(p)\<close> is \<^verbatim>\<open>p[p.rfind('/') + 1:]\<close>.\<close>

definition py_basename :: "path \<Rightarrow> path" where
  "py_basename p = rev (takeWhile (\<lambda>c. c \<noteq> CHR ''/'') (rev p))"

text \<open>
  \<^verbatim>\<open>split(p)\<close>: the head is \<^verbatim>\<open>p[:p.rfind('/') + 1]\<close>, with its trailing slashes
  stripped unless it consists of slashes only.
\<close>

definition py_split_head :: "path \<Rightarrow> path" where
  "py_split_head p =
     (let head = take (length p - length (py_basename p)) p
      in if head \<noteq> [] \<and> \<not> list_all (\<lambda>c. c = CHR ''/'') head
         then rev (dropWhile (\<lambda>c. c = CHR ''/'') (rev head)) else head)"

text \<open>
  \<^verbatim>\<open>join(a, b)\<close>: \<open>b\<close> if it is absolute, \<open>a @ b\<close> if \<open>a\<close> is empty or ends with a
  slash, \<open>a / b\<close> otherwise.
\<close>

definition py_join :: "path \<Rightarrow> path \<Rightarrow> path" where
  "py_join a b =
     (if take 1 b = ''/'' then b
      else if a = [] \<or> py_endswith a ''/'' then a @ b
      else a @ ''/'' @ b)"

lemmas py_str_defs [py_simps] = py_replace_def py_endswith_def py_basename_def py_join_def

subsection \<open>Lemmas on \<open>replace_occ\<close>\<close>

lemma replace_occ_Nil_old [simp]: "replace_occ [] new s = s"
  by (induction s) auto

lemma border_free_no_match:
  assumes "border_free old" and "0 < length s" and "length s < length old"
  shows "take (length old) (s @ old) \<noteq> old"
proof
  assume eq: "take (length old) (s @ old) = old"
  let ?k = "length s"
  have "s @ take (length old - ?k) old = old" using eq assms(3) by simp
  then have "take ?k old = s" and d: "drop ?k old = take (length old - ?k) old"
    by (metis append_eq_conv_conj)+
  moreover have "1 \<le> ?k" using assms(2) by linarith
  then have "?k \<in> set [1..<length old]" using assms(3) by simp
  ultimately show False using assms(1) by (auto simp: border_free_def list_all_iff)
qed

lemma replace_occ_append_old:
  assumes "old \<noteq> []" and "border_free old"
  shows "replace_occ old new (s @ old) = replace_occ old new s @ new"
proof (induction "length s" arbitrary: s rule: less_induct)
  case less
  show ?case
  proof (cases s)
    case Nil
    from assms(1) obtain c cs where "old = c # cs" by (cases old) auto
    then show ?thesis using Nil by simp
  next
    case (Cons c cs)
    show ?thesis
    proof (cases "length old \<le> length s")
      case True
      then have tk: "take (length old) (s @ old) = take (length old) s"
        and dr: "drop (length old) (s @ old) = drop (length old) s @ old" by simp_all
      show ?thesis
      proof (cases "take (length old) s = old")
        case True
        have "length (drop (length old) s) < length s" using assms(1) Cons by simp
        then have "replace_occ old new (drop (length old) s @ old) =
            replace_occ old new (drop (length old) s) @ new" by (rule less)
        moreover have "replace_occ old new (s @ old) =
            new @ replace_occ old new (drop (length old) s @ old)"
          using True tk dr assms(1) Cons by simp
        moreover have "replace_occ old new s = new @ replace_occ old new (drop (length old) s)"
          using True assms(1) Cons by simp
        ultimately show ?thesis by simp
      next
        case False
        then show ?thesis using tk Cons less by simp
      qed
    next
      case False
      then have "take (length old) (s @ old) \<noteq> old"
        using border_free_no_match[OF assms(2), of s] Cons by simp
      moreover have "take (length old) s \<noteq> old" using False by auto
      ultimately show ?thesis using Cons less by simp
    qed
  qed
qed

text \<open>Appending a text with no occurrence of the pattern, and none across the seam, commutes with replacing.\<close>

lemma replace_occ_append_inert:
  assumes "old \<noteq> []" and "replace_occ old new t = t"
    and cross: "\<And>u. u \<noteq> [] \<Longrightarrow> length u < length old \<Longrightarrow> take (length old) (u @ t) \<noteq> old"
  shows "replace_occ old new (s @ t) = replace_occ old new s @ t"
proof (induction "length s" arbitrary: s rule: less_induct)
  case less
  show ?case
  proof (cases s)
    case Nil
    then show ?thesis using assms(2) by simp
  next
    case (Cons c cs)
    have ih: "replace_occ old new (cs @ t) = replace_occ old new cs @ t" using less Cons by simp
    show ?thesis
    proof (cases "length old \<le> length s")
      case True
      then have tk: "take (length old) (s @ t) = take (length old) s"
        and dr: "drop (length old) (s @ t) = drop (length old) s @ t" by simp_all
      show ?thesis
      proof (cases "take (length old) s = old")
        case True
        have "length (drop (length old) s) < length s" using assms(1) Cons by simp
        then have "replace_occ old new (drop (length old) s @ t) =
            replace_occ old new (drop (length old) s) @ t" by (rule less)
        then show ?thesis using True tk dr assms(1) Cons by simp
      next
        case False
        then show ?thesis using tk Cons ih by simp
      qed
    next
      case False
      then have "take (length old) (s @ t) \<noteq> old" using cross[of s] Cons by simp
      moreover have "take (length old) s \<noteq> old" using False by auto
      ultimately show ?thesis using Cons ih by simp
    qed
  qed
qed

lemma replace_occ_no_match:
  "length old = k \<Longrightarrow> take k (c # cs) \<noteq> old \<Longrightarrow>
   replace_occ old new (c # cs) = c # replace_occ old new cs"
  by simp

lemma replace_occ_no_occurrence:
  assumes "\<And>i. take (length old) (drop i s) \<noteq> old"
  shows "replace_occ old new s = s"
  using assms
proof (induction s)
  case Nil
  then show ?case by simp
next
  case (Cons c cs)
  have "\<And>i. take (length old) (drop i cs) \<noteq> old"
    using Cons.prems[of "Suc _"] by simp
  then have "replace_occ old new cs = cs" by (rule Cons.IH)
  moreover have "take (length old) (c # cs) \<noteq> old" using Cons.prems[of 0] by simp
  ultimately show ?case by simp
qed

lemma replace_occ_Cons_out:
  assumes "new \<noteq> []" and "hd new \<noteq> a" and "replace_occ old new cs = a # r"
  shows "\<exists>cs'. cs = a # cs' \<and> \<not> (old \<noteq> [] \<and> take (length old) cs = old)
     \<and> replace_occ old new cs' = r"
proof (cases cs)
  case Nil
  then show ?thesis using assms(3) by simp
next
  case (Cons c cs')
  show ?thesis
  proof (cases "old \<noteq> [] \<and> take (length old) cs = old")
    case True
    then have "replace_occ old new cs = new @ replace_occ old new (drop (length old) cs)"
      using Cons by simp
    then have "hd new = a" using assms(1,3) by (cases new) auto
    then show ?thesis using assms(2) by simp
  next
    case False
    then show ?thesis using Cons assms(3) by auto
  qed
qed

lemma replace_occ_append_out:
  assumes "new \<noteq> []" and "list_all (\<lambda>a. a \<noteq> hd new) w"
    and "replace_occ old new cs = w @ r"
  shows "\<exists>cs'. cs = w @ cs' \<and> replace_occ old new cs' = r"
  using assms(2,3)
proof (induction w arbitrary: cs)
  case Nil
  then show ?case by simp
next
  case (Cons a w)
  then obtain cs' where "cs = a # cs'" and "replace_occ old new cs' = w @ r"
    using replace_occ_Cons_out[OF assms(1), of a old cs "w @ r"] by auto
  then show ?case using Cons.IH Cons.prems(1) by fastforce
qed

lemma replace_occ_prefix:
  assumes "old \<noteq> []"
  shows "replace_occ old new (old @ x) = new @ replace_occ old new x"
  using assms by (cases old) auto

lemma replace_occ_roundtrip:
  assumes "old \<noteq> []" and "new \<noteq> []"
    and sep: "\<And>c cs. take (length old) (c # cs) \<noteq> old \<Longrightarrow>
       take (length new) (c # replace_occ old new cs) \<noteq> new"
  shows "replace_occ new old (replace_occ old new s) = s"
proof (induction "length s" arbitrary: s rule: less_induct)
  case less
  show ?case
  proof (cases s)
    case Nil
    then show ?thesis by simp
  next
    case (Cons c cs)
    show ?thesis
    proof (cases "take (length old) s = old")
      case True
      then have s: "s = old @ drop (length old) s" by (metis append_take_drop_id)
      have "length (drop (length old) s) < length s" using assms(1) Cons by simp
      then have IH: "replace_occ new old (replace_occ old new (drop (length old) s)) =
          drop (length old) s" by (rule less)
      have "replace_occ old new s = new @ replace_occ old new (drop (length old) s)"
        using replace_occ_prefix[OF assms(1)] s by metis
      then show ?thesis using IH replace_occ_prefix[OF assms(2)] s by metis
    next
      case False
      then have f: "replace_occ old new s = c # replace_occ old new cs" using Cons by simp
      have "take (length new) (c # replace_occ old new cs) \<noteq> new"
        using sep False Cons by simp
      then have "replace_occ new old (c # replace_occ old new cs) =
          c # replace_occ new old (replace_occ old new cs)" by simp
      moreover have "replace_occ new old (replace_occ old new cs) = cs"
        using less Cons by simp
      ultimately show ?thesis using f Cons by simp
    qed
  qed
qed

subsection \<open>Lengths of the parts of a path\<close>

lemma length_py_basename: "length (py_basename p) \<le> length p"
  using length_takeWhile_le[of _ "rev p"] by (simp add: py_basename_def)

lemma length_py_split_head: "length (py_split_head p) \<le> length p - length (py_basename p)"
proof -
  have "length (dropWhile (\<lambda>c. c = CHR ''/'') (rev h)) \<le> length h" for h :: string
    using length_dropWhile_le[of _ "rev h"] by simp
  from this[of "take (length p - length (py_basename p)) p"] show ?thesis
    by (auto simp: py_split_head_def Let_def)
qed

lemma length_py_split_head_le: "length (py_split_head p) \<le> length p"
  using length_py_split_head[of p] by simp

lemma py_split_head_shorter: "py_basename p \<noteq> [] \<Longrightarrow> length (py_split_head p) < length p"
  using length_py_split_head[of p] length_py_basename[of p] by (cases "py_basename p") auto

end
