(* ===== verification/JobSource.thy ===== *)
theory JobSource
  imports PyStr
begin

text \<open>
  The job source: \<^verbatim>\<open>sorted(glob(f'{args.in_dir}/*.vcf'))\<close>
  (\<^verbatim>\<open>annotate_mp.py\<close> line 40, \<^verbatim>\<open>categorize_mp.py\<close> line 38). The file system is
  a snapshot \<open>listing\<close> that maps a directory path to the names of its entries in the
  arbitrary order \<^verbatim>\<open>os.scandir\<close> yields them; \<open>None\<close> is a directory that does not
  exist or cannot be read, for which \<^verbatim>\<open>glob\<close> swallows the \<^verbatim>\<open>OSError\<close> and yields
  nothing. \<^verbatim>\<open>glob\<close> splits its pattern with \<^verbatim>\<open>os.path.split\<close>, lists the head,
  drops hidden names (a leading dot, since the pattern \<^verbatim>\<open>*.vcf\<close> does not start with
  one), keeps the names \<^verbatim>\<open>fnmatch\<close> matches against \<^verbatim>\<open>*.vcf\<close> (on POSIX: the
  name ends with \<^verbatim>\<open>.vcf\<close>, case-sensitively) and joins each to the head.
  \<^verbatim>\<open>sorted\<close> orders Python strings by code points; on \<open>string\<close> the order is the
  lexicographic order of \<open>List_Lexorder\<close> over \<open>Char_ord\<close>, which for UTF-8 bytes is
  the same order. The input directory is taken as a literal path (no glob
  metacharacters in it).
\<close>

type_synonym listing = "path \<rightharpoonup> string list"

definition glob_pattern :: "path \<Rightarrow> path" where
  "glob_pattern in_dir = in_dir @ ''/*.vcf''"

definition glob_dir :: "path \<Rightarrow> path" where
  "glob_dir in_dir = py_split_head (glob_pattern in_dir)"

definition glob_hidden :: "string \<Rightarrow> bool" where
  "glob_hidden n \<longleftrightarrow> take 1 n = ''.''"

definition fnmatch_vcf :: "string \<Rightarrow> bool" where
  "fnmatch_vcf n \<longleftrightarrow> py_endswith n ''.vcf''"

definition glob1 :: "listing \<Rightarrow> path \<Rightarrow> string list" where
  "glob1 fs d =
     (case fs d of None \<Rightarrow> [] | Some names \<Rightarrow> filter (\<lambda>n. \<not> glob_hidden n \<and> fnmatch_vcf n) names)"

definition py_glob :: "listing \<Rightarrow> path \<Rightarrow> path list" where
  "py_glob fs in_dir = map (py_join (glob_dir in_dir)) (glob1 fs (glob_dir in_dir))"

definition job_source :: "listing \<Rightarrow> path \<Rightarrow> path list" where
  "job_source fs in_dir = sort (py_glob fs in_dir)"

text \<open>
  What a directory listing of a real file system satisfies: the names are distinct,
  non-empty, and contain no slash.
\<close>

definition valid_listing :: "string list \<Rightarrow> bool" where
  "valid_listing names \<longleftrightarrow> distinct names \<and> list_all (\<lambda>n. n \<noteq> [] \<and> CHR ''/'' \<notin> set n) names"

text \<open>The spec's job source: the set of matching paths of the directory.\<close>

definition matching_paths :: "listing \<Rightarrow> path \<Rightarrow> path set" where
  "matching_paths fs in_dir =
     (case fs (glob_dir in_dir) of None \<Rightarrow> {}
      | Some names \<Rightarrow> py_join (glob_dir in_dir) ` {n \<in> set names. \<not> glob_hidden n \<and> fnmatch_vcf n})"

text \<open>A directory listing used by the witnesses: one hidden and one upper-case entry.\<close>

definition example_listing :: listing where
  "example_listing = [''d'' \<mapsto> [''c.vcf'', ''.h.vcf'', ''a.vcf'', ''b.VCF'', ''b.vcf'']]"

subsection \<open>Helper lemmas\<close>

lemma py_join_plain:
  assumes "n \<noteq> []" and "CHR ''/'' \<notin> set n"
  shows "py_join d n = (if d = [] \<or> py_endswith d ''/'' then d @ n else d @ ''/'' @ n)"
proof -
  have "take 1 n \<noteq> ''/''" using assms by (cases n) auto
  then show ?thesis by (simp add: py_join_def)
qed

lemma takeWhile_not_slash:
  assumes "CHR ''/'' \<notin> set n"
  shows "takeWhile (\<lambda>c. c \<noteq> CHR ''/'') (rev n @ r) =
    rev n @ takeWhile (\<lambda>c. c \<noteq> CHR ''/'') r"
  by (rule takeWhile_append2) (use assms in auto)

lemma py_basename_plain:
  assumes "CHR ''/'' \<notin> set n"
  shows "py_basename n = n"
proof -
  have "takeWhile (\<lambda>c. c \<noteq> CHR ''/'') (rev n) = rev n"
    by (rule takeWhile_eq_all_conv[THEN iffD2]) (use assms in auto)
  then show ?thesis by (simp add: py_basename_def del: takeWhile_eq_all_conv)
qed

lemma py_basename_after_slash:
  assumes "CHR ''/'' \<notin> set n"
  shows "py_basename (a @ CHR ''/'' # n) = n"
  using takeWhile_not_slash[OF assms, of "CHR ''/'' # rev a"] by (simp add: py_basename_def)

lemma drop_length_minus_one: "d \<noteq> [] \<Longrightarrow> drop (length d - Suc 0) d = [last d]"
proof -
  assume "d \<noteq> []"
  then have "butlast d @ [last d] = d" by simp
  then have "drop (length (butlast d)) d = [last d]" by (metis append_eq_conv_conj)
  then show ?thesis by simp
qed

lemma py_endswith_slash: "py_endswith d ''/'' \<Longrightarrow> d \<noteq> [] \<Longrightarrow> d = butlast d @ ''/''"
  by (simp add: py_endswith_def drop_length_minus_one) (metis append_butlast_last_id)

lemma py_basename_py_join:
  assumes "n \<noteq> []" and "CHR ''/'' \<notin> set n"
  shows "py_basename (py_join d n) = n"
proof (cases "d = []")
  case True
  then show ?thesis using assms by (simp add: py_join_plain py_basename_plain)
next
  case False
  show ?thesis
  proof (cases "py_endswith d ''/''")
    case True
    then have "py_join d n = butlast d @ CHR ''/'' # n"
      using False assms py_endswith_slash[of d] by (simp add: py_join_plain)
    then show ?thesis using assms(2) by (simp add: py_basename_after_slash)
  next
    case nb: False
    then have "py_join d n = d @ CHR ''/'' # n" using False assms by (simp add: py_join_plain)
    then show ?thesis using assms(2) by (simp add: py_basename_after_slash)
  qed
qed

lemma inj_on_py_join:
  assumes "valid_listing names"
  shows "inj_on (py_join d) (set names)"
proof (rule inj_onI)
  fix x y assume "x \<in> set names" "y \<in> set names" and eq: "py_join d x = py_join d y"
  then have "x \<noteq> []" "CHR ''/'' \<notin> set x" "y \<noteq> []" "CHR ''/'' \<notin> set y"
    using assms by (auto simp: valid_listing_def list_all_iff)
  then show "x = y" using eq by (simp add: py_join_plain split: if_splits)
qed

lemma set_py_glob: "set (py_glob fs in_dir) = matching_paths fs in_dir"
  by (auto simp: py_glob_def glob1_def matching_paths_def split: option.splits)

lemma distinct_py_glob:
  assumes "fs (glob_dir in_dir) = Some names" and "valid_listing names"
  shows "distinct (py_glob fs in_dir)"
proof -
  have "inj_on (py_join (glob_dir in_dir)) (set (filter (\<lambda>n. \<not> glob_hidden n \<and> fnmatch_vcf n) names))"
    using inj_on_py_join[OF assms(2)] by (rule inj_on_subset) auto
  moreover have "distinct names" using assms(2) by (simp add: valid_listing_def)
  ultimately show ?thesis using assms(1) by (simp add: py_glob_def glob1_def distinct_map)
qed

lemma mset_py_glob_update:
  "mset names1 = mset names2 \<Longrightarrow>
   mset (py_glob (fs(glob_dir in_dir \<mapsto> names1)) in_dir) =
   mset (py_glob (fs(glob_dir in_dir \<mapsto> names2)) in_dir)"
  by (simp add: py_glob_def glob1_def)

lemma job_source_member:
  assumes "fs (glob_dir in_dir) = Some names" and "valid_listing names"
    and "x \<in> set (job_source fs in_dir)"
  shows "x = py_join (glob_dir in_dir) (py_basename x) \<and> py_basename x \<in> set names \<and>
    fnmatch_vcf (py_basename x) \<and> \<not> glob_hidden (py_basename x)"
proof -
  from assms(1,3) obtain n where n: "n \<in> set names" "\<not> glob_hidden n" "fnmatch_vcf n"
    and x: "x = py_join (glob_dir in_dir) n"
    by (auto simp: job_source_def py_glob_def glob1_def)
  have "n \<noteq> [] \<and> CHR ''/'' \<notin> set n"
    using assms(2) n(1) by (auto simp: valid_listing_def list_all_iff)
  then have "py_basename x = n" using x by (simp add: py_basename_py_join)
  then show ?thesis using n x by simp
qed

lemma distinct_job_source:
  assumes "fs (glob_dir in_dir) = Some names" and "valid_listing names"
  shows "distinct (job_source fs in_dir)"
  using distinct_py_glob[of fs in_dir names, OF assms] by (simp add: job_source_def)

subsection \<open>Properties of the job source\<close>

text \<open>
  C5 (functional): for a real directory listing, the job source is the sorted list of
  the matching paths: every visible entry whose name ends with \<^verbatim>\<open>.vcf\<close>, joined to
  the directory, each exactly once, in lexicographic order.
\<close>

theorem job_source_spec:
  assumes "fs (glob_dir in_dir) = Some names" and "valid_listing names"
  shows "job_source fs in_dir = sorted_list_of_set (matching_paths fs in_dir)"
proof -
  have "distinct (py_glob fs in_dir)" by (rule distinct_py_glob[of fs in_dir names, OF assms])
  then show ?thesis
    by (simp add: job_source_def sorted_list_of_set_sort_remdups set_py_glob[symmetric]
        distinct_remdups_id)
qed

text \<open>
  C29 (equivalence): the job list does not depend on the order in which the file
  system lists the directory: two listings with the same entries give the same jobs.
\<close>

theorem job_source_listing_order:
  assumes "mset names1 = mset names2"
  shows "job_source (fs(glob_dir in_dir \<mapsto> names1)) in_dir =
    job_source (fs(glob_dir in_dir \<mapsto> names2)) in_dir"
  unfolding job_source_def
  by (rule properties_for_sort) (simp_all add: mset_py_glob_update[OF assms])

text \<open>
  Any sorted permutation of the glob result is the modelled job
  list, so the model's insertion sort stands for Python's \<^verbatim>\<open>sorted\<close> (Timsort).
\<close>

lemma job_source_any_sort:
  assumes "sorted ys" and "mset ys = mset (py_glob fs in_dir)"
  shows "job_source fs in_dir = ys"
  unfolding job_source_def using properties_for_sort[OF assms(2,1)] .

text \<open>
  C30 (error): a missing or unreadable input directory raises nothing: the job list is
  empty (the spec asks for a \<open>DirectoryNotFoundError\<close>).
\<close>

theorem job_source_missing_dir:
  assumes "fs (glob_dir in_dir) = None"
  shows "job_source fs in_dir = []"
  using assms by (simp add: job_source_def py_glob_def glob1_def)

text \<open>
  C31 (invariant): every input path the job source yields is the listed directory
  joined to its base name, and that base name is an entry of the directory, ends with
  \<^verbatim>\<open>.vcf\<close> and is not hidden; so the spec's \<open>InvalidInputNameError\<close> can never
  arise for an input the scripts process.
\<close>

theorem job_source_inputs:
  assumes "fs (glob_dir in_dir) = Some names" and "valid_listing names"
    and "x \<in> set (job_source fs in_dir)"
  shows "x = py_join (glob_dir in_dir) (py_basename x) \<and> py_basename x \<in> set names \<and>
    fnmatch_vcf (py_basename x) \<and> \<not> glob_hidden (py_basename x)"
  by (rule job_source_member[of fs in_dir names, OF assms])

subsection \<open>Witnesses\<close>

lemmas example_listing_simps =
  example_listing_def glob_dir_def glob_pattern_def py_split_head_def py_basename_def
  valid_listing_def matching_paths_def glob_hidden_def fnmatch_vcf_def py_endswith_def
  py_join_def job_source_def py_glob_def glob1_def

theorem job_source_spec_witness:
  "example_listing (glob_dir ''d'') = Some [''c.vcf'', ''.h.vcf'', ''a.vcf'', ''b.VCF'', ''b.vcf''] \<and>
   valid_listing [''c.vcf'', ''.h.vcf'', ''a.vcf'', ''b.VCF'', ''b.vcf''] \<and>
   job_source example_listing ''d'' = sorted_list_of_set (matching_paths example_listing ''d'')"
proof -
  have h1: "example_listing (glob_dir ''d'') = Some [''c.vcf'', ''.h.vcf'', ''a.vcf'', ''b.VCF'', ''b.vcf'']"
    by (simp add: example_listing_simps)
  have h2: "valid_listing [''c.vcf'', ''.h.vcf'', ''a.vcf'', ''b.VCF'', ''b.vcf'']"
    by (simp add: valid_listing_def)
  show ?thesis using job_source_spec[of example_listing "''d''", OF h1 h2] h1 h2 by simp
qed

theorem job_source_listing_order_witness:
  "job_source (Map.empty(glob_dir ''d'' \<mapsto> [''b.vcf'', ''a.vcf''])) ''d'' =
   job_source (Map.empty(glob_dir ''d'' \<mapsto> [''a.vcf'', ''b.vcf''])) ''d''"
  by (rule job_source_listing_order) simp

theorem job_source_missing_dir_witness:
  "job_source Map.empty ''missing'' = []"
  by (rule job_source_missing_dir) simp

theorem job_source_inputs_witness:
  "''d/a.vcf'' \<in> set (job_source example_listing ''d'') \<and>
   ''d/a.vcf'' = py_join (glob_dir ''d'') (py_basename ''d/a.vcf'') \<and>
   py_basename ''d/a.vcf'' \<in> set [''c.vcf'', ''.h.vcf'', ''a.vcf'', ''b.VCF'', ''b.vcf''] \<and>
   fnmatch_vcf (py_basename ''d/a.vcf'') \<and> \<not> glob_hidden (py_basename ''d/a.vcf'')"
proof -
  have h1: "example_listing (glob_dir ''d'') = Some [''c.vcf'', ''.h.vcf'', ''a.vcf'', ''b.VCF'', ''b.vcf'']"
    by (simp add: example_listing_simps)
  have h2: "valid_listing [''c.vcf'', ''.h.vcf'', ''a.vcf'', ''b.VCF'', ''b.vcf'']"
    by (simp add: valid_listing_def)
  have h3: "''d/a.vcf'' \<in> set (job_source example_listing ''d'')"
    by (simp add: example_listing_simps)
  show ?thesis using job_source_inputs[of example_listing "''d''", OF h1 h2 h3] h3 by simp
qed

end
