(* ===== verification/JobBuilder.thy ===== *)
theory JobBuilder
  imports JobSource
begin

text \<open>
  The job builder: the output path of each input and the shell command line that
  processes it (\<^verbatim>\<open>annotate_mp.py\<close> lines 42--49, \<^verbatim>\<open>categorize_mp.py\<close>
  lines 41--48). The output path is the f-string
  \<^verbatim>\<open>f'{out_dir}/{os.path.basename(p).replace(".vcf", SUFFIX)}'\<close>, a plain
  concatenation with a slash (not \<^verbatim>\<open>os.path.join\<close>), where \<^verbatim>\<open>replace\<close> rewrites
  every occurrence of \<^verbatim>\<open>.vcf\<close> in the base name, not only the extension. The command
  is a single shell line built by another f-string; the loop over
  \<^verbatim>\<open>zip(in_paths, out_paths)\<close> appends one command per input, in order.
\<close>

datatype mode = Annotate | Categorize

definition out_suffix :: "mode \<Rightarrow> string" where
  "out_suffix m = (case m of Annotate \<Rightarrow> ''.annot.vcf'' | Categorize \<Rightarrow> ''.cat_result.txt'')"

definition out_name :: "mode \<Rightarrow> string \<Rightarrow> string" where
  "out_name m n = py_replace ''.vcf'' (out_suffix m) n"

definition out_path :: "mode \<Rightarrow> path \<Rightarrow> path \<Rightarrow> path" where
  "out_path m out_dir in_path = out_dir @ ''/'' @ out_name m (py_basename in_path)"

definition out_paths :: "mode \<Rightarrow> path \<Rightarrow> path list \<Rightarrow> path list" where
  "out_paths m out_dir in_paths = map (out_path m out_dir) in_paths"

text \<open>\<^verbatim>\<open>f'{annot_script} -i {in_vcf_path} -o {out_vcf_path} --vep {args.vep_script};'\<close>\<close>

definition annot_cmd :: "string \<Rightarrow> string \<Rightarrow> path \<Rightarrow> path \<Rightarrow> cmd" where
  "annot_cmd annot_script vep_script in_path out_path' =
     annot_script @ '' -i '' @ in_path @ '' -o '' @ out_path' @ '' --vep '' @ vep_script @ '';''"

text \<open>\<^verbatim>\<open>f'{categorize_script} -i {in_vcf_path} -o {out_vcf_path};'\<close>\<close>

definition cat_cmd :: "string \<Rightarrow> path \<Rightarrow> path \<Rightarrow> cmd" where
  "cat_cmd categorize_script in_path out_path' =
     categorize_script @ '' -i '' @ in_path @ '' -o '' @ out_path' @ '';''"

text \<open>The loop \<^verbatim>\<open>for in_p, out_p in zip(...): cmds.append(mk(in_p, out_p))\<close>.\<close>

fun make_cmds :: "(path \<Rightarrow> path \<Rightarrow> cmd) \<Rightarrow> path list \<Rightarrow> path list \<Rightarrow> cmd list" where
  "make_cmds mk (ip # ips) (op # ops) = mk ip op # make_cmds mk ips ops"
| "make_cmds mk _ _ = []"

subsection \<open>The shell's word splitting\<close>

text \<open>
  \<^verbatim>\<open>os.system\<close> hands the line to \<^verbatim>\<open>/bin/sh -c\<close>. For a line whose words carry
  none of the shell's special characters, the shell splits it at blanks and ends the
  simple command at \<^verbatim>\<open>;\<close>; \<open>sh_split\<close> models exactly that (not quoting, expansion
  or redirection: \<open>sh_plain\<close> excludes the characters that would trigger them), and
  \<open>shell_argv\<close> is the argument vector of the first command.
\<close>

fun sh_split :: "string \<Rightarrow> string \<Rightarrow> string list" where
  "sh_split [] w = (if w = [] then [] else [rev w])"
| "sh_split (c # cs) w =
     (if c = CHR '' '' then (if w = [] then sh_split cs [] else rev w # sh_split cs [])
      else if c = CHR '';'' then (if w = [] then [] else [rev w]) @ '';'' # sh_split cs []
      else sh_split cs (c # w))"

definition shell_argv :: "string \<Rightarrow> string list" where
  "shell_argv line = takeWhile (\<lambda>t. t \<noteq> '';'') (sh_split line [])"

definition sh_special :: string where
  "sh_special = '' ;|&<>()$*?[#~'' @ [CHR 0x60, CHR 0x5C, CHR 0x22, CHR 0x27, CHR 0x09, CHR 0x0A]"

definition sh_plain :: "string \<Rightarrow> bool" where
  "sh_plain w \<longleftrightarrow> w \<noteq> [] \<and> list_all (\<lambda>c. c \<notin> set sh_special) w"

subsection \<open>Helper lemmas\<close>

lemma sh_split_word:
  assumes "list_all (\<lambda>c. c \<noteq> CHR '' '' \<and> c \<noteq> CHR '';'') w"
  shows "sh_split (w @ r) acc = sh_split r (rev w @ acc)"
  using assms by (induction w arbitrary: acc) auto

lemma sh_plain_word:
  "sh_plain w \<Longrightarrow> w \<noteq> [] \<and> list_all (\<lambda>c. c \<noteq> CHR '' '' \<and> c \<noteq> CHR '';'') w"
  by (auto simp: sh_plain_def sh_special_def list_all_iff)

lemma sh_plain_not_semi: "sh_plain w \<Longrightarrow> w \<noteq> '';''"
  by (auto simp: sh_plain_def sh_special_def)

lemma sh_split_plain_blank:
  assumes "sh_plain w"
  shows "sh_split (w @ CHR '' '' # r) [] = w # sh_split r []"
  using sh_plain_word[OF assms] sh_split_word[of w "CHR '' '' # r" "[]"] by simp

lemma sh_split_plain_semi:
  assumes "sh_plain w"
  shows "sh_split (w @ CHR '';'' # r) [] = w # '';'' # sh_split r []"
  using sh_plain_word[OF assms] sh_split_word[of w "CHR '';'' # r" "[]"] by simp

abbreviation annot_enc :: "string \<Rightarrow> string" where
  "annot_enc \<equiv> replace_occ ''.vcf'' ''.annot.vcf''"

lemma annot_no_false_match:
  assumes nm: "take 4 (c # cs) \<noteq> ''.vcf''"
  shows "take 10 (c # annot_enc cs) \<noteq> ''.annot.vcf''"
proof
  assume eq: "take 10 (c # annot_enc cs) = ''.annot.vcf''"
  then have c: "c = CHR ''.''" and t9: "take 9 (annot_enc cs) = ''annot.vcf''" by simp_all
  have e9: "annot_enc cs = ''annot'' @ ''.vcf'' @ drop 9 (annot_enc cs)"
    using t9 by (metis append_take_drop_id append.assoc append_Cons append_Nil)
  have ne: "''.annot.vcf'' \<noteq> []" by simp
  have la: "list_all (\<lambda>a. a \<noteq> hd ''.annot.vcf'') ''annot''" by simp
  from replace_occ_append_out[OF ne la e9] obtain cs5 where cs: "cs = ''annot'' @ cs5"
    and f5: "annot_enc cs5 = ''.vcf'' @ drop 9 (annot_enc cs)" by blast
  show False
  proof (cases "take 4 cs5 = ''.vcf''")
    case True
    define r where "r = drop 4 cs5"
    have "cs5 = ''.vcf'' @ r" using True append_take_drop_id[of 4 cs5] unfolding r_def by simp
    then have "annot_enc cs5 = ''.annot.vcf'' @ annot_enc r" by simp
    then show False using f5 by simp
  next
    case False
    obtain c5 cs6 where cs5: "cs5 = c5 # cs6" using f5 by (cases cs5) auto
    have "take 4 (c5 # cs6) \<noteq> ''.vcf''" using False unfolding cs5 .
    then have e5: "annot_enc cs5 = c5 # annot_enc cs6"
      unfolding cs5 by (rule replace_occ_no_match[rotated]) simp
    have eq: "c5 # annot_enc cs6 = CHR ''.'' # (''vcf'' @ drop 9 (annot_enc cs))"
      using trans[OF e5[symmetric] f5] by (simp only: append_Cons)
    have c5: "c5 = CHR ''.''" by (rule list.inject[THEN iffD1, OF eq, THEN conjunct1])
    have f6: "annot_enc cs6 = ''vcf'' @ drop 9 (annot_enc cs)"
      by (rule list.inject[THEN iffD1, OF eq, THEN conjunct2])
    have la2: "list_all (\<lambda>a. a \<noteq> hd ''.annot.vcf'') ''vcf''" by simp
    from replace_occ_append_out[OF ne la2 f6] obtain cs9 where "cs6 = ''vcf'' @ cs9" by blast
    then show False using False cs5 c5 by simp
  qed
qed

lemma len_vcf: "length ''.vcf'' = 4" and len_annot_vcf: "length ''.annot.vcf'' = 10"
  by simp_all

lemma annot_enc_roundtrip: "replace_occ ''.annot.vcf'' ''.vcf'' (annot_enc s) = s"
proof (rule replace_occ_roundtrip)
  fix c cs
  assume "take (length ''.vcf'') (c # cs) \<noteq> ''.vcf''"
  then have "take 4 (c # cs) \<noteq> ''.vcf''" unfolding len_vcf .
  then have "take 10 (c # annot_enc cs) \<noteq> ''.annot.vcf''" by (rule annot_no_false_match)
  then show "take (length ''.annot.vcf'') (c # annot_enc cs) \<noteq> ''.annot.vcf''"
    unfolding len_annot_vcf .
qed simp_all

lemma out_name_Annotate: "out_name Annotate n = annot_enc n"
  by (simp add: out_name_def out_suffix_def py_replace_def)

lemma border_free_vcf: "border_free ''.vcf''"
  by (simp add: border_free_def)

lemma out_name_vcf:
  assumes "fnmatch_vcf n"
  shows "out_name m n = replace_occ ''.vcf'' (out_suffix m) (take (length n - 4) n) @ out_suffix m"
proof -
  let ?stem = "take (length n - 4) n"
  have d: "drop (length n - 4) n = ''.vcf''"
    using assms unfolding fnmatch_vcf_def py_endswith_def len_vcf .
  have n: "?stem @ ''.vcf'' = n" using append_take_drop_id[of "length n - 4" n] unfolding d .
  have "replace_occ ''.vcf'' (out_suffix m) (?stem @ ''.vcf'') =
      replace_occ ''.vcf'' (out_suffix m) ?stem @ out_suffix m"
    by (rule replace_occ_append_old[OF _ border_free_vcf]) simp
  then show ?thesis unfolding n by (simp add: out_name_def py_replace_def)
qed

lemma annot_out_paths_distinct:
  assumes "fs (glob_dir in_dir) = Some names" and "valid_listing names"
  shows "distinct (out_paths Annotate out_dir (job_source fs in_dir))"
proof -
  let ?js = "job_source fs in_dir"
  have "inj_on (out_path Annotate out_dir) (set ?js)"
  proof (rule inj_onI)
    fix x y assume x: "x \<in> set ?js" and y: "y \<in> set ?js"
      and eq: "out_path Annotate out_dir x = out_path Annotate out_dir y"
    then have "annot_enc (py_basename x) = annot_enc (py_basename y)"
      by (simp add: out_path_def out_name_Annotate)
    then have "py_basename x = py_basename y" by (metis annot_enc_roundtrip)
    then show "x = y"
      using job_source_member[of fs in_dir names, OF assms x]
        job_source_member[of fs in_dir names, OF assms y] by metis
  qed
  then show ?thesis
    using distinct_job_source[of fs in_dir names, OF assms] by (simp add: out_paths_def distinct_map)
qed

lemma cat_suffix_inert:
  "replace_occ ''.vcf'' ''.cat_result.txt'' (s @ ''.cat_result.txt'') =
   replace_occ ''.vcf'' ''.cat_result.txt'' s @ ''.cat_result.txt''"
proof (rule replace_occ_append_inert)
  fix u :: string assume u: "u \<noteq> []" and l: "length u < length ''.vcf''"
  show "take (length ''.vcf'') (u @ ''.cat_result.txt'') \<noteq> ''.vcf''"
  proof
    assume eq0: "take (length ''.vcf'') (u @ ''.cat_result.txt'') = ''.vcf''"
    have "take (length ''.vcf'') u @ take (length ''.vcf'' - length u) ''.cat_result.txt'' = ''.vcf''"
      using eq0 by (simp only: take_append)
    moreover have "take (length ''.vcf'') u = u" using l by (simp only: take_all_iff less_imp_le)
    ultimately have "u @ take (length ''.vcf'' - length u) ''.cat_result.txt'' = ''.vcf''" by metis
    then have e: "take (length ''.vcf'' - length u) ''.cat_result.txt'' = drop (length u) ''.vcf''"
      by (metis append_eq_conv_conj)
    have "length ''.vcf'' = (4::nat)" by simp
    then have l4: "length u < 4" using l by (simp only:)
    have "0 < length u" using u by simp
    then have "length u = 1 \<or> length u = 2 \<or> length u = 3" using l4 by presburger
    then show False using e by (elim disjE) simp_all
  qed
qed simp_all

text \<open>
  The categorize suffix contains no \<^verbatim>\<open>.vcf\<close>, so a name with a second
  \<^verbatim>\<open>.vcf\<close> and the name in which that \<^verbatim>\<open>.vcf\<close> is already replaced get one
  output name.
\<close>

lemma out_name_cat_collide:
  "out_name Categorize (s @ ''.vcf.vcf'') = out_name Categorize (s @ ''.cat_result.txt.vcf'')"
proof -
  let ?R = "replace_occ ''.vcf'' ''.cat_result.txt''"
  have a: "?R (x @ ''.vcf'') = ?R x @ ''.cat_result.txt''" for x
    by (rule replace_occ_append_old[OF _ border_free_vcf]) simp
  have "?R (s @ ''.vcf.vcf'') = ?R ((s @ ''.vcf'') @ ''.vcf'')" by simp
  also have "\<dots> = ?R (s @ ''.vcf'') @ ''.cat_result.txt''" by (rule a)
  also have "\<dots> = ?R s @ ''.cat_result.txt'' @ ''.cat_result.txt''" by (simp only: a append_assoc)
  also have "\<dots> = ?R (s @ ''.cat_result.txt'') @ ''.cat_result.txt''" by (simp only: cat_suffix_inert append_assoc)
  also have "\<dots> = ?R ((s @ ''.cat_result.txt'') @ ''.vcf'')" by (simp only: a)
  also have "\<dots> = ?R (s @ ''.cat_result.txt.vcf'')" by simp
  finally show ?thesis by (simp add: out_name_def out_suffix_def py_replace_def)
qed

lemma job_source_has:
  assumes "fs (glob_dir in_dir) = Some names" and "n \<in> set names"
    and "\<not> glob_hidden n" and "fnmatch_vcf n"
  shows "py_join (glob_dir in_dir) n \<in> set (job_source fs in_dir)"
  using assms by (simp add: job_source_def set_py_glob matching_paths_def)

subsection \<open>Properties of the job builder\<close>

text \<open>
  C8 (roundtrip): the annotate output name can be decoded: replacing every
  \<^verbatim>\<open>.annot.vcf\<close> by \<^verbatim>\<open>.vcf\<close> in it gives back the input's base name, for every
  base name, however many \<^verbatim>\<open>.vcf\<close> it contains.
\<close>

theorem out_name_annotate_roundtrip: "py_replace ''.annot.vcf'' ''.vcf'' (out_name Annotate n) = n"
  by (simp add: out_name_Annotate py_replace_def annot_enc_roundtrip)

text \<open>
  C15 (safety): in categorize mode the output paths of one run are not distinct as
  soon as the input directory holds, for any visible stem \<open>s\<close>, both
  \<open>s.vcf.vcf\<close> and \<open>s.cat_result.txt.vcf\<close>: both become
  \<open>s.cat_result.txt.cat_result.txt\<close>, and their two jobs write one file.
\<close>

theorem cat_out_paths_collide:
  assumes "fs (glob_dir in_dir) = Some names" and "valid_listing names"
    and "s @ ''.vcf.vcf'' \<in> set names" and "s @ ''.cat_result.txt.vcf'' \<in> set names"
    and "s \<noteq> []" and "\<not> glob_hidden s"
  shows "\<not> distinct (out_paths Categorize out_dir (job_source fs in_dir))"
proof
  let ?n1 = "s @ ''.vcf.vcf''" and ?n2 = "s @ ''.cat_result.txt.vcf''" and ?d = "glob_dir in_dir"
  assume dist: "distinct (out_paths Categorize out_dir (job_source fs in_dir))"
  have vis: "\<not> glob_hidden (s @ x)" for x using assms(5,6) by (cases s) (auto simp: glob_hidden_def)
  have m: "fnmatch_vcf ?n1" "fnmatch_vcf ?n2" by (simp_all add: fnmatch_vcf_def py_endswith_def)
  have p1: "py_join ?d ?n1 \<in> set (job_source fs in_dir)"
    by (rule job_source_has[where fs=fs and in_dir=in_dir, OF assms(1,3) vis[of "''.vcf.vcf''"] m(1)])
  have p2: "py_join ?d ?n2 \<in> set (job_source fs in_dir)"
    by (rule job_source_has[where fs=fs and in_dir=in_dir, OF assms(1,4) vis[of "''.cat_result.txt.vcf''"] m(2)])
  have "?n1 \<noteq> ?n2" by simp
  then have ne: "py_join ?d ?n1 \<noteq> py_join ?d ?n2"
    using inj_on_py_join[OF assms(2), of ?d] assms(3,4) by (auto dest: inj_onD)
  have ok: "n \<noteq> [] \<and> CHR ''/'' \<notin> set n" if "n \<in> set names" for n
    using assms(2) that by (auto simp: valid_listing_def list_all_iff)
  have "out_path Categorize out_dir (py_join ?d ?n1) = out_path Categorize out_dir (py_join ?d ?n2)"
    using ok[OF assms(3)] ok[OF assms(4)]
    by (simp add: out_path_def py_basename_py_join out_name_cat_collide)
  moreover have "inj_on (out_path Categorize out_dir) (set (job_source fs in_dir))"
    using dist by (simp add: out_paths_def distinct_map)
  ultimately show False using p1 p2 ne by (auto dest: inj_onD)
qed

text \<open>
  The output name of an input whose name ends with
  \<^verbatim>\<open>.vcf\<close> ends with the mode's suffix (\<^verbatim>\<open>.annot.vcf\<close> or
  \<^verbatim>\<open>.cat_result.txt\<close>): the final extension is always the one replaced.
\<close>

lemma out_name_suffix:
  assumes "fnmatch_vcf n"
  shows "py_endswith (out_name m n) (out_suffix m)"
  using out_name_vcf[OF assms, of m] by (simp add: py_endswith_def)

text \<open>
  C27 (roundtrip): when the tool paths and file paths contain no shell special
  character, the shell splits the annotate command line back into exactly the
  intended argument vector.
\<close>

theorem annot_cmd_argv:
  assumes "sh_plain a" and "sh_plain v" and "sh_plain i" and "sh_plain p"
  shows "shell_argv (annot_cmd a v i p) = [a, ''-i'', i, ''-o'', p, ''--vep'', v]"
  using assms
  by (simp add: annot_cmd_def shell_argv_def sh_split_plain_blank sh_split_plain_semi sh_plain_not_semi)

text \<open>
  The same for the categorize command line.
\<close>

lemma cat_cmd_argv:
  assumes "sh_plain c" and "sh_plain i" and "sh_plain p"
  shows "shell_argv (cat_cmd c i p) = [c, ''-i'', i, ''-o'', p]"
  using assms
  by (simp add: cat_cmd_def shell_argv_def sh_split_plain_blank sh_split_plain_semi sh_plain_not_semi)

text \<open>
  C28 (error): an input path with a blank breaks the command: the shell splits it into
  two arguments, so the tool reads the part before the blank as its input and gets the
  rest as a stray extra argument.
\<close>

theorem annot_cmd_blank_in_path:
  assumes "sh_plain a" and "sh_plain v" and "sh_plain i1" and "sh_plain i2" and "sh_plain p"
  shows "shell_argv (annot_cmd a v (i1 @ '' '' @ i2) p) = [a, ''-i'', i1, i2, ''-o'', p, ''--vep'', v]"
  using assms
  by (simp add: annot_cmd_def shell_argv_def sh_split_plain_blank sh_split_plain_semi sh_plain_not_semi)

subsection \<open>Witnesses\<close>

theorem annot_cmd_argv_witness:
  "shell_argv (annot_cmd ''annotate.py'' ''vep'' ''in/b.vcf'' ''out/b.annot.vcf'') =
   [''annotate.py'', ''-i'', ''in/b.vcf'', ''-o'', ''out/b.annot.vcf'', ''--vep'', ''vep'']"
  by (rule annot_cmd_argv) (simp_all add: sh_plain_def sh_special_def)

theorem annot_cmd_blank_in_path_witness:
  "shell_argv (annot_cmd ''annotate'' ''vep'' (''my'' @ '' '' @ ''data/x.vcf'') ''out/x.annot.vcf'') =
   [''annotate'', ''-i'', ''my'', ''data/x.vcf'', ''-o'', ''out/x.annot.vcf'', ''--vep'', ''vep'']"
  by (rule annot_cmd_blank_in_path) (simp_all add: sh_plain_def sh_special_def)

theorem cat_out_paths_collide_witness:
  "valid_listing [''a.vcf.vcf'', ''a.cat_result.txt.vcf''] \<and>
   \<not> distinct (out_paths Categorize ''out''
        (job_source [''d'' \<mapsto> [''a.vcf.vcf'', ''a.cat_result.txt.vcf'']] ''d''))"
proof -
  have g: "glob_dir ''d'' = ''d''"
    by (simp add: glob_dir_def glob_pattern_def py_split_head_def py_basename_def)
  have v: "valid_listing [''a.vcf.vcf'', ''a.cat_result.txt.vcf'']" by (simp add: valid_listing_def)
  have "\<not> distinct (out_paths Categorize ''out''
        (job_source [''d'' \<mapsto> [''a.vcf.vcf'', ''a.cat_result.txt.vcf'']] ''d''))"
    by (rule cat_out_paths_collide[where s="''a''" and names="[''a.vcf.vcf'', ''a.cat_result.txt.vcf'']"])
      (simp_all add: g v glob_hidden_def)
  then show ?thesis using v by simp
qed

end
