(* ===== verification/RangeSelector.thy ===== *)
theory RangeSelector
  imports Prelude
begin

text \<open>
  The window \<^verbatim>\<open>in_vcf_paths[args.start_idx:args.end_idx]\<close>
  (\<^verbatim>\<open>annotate_mp.py\<close> line 41, \<^verbatim>\<open>categorize_mp.py\<close> line 39). The bounds are
  Python \<open>int\<close>s from \<^verbatim>\<open>argparse\<close> (\<open>type=int\<close>, defaults 0 and 10000), so the
  model takes them as \<open>int\<close> and adjusts them as CPython's slice adjustment does for
  step 1: a negative bound is counted from the end and then clamped at 0, a bound past
  the end is clamped to the length, and an empty slice results when the adjusted stop
  is not after the adjusted start. The lemmas give the spec's window (indices
  \<open>[start, min end n)\<close>) for non-negative bounds, the composition of adjacent
  windows, commutation with \<open>map\<close>, and what negative bounds and the default bounds
  really select.
\<close>

definition py_slice_index :: "nat \<Rightarrow> int \<Rightarrow> nat" where
  "py_slice_index n i = nat (if i < 0 then max 0 (int n + i) else min i (int n))"

definition py_slice :: "'a list \<Rightarrow> int \<Rightarrow> int \<Rightarrow> 'a list" where
  "py_slice xs i j =
     (let n = length xs; a = py_slice_index n i; b = py_slice_index n j
      in take (b - a) (drop a xs))"

text \<open>The defaults of \<^verbatim>\<open>--start_idx\<close> and \<^verbatim>\<open>--end_idx\<close>.\<close>

definition default_start_idx :: int where "default_start_idx = 0"
definition default_end_idx :: int where "default_end_idx = 10000"

text \<open>
  The window the spec describes: the elements at indices \<open>[start, min end n)\<close>,
  read one by one.
\<close>

definition window_spec :: "'a list \<Rightarrow> nat \<Rightarrow> nat \<Rightarrow> 'a list" where
  "window_spec xs s e = map (\<lambda>k. xs ! k) [s..<min e (length xs)]"

lemmas slice_defs [py_simps] = py_slice_def py_slice_index_def

subsection \<open>Helper lemmas\<close>

lemma py_slice_index_le: "py_slice_index n i \<le> n"
  by (auto simp: py_slice_index_def)

lemma py_slice_index_nonneg:
  "0 \<le> i \<Longrightarrow> py_slice_index n i = min (nat i) n"
  by (auto simp: py_slice_index_def)

lemma py_slice_take_drop:
  "py_slice xs i j = take (py_slice_index (length xs) j - py_slice_index (length xs) i)
     (drop (py_slice_index (length xs) i) xs)"
  by (simp add: py_slice_def Let_def)

lemma take_drop_as_map_nth:
  "b \<le> length xs \<Longrightarrow> take (b - a) (drop a xs) = map (\<lambda>k. xs ! k) [a..<b]"
proof (induction "b - a" arbitrary: a)
  case 0
  then show ?case by simp
next
  case (Suc m)
  then have "a < b" by simp
  then have "[a..<b] = a # [Suc a..<b]" by (simp add: upt_conv_Cons)
  moreover have "drop a xs = xs ! a # drop (Suc a) xs"
    using \<open>a < b\<close> Suc.prems by (simp add: Cons_nth_drop_Suc)
  moreover have "take (b - Suc a) (drop (Suc a) xs) = map (\<lambda>k. xs ! k) [Suc a..<b]"
    using Suc by simp
  moreover have "b - a = Suc (b - Suc a)" using \<open>a < b\<close> by simp
  ultimately show ?case by simp
qed

lemma sorted_py_slice: "sorted xs \<Longrightarrow> sorted (py_slice xs i j)"
  by (simp add: py_slice_take_drop)

lemma distinct_py_slice: "distinct xs \<Longrightarrow> distinct (py_slice xs i j)"
  by (simp add: py_slice_take_drop)

lemma set_py_slice: "set (py_slice xs i j) \<subseteq> set xs"
  by (simp add: py_slice_take_drop) (meson in_set_dropD in_set_takeD subsetI)

lemma py_slice_start_ge_end:
  assumes "0 \<le> j" and "j \<le> i"
  shows "py_slice xs i j = []"
proof -
  have "nat j \<le> nat i" using assms by simp
  then show ?thesis using assms by (auto simp: py_slice_take_drop py_slice_index_def min_def)
qed

subsection \<open>Properties of the window\<close>

text \<open>
  C6 (refinement): for non-negative bounds, the slice the scripts take is the spec's
  window: the elements at indices \<open>start\<close> up to \<open>min end n\<close>, in list order.
\<close>

theorem py_slice_refines_window:
  assumes "0 \<le> i" and "0 \<le> j"
  shows "py_slice xs i j = window_spec xs (nat i) (nat j)"
proof -
  let ?n = "length xs"
  have "py_slice xs i j = take (min (nat j) ?n - min (nat i) ?n) (drop (min (nat i) ?n) xs)"
    using assms by (simp add: py_slice_take_drop py_slice_index_nonneg)
  also have "\<dots> = map (\<lambda>k. xs ! k) [min (nat i) ?n..<min (nat j) ?n]"
    by (rule take_drop_as_map_nth) simp
  also have "[min (nat i) ?n..<min (nat j) ?n] = [nat i..<min (nat j) ?n]"
    by (cases "nat i \<le> ?n") auto
  finally show ?thesis by (simp add: window_spec_def)
qed

text \<open>
  For non-negative bounds the window has
  \<open>min end n - min start n\<close> elements, clamped at 0 (the spec's length formula).
\<close>

lemma py_slice_length:
  assumes "0 \<le> i" and "0 \<le> j"
  shows "length (py_slice xs i j) = min (nat j) (length xs) - min (nat i) (length xs)"
  using assms by (simp add: py_slice_take_drop py_slice_index_nonneg)

text \<open>
  Adjacent windows \<open>[i, j)\<close> and \<open>[j, k)\<close> together select exactly
  the window \<open>[i, k)\<close>: runs over consecutive index ranges shard the sorted job list
  without gaps or overlaps.
\<close>

lemma py_slice_append:
  assumes "0 \<le> i" and "i \<le> j" and "j \<le> k"
  shows "py_slice xs i j @ py_slice xs j k = py_slice xs i k"
proof -
  let ?n = "length xs"
  have ab: "min (nat i) ?n \<le> min (nat j) ?n" and bc: "min (nat j) ?n \<le> min (nat k) ?n"
    using assms by auto
  show ?thesis
    using assms take_drop_adjacent[OF ab bc, of xs]
    by (simp add: py_slice_take_drop py_slice_index_nonneg)
qed

text \<open>
  Slicing commutes with a per-element map, so slicing the input
  paths before deriving the jobs (as the scripts do) selects the same jobs as deriving
  all jobs and slicing them (as the spec's data flow describes).
\<close>

lemma py_slice_map: "py_slice (map f xs) i j = map f (py_slice xs i j)"
  by (simp add: py_slice_take_drop take_map drop_map)

text \<open>
  C32 (error): a negative start index raises nothing: it counts from the end of the
  list, as Python slicing does, where the spec asks for an \<open>InvalidRangeError\<close>.
\<close>

theorem py_slice_negative_start:
  assumes "i < 0"
  shows "py_slice xs i j = py_slice xs (max 0 (int (length xs) + i)) j"
  using assms by (simp add: py_slice_take_drop py_slice_index_def)

text \<open>
  C34 (bounds): with the default bounds (0 and 10000) the scripts process only the
  first 10000 sorted inputs; any further input file is silently skipped.
\<close>

theorem py_slice_defaults: "py_slice xs default_start_idx default_end_idx = take 10000 xs"
  by (simp add: py_slice_take_drop py_slice_index_def default_start_idx_def default_end_idx_def
      min_def)

subsection \<open>Witnesses\<close>

theorem py_slice_refines_window_witness:
  "(0::int) \<le> 1 \<and> (0::int) \<le> 2 \<and>
   py_slice [''a.vcf'', ''b.vcf'', ''c.vcf''] 1 2 = window_spec [''a.vcf'', ''b.vcf'', ''c.vcf''] 1 2
   \<and> window_spec [''a.vcf'', ''b.vcf'', ''c.vcf''] 1 2 = [''b.vcf'']"
  using py_slice_refines_window[of 1 2 "[''a.vcf'', ''b.vcf'', ''c.vcf'']"]
  by (simp add: window_spec_def upt_rec)

theorem py_slice_negative_start_witness:
  "py_slice [''a.vcf'', ''b.vcf'', ''c.vcf''] (-1) 10000 = [''c.vcf'']"
proof -
  have "py_slice [''a.vcf'', ''b.vcf'', ''c.vcf''] (-1) 10000 =
      py_slice [''a.vcf'', ''b.vcf'', ''c.vcf''] 2 10000"
    using py_slice_negative_start[of "-1" "[''a.vcf'', ''b.vcf'', ''c.vcf'']" 10000] by simp
  then show ?thesis by (simp add: py_slice_def py_slice_index_def)
qed

end
