(* ===== verification/Argparse.thy ===== *)
theory Argparse
  imports RangeSelector
begin

text \<open>
  The command line of both scripts: the \<^verbatim>\<open>argparse.ArgumentParser\<close> built in
  \<^verbatim>\<open>main\<close> (\<^verbatim>\<open>annotate_mp.py\<close> lines 17--30, \<^verbatim>\<open>categorize_mp.py\<close> lines
  17--28) and \<^verbatim>\<open>parse_args()\<close> on \<^verbatim>\<open>sys.argv[1:]\<close>, modelled after CPython
  3.8's \<^verbatim>\<open>argparse\<close> for parsers that, like these two, have only optional
  arguments taking one value (plus \<^verbatim>\<open>-h/--help\<close>). A parser is the list of its
  \<^verbatim>\<open>add_argument\<close> calls; the namespace is a map from \<^verbatim>\<open>dest\<close> to a Python value.

  \<^verbatim>\<open>parse_args\<close> first classifies every string as an option (\<open>O\<close>) or an
  argument (\<open>A\<close>) (\<^verbatim>\<open>_parse_optional\<close>: exact option strings, \<^verbatim>\<open>--opt=value\<close>,
  unique prefixes of long options, \<^verbatim>\<open>-Xvalue\<close>, and negative numbers and strings
  with a blank as arguments; everything after \<^verbatim>\<open>--\<close> is an argument), then
  consumes the options left to right (\<^verbatim>\<open>consume_optional\<close>: the explicit value,
  else the next string if it is an argument), converting values with the option's
  \<^verbatim>\<open>type\<close> (\<^verbatim>\<open>int()\<close>) after removing the first \<^verbatim>\<open>--\<close> from the option's
  strings (\<^verbatim>\<open>_get_values\<close>: \<^verbatim>\<open>--out_dir=--\<close> stores the empty list), then reports
  missing required options, then unrecognised strings. Any error ends the script with \<^verbatim>\<open>SystemExit(2)\<close>.
\<close>

subsection \<open>Python values and \<^verbatim>\<open>int()\<close>\<close>

datatype pyval = PNone | PStr string | PInt int | PList "pyval list"

text \<open>
  \<^verbatim>\<open>int(s)\<close> for a \<^verbatim>\<open>str\<close> in base 10: surrounding whitespace is ignored, an
  optional sign, then decimal digits in which single underscores may separate digits.
  The whitespace is the ASCII whitespace of \<^verbatim>\<open>str.isspace\<close>.
\<close>

definition py_isspace :: "char \<Rightarrow> bool" where
  "py_isspace c \<longleftrightarrow> c = CHR 0x20 \<or> (CHR 0x09 \<le> c \<and> c \<le> CHR 0x0D) \<or> (CHR 0x1C \<le> c \<and> c \<le> CHR 0x1F)"

definition py_strip :: "string \<Rightarrow> string" where
  "py_strip s = rev (dropWhile py_isspace (rev (dropWhile py_isspace s)))"

definition is_digit :: "char \<Rightarrow> bool" where
  "is_digit c \<longleftrightarrow> CHR ''0'' \<le> c \<and> c \<le> CHR ''9''"

definition digit_val :: "char \<Rightarrow> nat" where
  "digit_val c = of_char c - 48"

fun digits_acc :: "nat \<Rightarrow> string \<Rightarrow> nat option" where
  "digits_acc n [] = Some n"
| "digits_acc n (c # cs) =
     (if is_digit c then digits_acc (10 * n + digit_val c) cs
      else if c = CHR ''_'' then
        (case cs of d # ds \<Rightarrow> if is_digit d then digits_acc (10 * n + digit_val d) ds else None
         | [] \<Rightarrow> None)
      else None)"

definition py_digits :: "string \<Rightarrow> nat option" where
  "py_digits s = (case s of c # cs \<Rightarrow> if is_digit c then digits_acc (digit_val c) cs else None | [] \<Rightarrow> None)"

definition py_int :: "string \<Rightarrow> int option" where
  "py_int s =
     (case py_strip s of
        c # r \<Rightarrow>
          if c = CHR ''-'' then map_option (\<lambda>n. - int n) (py_digits r)
          else if c = CHR ''+'' then map_option int (py_digits r)
          else map_option int (py_digits (c # r))
      | [] \<Rightarrow> None)"

text \<open>\<^verbatim>\<open>str(i)\<close> for an \<open>int\<close>.\<close>

fun string_of_nat :: "nat \<Rightarrow> string" where
  "string_of_nat n =
     (if n < 10 then [char_of (48 + n)] else string_of_nat (n div 10) @ [char_of (48 + n mod 10)])"

declare string_of_nat.simps [simp del]

definition string_of_int :: "int \<Rightarrow> string" where
  "string_of_int i = (if i < 0 then CHR ''-'' # string_of_nat (nat (- i)) else string_of_nat (nat i))"

subsection \<open>Parsers\<close>

datatype pytype = TStr | TInt

text \<open>
  \<^verbatim>\<open>add_argument(*option_strings, dest=, type=, required=, default=)\<close> with the
  default \<^verbatim>\<open>store\<close> action, and the \<^verbatim>\<open>-h/--help\<close> action every parser has.
\<close>

datatype action = Store string pytype bool pyval | Help

type_synonym parser = "(string list \<times> action) list"

type_synonym namespace = "string \<rightharpoonup> pyval"

record args =
  in_dir :: path
  out_dir :: path
  num_proc :: int
  vep_script :: string
  start_idx :: int
  end_idx :: int

definition default_num_proc :: int where "default_num_proc = 1"
definition default_vep :: string where "default_vep = ''vep''"

text \<open>\<^verbatim>\<open>annotate_mp.py\<close> lines 17--29.\<close>

definition annotate_parser :: parser where
  "annotate_parser =
     [([''-h'', ''--help''], Help),
      ([''-i'', ''--in_dir''], Store ''in_dir'' TStr True PNone),
      ([''-o'', ''--out_dir''], Store ''out_dir'' TStr True PNone),
      ([''-p'', ''--num_proc''], Store ''num_proc'' TInt False (PInt default_num_proc)),
      ([''--vep''], Store ''vep_script'' TStr False (PStr default_vep)),
      ([''--start_idx''], Store ''start_idx'' TInt False (PInt default_start_idx)),
      ([''--end_idx''], Store ''end_idx'' TInt False (PInt default_end_idx))]"

text \<open>\<^verbatim>\<open>categorize_mp.py\<close> lines 17--27: the same options without \<^verbatim>\<open>--vep\<close>.\<close>

definition categorize_parser :: parser where
  "categorize_parser =
     [([''-h'', ''--help''], Help),
      ([''-i'', ''--in_dir''], Store ''in_dir'' TStr True PNone),
      ([''-o'', ''--out_dir''], Store ''out_dir'' TStr True PNone),
      ([''-p'', ''--num_proc''], Store ''num_proc'' TInt False (PInt default_num_proc)),
      ([''--start_idx''], Store ''start_idx'' TInt False (PInt default_start_idx)),
      ([''--end_idx''], Store ''end_idx'' TInt False (PInt default_end_idx))]"

text \<open>\<^verbatim>\<open>_option_string_actions\<close>, in insertion order.\<close>

definition opt_table :: "parser \<Rightarrow> (string \<times> action) list" where
  "opt_table P = concat (map (\<lambda>(ss, a). map (\<lambda>s. (s, a)) ss) P)"

definition lookup_opt :: "parser \<Rightarrow> string \<Rightarrow> action option" where
  "lookup_opt P s = map_option snd (find (\<lambda>(os, a). os = s) (opt_table P))"

text \<open>\<^verbatim>\<open>_get_action_name\<close>: the option strings joined by a slash.\<close>

fun join_slash :: "string list \<Rightarrow> string" where
  "join_slash [] = []"
| "join_slash [s] = s"
| "join_slash (s # ss) = s @ ''/'' @ join_slash ss"

definition action_name :: "parser \<Rightarrow> string \<Rightarrow> string" where
  "action_name P d = join_slash (concat (map (\<lambda>(ss, a). case a of Store d' t r v \<Rightarrow> if d' = d then ss else [] | Help \<Rightarrow> []) P))"

subsection \<open>Classifying the strings: \<^verbatim>\<open>_parse_optional\<close>\<close>

text \<open>An option occurrence: the action (none for an unknown option), the option string, the explicit value.\<close>

type_synonym opt_tuple = "action option \<times> string \<times> string option"

datatype tok = TA string | TO opt_tuple string | TDD

text \<open>\<^verbatim>\<open>arg_string.split('=', 1)\<close>.\<close>

definition before_eq :: "string \<Rightarrow> string" where
  "before_eq s = takeWhile (\<lambda>c. c \<noteq> CHR ''='') s"

definition after_eq :: "string \<Rightarrow> string option" where
  "after_eq s = (if CHR ''='' \<in> set s then Some (tl (dropWhile (\<lambda>c. c \<noteq> CHR ''='') s)) else None)"

text \<open>\<^verbatim>\<open>s.startswith(p)\<close>.\<close>

definition py_startswith :: "string \<Rightarrow> string \<Rightarrow> bool" where
  "py_startswith s p \<longleftrightarrow> take (length p) s = p"

text \<open>\<^verbatim>\<open>_get_option_tuples\<close> with \<^verbatim>\<open>allow_abbrev=True\<close>.\<close>

definition option_tuples :: "parser \<Rightarrow> string \<Rightarrow> opt_tuple list" where
  "option_tuples P s =
     (if take 2 s = ''--'' then
        map (\<lambda>(os, a). (Some a, os, after_eq s))
          (filter (\<lambda>(os, a). py_startswith os (before_eq s)) (opt_table P))
      else
        map (\<lambda>(os, a). (Some a, os, if os = take 2 s then Some (drop 2 s) else None))
          (filter (\<lambda>(os, a). os = take 2 s \<or> py_startswith os s) (opt_table P)))"

text \<open>\<^verbatim>\<open>_negative_number_matcher\<close>: \<^verbatim>\<open>^-\d+$|^-\d*\.\d+$\<close>, where \<^verbatim>\<open>$\<close> also matches before a final newline.\<close>

definition neg_body :: "string \<Rightarrow> bool" where
  "neg_body r \<longleftrightarrow>
     (let b = dropWhile is_digit r
      in (r \<noteq> [] \<and> b = []) \<or> (case b of c # ds \<Rightarrow> c = CHR ''.'' \<and> ds \<noteq> [] \<and> list_all is_digit ds | [] \<Rightarrow> False))"

definition negative_number :: "string \<Rightarrow> bool" where
  "negative_number s \<longleftrightarrow>
     (case s of c # r \<Rightarrow> c = CHR ''-'' \<and> (neg_body r \<or> (r \<noteq> [] \<and> last r = CHR 0x0A \<and> neg_body (butlast r)))
      | [] \<Rightarrow> False)"

definition parse_optional :: "parser \<Rightarrow> string \<Rightarrow> py_error + opt_tuple option" where
  "parse_optional P s =
     (if s = [] \<or> hd s \<noteq> CHR ''-'' then Inr None
      else case lookup_opt P s of
        Some a \<Rightarrow> Inr (Some (Some a, s, None))
      | None \<Rightarrow>
          if length s = 1 then Inr None
          else if after_eq s \<noteq> None \<and> lookup_opt P (before_eq s) \<noteq> None
          then Inr (Some (lookup_opt P (before_eq s), before_eq s, after_eq s))
          else (case option_tuples P s of
                  [t] \<Rightarrow> Inr (Some t)
                | [] \<Rightarrow> if negative_number s then Inr None
                        else if CHR '' '' \<in> set s then Inr None
                        else Inr (Some (None, s, None))
                | ts \<Rightarrow> Inl (ArgumentError (Ambiguous s (map (\<lambda>(a, os, e). os) ts)))))"

text \<open>The loop of \<^verbatim>\<open>_parse_known_args\<close> that builds the pattern: after \<^verbatim>\<open>--\<close> every string is an argument.\<close>

fun classify :: "parser \<Rightarrow> string list \<Rightarrow> py_error + tok list" where
  "classify P [] = Inr []"
| "classify P (s # ss) =
     (if s = ''--'' then Inr (TDD # map TA ss)
      else case parse_optional P s of
        Inl e \<Rightarrow> Inl e
      | Inr t \<Rightarrow> (case classify P ss of
                   Inl e \<Rightarrow> Inl e
                 | Inr ts \<Rightarrow> Inr ((case t of None \<Rightarrow> TA s | Some u \<Rightarrow> TO u s) # ts)))"

subsection \<open>Consuming the options: \<^verbatim>\<open>consume_optional\<close> and \<^verbatim>\<open>take_action\<close>\<close>

text \<open>\<^verbatim>\<open>_get_value\<close>: the \<^verbatim>\<open>type\<close> conversion, with its error.\<close>

definition convert :: "parser \<Rightarrow> string \<Rightarrow> pytype \<Rightarrow> string \<Rightarrow> py_error + pyval" where
  "convert P d t v =
     (case t of TStr \<Rightarrow> Inr (PStr v)
      | TInt \<Rightarrow> (case py_int v of None \<Rightarrow> Inl (ArgumentError (InvalidInt (action_name P d) v))
                 | Some i \<Rightarrow> Inr (PInt i)))"

text \<open>
  \<^verbatim>\<open>_get_values\<close> for an action with the default \<^verbatim>\<open>nargs\<close>: the first
  \<^verbatim>\<open>--\<close> is removed from the option's strings; a single string left is converted to
  the value, otherwise the value is the list of the converted strings (so an explicit
  value \<^verbatim>\<open>--\<close> stores \<^verbatim>\<open>[]\<close>, unconverted).
\<close>

fun convert_all :: "parser \<Rightarrow> string \<Rightarrow> pytype \<Rightarrow> string list \<Rightarrow> py_error + pyval list" where
  "convert_all P d t [] = Inr []"
| "convert_all P d t (v # vs) =
     (case convert P d t v of
        Inl e \<Rightarrow> Inl e
      | Inr x \<Rightarrow> (case convert_all P d t vs of Inl e \<Rightarrow> Inl e | Inr xs \<Rightarrow> Inr (x # xs)))"

definition get_values :: "parser \<Rightarrow> string \<Rightarrow> pytype \<Rightarrow> string list \<Rightarrow> py_error + pyval" where
  "get_values P d t vs =
     (let vs' = remove1 ''--'' vs
      in if length vs' = 1 then convert P d t (hd vs')
         else (case convert_all P d t vs' of Inl e \<Rightarrow> Inl e | Inr xs \<Rightarrow> Inr (PList xs)))"

text \<open>
  \<^verbatim>\<open>-h\<close> followed by more characters in the same string: the next character is
  read as another single-dash option (\<^verbatim>\<open>-hi x\<close> is \<^verbatim>\<open>-h -i x\<close>); the help
  action then runs first and exits, unless the chain fails first.
\<close>

fun help_chain :: "parser \<Rightarrow> string \<Rightarrow> tok list \<Rightarrow> py_error" where
  "help_chain P [] ts = IndexError"
| "help_chain P (c # r) ts =
     (case lookup_opt P [CHR ''-'', c] of
        None \<Rightarrow> ArgumentError (IgnoredExplicit (c # r))
      | Some Help \<Rightarrow> (if r = [] then HelpExit else help_chain P r ts)
      | Some (Store d t req v) \<Rightarrow>
          (if r \<noteq> [] then HelpExit
           else case ts of TA x # _ \<Rightarrow> HelpExit | _ \<Rightarrow> ArgumentError (ExpectedOne (action_name P d))))"

text \<open>The parse state: the namespace, the unrecognised strings, the \<^verbatim>\<open>dest\<close>s of the actions seen.\<close>

type_synonym pstate = "namespace \<times> string list \<times> string list"

definition store :: "parser \<Rightarrow> string \<Rightarrow> pytype \<Rightarrow> string list \<Rightarrow> pstate \<Rightarrow> py_error + pstate" where
  "store P d t vs st =
     (case get_values P d t vs of
        Inl e \<Rightarrow> Inl e
      | Inr x \<Rightarrow> (case st of (ns, ex, seen) \<Rightarrow> Inr (ns(d \<mapsto> x), ex, seen @ [d])))"

fun consume :: "parser \<Rightarrow> tok list \<Rightarrow> pstate \<Rightarrow> py_error + pstate" where
  "consume P [] st = Inr st"
| "consume P (TA s # ts) (ns, ex, seen) = consume P ts (ns, ex @ [s], seen)"
| "consume P (TDD # ts) (ns, ex, seen) = consume P ts (ns, ex @ [''--''], seen)"
| "consume P (TO (None, os, e) s # ts) (ns, ex, seen) = consume P ts (ns, ex @ [s], seen)"
| "consume P (TO (Some Help, os, None) s # ts) st = Inl HelpExit"
| "consume P (TO (Some Help, os, Some x) s # ts) st =
     Inl (if take 2 os = ''--'' then ArgumentError (IgnoredExplicit x) else help_chain P x ts)"
| "consume P (TO (Some (Store d t req dflt), os, Some x) s # ts) st =
     (case store P d t [x] st of Inl e \<Rightarrow> Inl e | Inr st' \<Rightarrow> consume P ts st')"
| "consume P (TO (Some (Store d t req dflt), os, None) s # TA v # ts) st =
     (case store P d t [v] st of Inl e \<Rightarrow> Inl e | Inr st' \<Rightarrow> consume P ts st')"
| "consume P (TO (Some (Store d t req dflt), os, None) s # ts) st =
     Inl (ArgumentError (ExpectedOne (action_name P d)))"

subsection \<open>\<^verbatim>\<open>parse_args\<close>\<close>

text \<open>The namespace before parsing: every \<^verbatim>\<open>dest\<close> set to its default (\<^verbatim>\<open>None\<close> for the required ones).\<close>

definition init_ns :: "parser \<Rightarrow> namespace" where
  "init_ns P = map_of (concat (map (\<lambda>(ss, a). case a of Store d t r v \<Rightarrow> [(d, v)] | Help \<Rightarrow> []) P))"

definition missing_required :: "parser \<Rightarrow> string list \<Rightarrow> string list" where
  "missing_required P seen =
     concat (map (\<lambda>(ss, a). case a of Store d t r v \<Rightarrow> if r \<and> d \<notin> set seen then [join_slash ss] else []
                                  | Help \<Rightarrow> []) P)"

definition parse_args :: "parser \<Rightarrow> string list \<Rightarrow> py_error + namespace" where
  "parse_args P argv =
     (case classify P argv of
        Inl e \<Rightarrow> Inl e
      | Inr ts \<Rightarrow>
          (case consume P ts (init_ns P, [], []) of
             Inl e \<Rightarrow> Inl e
           | Inr (ns, ex, seen) \<Rightarrow>
               if missing_required P seen \<noteq> [] then Inl (ArgumentError (Required (missing_required P seen)))
               else if ex \<noteq> [] then Inl (ArgumentError (Unrecognized ex))
               else Inr ns))"

text \<open>The exit status of a script ended by an exception.\<close>

fun exit_status :: "py_error \<Rightarrow> nat" where
  "exit_status HelpExit = 0"
| "exit_status (ArgumentError e) = 2"
| "exit_status _ = 1"

text \<open>The exit status of the interpreter running \<^verbatim>\<open>main()\<close> (lines 68--69): 0 when \<^verbatim>\<open>main\<close> returns.\<close>

definition script_exit :: "py_error + 'a \<Rightarrow> nat" where
  "script_exit r = (case r of Inl err \<Rightarrow> exit_status err | Inr x \<Rightarrow> 0)"

text \<open>
  Reading the namespace as the attributes \<^verbatim>\<open>main\<close> uses (\<^verbatim>\<open>args.in_dir\<close>, ...).
  A string attribute enters \<^verbatim>\<open>main\<close> through an f-string, which formats the
  empty list as \<^verbatim>\<open>[]\<close>; \<open>py_is_list\<close> tells the attributes on which \<^verbatim>\<open>main\<close>
  fails with a \<^verbatim>\<open>TypeError\<close> instead (theory \<open>Scripts\<close>).
\<close>

fun py_is_list :: "pyval option \<Rightarrow> bool" where
  "py_is_list (Some (PList xs)) = True"
| "py_is_list _ = False"


fun py_str_attr :: "pyval option \<Rightarrow> string" where
  "py_str_attr (Some (PStr s)) = s"
| "py_str_attr (Some (PList [])) = ''[]''"
| "py_str_attr _ = []"

fun py_int_attr :: "pyval option \<Rightarrow> int" where
  "py_int_attr (Some (PInt i)) = i"
| "py_int_attr _ = 0"

definition args_of :: "namespace \<Rightarrow> args" where
  "args_of ns =
     \<lparr>in_dir = py_str_attr (ns ''in_dir''), out_dir = py_str_attr (ns ''out_dir''),
      num_proc = py_int_attr (ns ''num_proc''), vep_script = py_str_attr (ns ''vep_script''),
      start_idx = py_int_attr (ns ''start_idx''), end_idx = py_int_attr (ns ''end_idx'')\<rparr>"

text \<open>
  The value an option can hold: one of its \<^verbatim>\<open>type\<close>, or the empty list an
  explicit \<^verbatim>\<open>--\<close> stores. The well-formedness of a parser these two scripts
  satisfy: distinct \<^verbatim>\<open>dest\<close>s, and every optional option's default of its type.
\<close>

fun has_type :: "pytype \<Rightarrow> pyval option \<Rightarrow> bool" where
  "has_type TStr (Some (PStr s)) = True"
| "has_type TInt (Some (PInt i)) = True"
| "has_type t (Some (PList xs)) = (xs = [])"
| "has_type t v = False"

definition store_actions :: "parser \<Rightarrow> (string \<times> pytype \<times> bool \<times> pyval) list" where
  "store_actions P = concat (map (\<lambda>(ss, a). case a of Store d t r v \<Rightarrow> [(d, t, r, v)] | Help \<Rightarrow> []) P)"

definition parser_wf :: "parser \<Rightarrow> bool" where
  "parser_wf P \<longleftrightarrow> distinct (map fst (store_actions P)) \<and>
     list_all (\<lambda>(d, t, r, v). r \<or> has_type t (Some v)) (store_actions P)"

text \<open>A namespace in which every \<^verbatim>\<open>dest\<close> of the parser holds a value of the option's \<^verbatim>\<open>type\<close>.\<close>

definition ns_typed :: "parser \<Rightarrow> namespace \<Rightarrow> bool" where
  "ns_typed P ns \<longleftrightarrow> list_all (\<lambda>(d, t, r, v). has_type t (ns d)) (store_actions P)"

text \<open>The command line a caller writes for given arguments, every option in \<^verbatim>\<open>--opt=value\<close> form.\<close>

definition annotate_argv :: "args \<Rightarrow> string list" where
  "annotate_argv a =
     [''--in_dir='' @ in_dir a, ''--out_dir='' @ out_dir a, ''--num_proc='' @ string_of_int (num_proc a),
      ''--vep='' @ vep_script a, ''--start_idx='' @ string_of_int (start_idx a),
      ''--end_idx='' @ string_of_int (end_idx a)]"

definition categorize_argv :: "args \<Rightarrow> string list" where
  "categorize_argv a =
     [''--in_dir='' @ in_dir a, ''--out_dir='' @ out_dir a, ''--num_proc='' @ string_of_int (num_proc a),
      ''--start_idx='' @ string_of_int (start_idx a), ''--end_idx='' @ string_of_int (end_idx a)]"

text \<open>
  Predicates the lemmas below use: the value of a digit string, parsers without
  \<open>=\<close> or a digit in their option strings, the parse tokens that come from the
  parser, and the invariant of the namespace during \<^verbatim>\<open>consume_optional\<close>.
\<close>

abbreviation digits_value :: "nat \<Rightarrow> string \<Rightarrow> nat" where
  "digits_value n xs \<equiv> foldl (\<lambda>a c. 10 * a + digit_val c) n xs"

definition no_eq_options :: "parser \<Rightarrow> bool" where
  "no_eq_options P \<longleftrightarrow> list_all (\<lambda>(os, a). CHR ''='' \<notin> set os) (opt_table P)"

definition toks_from :: "parser \<Rightarrow> tok list \<Rightarrow> bool" where
  "toks_from P ts \<longleftrightarrow> (\<forall>a os e s. TO (Some a, os, e) s \<in> set ts \<longrightarrow> a \<in> snd ` set P)"

definition store_inv :: "parser \<Rightarrow> pstate \<Rightarrow> bool" where
  "store_inv P st \<longleftrightarrow> (case st of (ns, ex, seen) \<Rightarrow>
     list_all (\<lambda>(d, t, r, v). if d \<in> set seen then has_type t (ns d) else ns d = Some v) (store_actions P))"

definition no_digit_options :: "parser \<Rightarrow> bool" where
  "no_digit_options P \<longleftrightarrow> list_all (\<lambda>(os, a). \<not> (2 \<le> length os \<and> is_digit (os ! 1))) (opt_table P)"

subsection \<open>\<^verbatim>\<open>int()\<close> reads back \<^verbatim>\<open>str()\<close>\<close>

lemma digit_char: "d < 10 \<Longrightarrow> is_digit (char_of (48 + d)) \<and> digit_val (char_of (48 + d)) = d"
  by (auto simp: is_digit_def digit_val_def less_eq_char_def of_char_of)

lemma digits_acc_digits: "list_all is_digit xs \<Longrightarrow> digits_acc n xs = Some (digits_value n xs)"
  by (induction xs arbitrary: n) auto

lemma string_of_nat_digits:
  "string_of_nat n \<noteq> [] \<and> list_all is_digit (string_of_nat n) \<and> digits_value 0 (string_of_nat n) = n"
proof (induction n rule: string_of_nat.induct)
  case (1 n)
  show ?case
  proof (cases "n < 10")
    case True
    then have "string_of_nat n = [char_of (48 + n)]" by (subst string_of_nat.simps) simp
    then show ?thesis using digit_char[OF True] by simp
  next
    case False
    have "n mod 10 < 10" by simp
    then have c: "is_digit (char_of (48 + n mod 10)) \<and> digit_val (char_of (48 + n mod 10)) = n mod 10"
      by (rule digit_char)
    have "string_of_nat n = string_of_nat (n div 10) @ [char_of (48 + n mod 10)]"
      using False by (subst string_of_nat.simps) simp
    then show ?thesis using 1 False c by simp
  qed
qed

lemma py_digits_digits:
  assumes "xs \<noteq> []" and "list_all is_digit xs"
  shows "py_digits xs = Some (digits_value 0 xs)"
  using assms digits_acc_digits by (cases xs) (auto simp: py_digits_def)

lemma py_strip_no_space: "list_all (\<lambda>c. \<not> py_isspace c) s \<Longrightarrow> py_strip s = s"
proof -
  assume a: "list_all (\<lambda>c. \<not> py_isspace c) s"
  then have "dropWhile py_isspace s = s" by (cases s) auto
  moreover have "dropWhile py_isspace (rev s) = rev s" using a by (cases "rev s") (auto simp flip: rev_swap)
  ultimately show ?thesis by (simp add: py_strip_def)
qed

lemma digit_not_space: "is_digit c \<Longrightarrow> \<not> py_isspace c \<and> c \<noteq> CHR ''-'' \<and> c \<noteq> CHR ''+''"
  by (auto simp: is_digit_def py_isspace_def less_eq_char_def)

lemma py_int_string_of_int: "py_int (string_of_int i) = Some i"
proof -
  obtain c r where sn: "string_of_nat (nat \<bar>i\<bar>) = c # r"
    using string_of_nat_digits[of "nat \<bar>i\<bar>"] by (cases "string_of_nat (nat \<bar>i\<bar>)") auto
  have d: "list_all is_digit (c # r)" and v: "digits_value 0 (c # r) = nat \<bar>i\<bar>"
    using string_of_nat_digits[of "nat \<bar>i\<bar>"] sn by simp_all
  have ns: "list_all (\<lambda>c. \<not> py_isspace c) (c # r)"
    using d digit_not_space by (simp add: list_all_iff)
  have pd: "py_digits (c # r) = Some (nat \<bar>i\<bar>)" using py_digits_digits[of "c # r"] d v by simp
  have c: "c \<noteq> CHR ''-'' \<and> c \<noteq> CHR ''+''" using d digit_not_space by simp
  show ?thesis
  proof (cases "i < 0")
    case True
    then have "string_of_int i = CHR ''-'' # c # r" using sn by (simp add: string_of_int_def)
    moreover have "py_strip (CHR ''-'' # c # r) = CHR ''-'' # c # r"
      using ns by (intro py_strip_no_space) (simp add: py_isspace_def)
    ultimately show ?thesis using pd True by (simp add: py_int_def)
  next
    case False
    then have "string_of_int i = c # r" using sn by (simp add: string_of_int_def)
    then show ?thesis using pd c False py_strip_no_space[OF ns] by (simp add: py_int_def)
  qed
qed

subsection \<open>Options written \<^verbatim>\<open>--opt=value\<close>\<close>

lemma lookup_opt_eq_None:
  "no_eq_options P \<Longrightarrow> CHR ''='' \<in> set s \<Longrightarrow> lookup_opt P s = None"
  by (auto simp: lookup_opt_def no_eq_options_def find_None_iff list_all_iff)

lemma split_eq_append:
  "CHR ''='' \<notin> set os \<Longrightarrow> before_eq (os @ CHR ''='' # x) = os \<and> after_eq (os @ CHR ''='' # x) = Some x"
  by (induction os) (auto simp: before_eq_def after_eq_def)

lemma parse_optional_explicit:
  assumes "no_eq_options P" and "lookup_opt P os = Some a" and "CHR ''='' \<notin> set os"
    and "take 1 os = ''-''"
  shows "parse_optional P (os @ CHR ''='' # x) = Inr (Some (Some a, os, Some x))"
proof -
  obtain r where os: "os = CHR ''-'' # r" using assms(4) by (cases os) auto
  have "lookup_opt P (os @ CHR ''='' # x) = None" using lookup_opt_eq_None[OF assms(1)] by simp
  then show ?thesis using split_eq_append[OF assms(3), of x] assms(2) os
    by (simp add: parse_optional_def)
qed

lemma classify_explicit:
  assumes "no_eq_options P"
    and "\<forall>(os, x) \<in> set ps. lookup_opt P os \<noteq> None \<and> CHR ''='' \<notin> set os \<and> take 1 os = ''-''"
  shows "classify P (map (\<lambda>(os, x). os @ CHR ''='' # x) ps) =
    Inr (map (\<lambda>(os, x). TO (lookup_opt P os, os, Some x) (os @ CHR ''='' # x)) ps)"
  using assms(2)
proof (induction ps)
  case Nil
  then show ?case by simp
next
  case (Cons p ps)
  obtain os x where p: "p = (os, x)" by (cases p)
  then obtain a where a: "lookup_opt P os = Some a" and e: "CHR ''='' \<notin> set os" and t: "take 1 os = ''-''"
    using Cons.prems by auto
  have "CHR ''='' \<in> set (os @ CHR ''='' # x)" by simp
  moreover have "CHR ''='' \<notin> set ''--''" by simp
  ultimately have "os @ CHR ''='' # x \<noteq> ''--''" by metis
  then show ?case using Cons parse_optional_explicit[OF assms(1) a e t, of x] p a by simp
qed

lemma annotate_parser_no_eq: "no_eq_options annotate_parser"
  and categorize_parser_no_eq: "no_eq_options categorize_parser"
  by (simp_all add: no_eq_options_def opt_table_def annotate_parser_def categorize_parser_def)

lemmas parser_defs = annotate_parser_def categorize_parser_def lookup_opt_def opt_table_def
  default_num_proc_def default_vep_def default_start_idx_def default_end_idx_def

subsection \<open>Where the actions of a parse come from\<close>

lemma opt_table_action: "(os, a) \<in> set (opt_table P) \<Longrightarrow> a \<in> snd ` set P"
  by (force simp: opt_table_def)

lemma lookup_opt_action:
  assumes "lookup_opt P s = Some a"
  shows "a \<in> snd ` set P"
proof -
  obtain x where f: "find (\<lambda>(os, a). os = s) (opt_table P) = Some x" and a: "a = snd x"
    using assms by (auto simp: lookup_opt_def)
  have "x \<in> set (opt_table P)" using f by (metis find_Some_iff nth_mem)
  then show ?thesis using a opt_table_action[of "fst x" "snd x"] by simp
qed

lemma option_tuples_action: "(Some a, os, e) \<in> set (option_tuples P s) \<Longrightarrow> a \<in> snd ` set P"
  by (auto simp: option_tuples_def split: if_splits intro: opt_table_action)

lemma parse_optional_action:
  assumes "parse_optional P s = Inr (Some (Some a, os, e))"
  shows "a \<in> snd ` set P"
proof -
  have "lookup_opt P s = Some a \<or> lookup_opt P (before_eq s) = Some a \<or> (Some a, os, e) \<in> set (option_tuples P s)"
    using assms
    by (auto simp: parse_optional_def split: if_splits option.splits list.splits)
  then show ?thesis using lookup_opt_action option_tuples_action by blast
qed

lemma classify_toks_from: "classify P argv = Inr ts \<Longrightarrow> toks_from P ts"
proof (induction argv arbitrary: ts)
  case Nil
  then show ?case by (simp add: toks_from_def)
next
  case (Cons s ss)
  show ?case
  proof (cases "s = ''--''")
    case True
    then show ?thesis using Cons.prems by (auto simp: toks_from_def)
  next
    case False
    then obtain t ts' where p: "parse_optional P s = Inr t" and c: "classify P ss = Inr ts'"
      and ts: "ts = (case t of None \<Rightarrow> TA s | Some u \<Rightarrow> TO u s) # ts'"
      using Cons.prems by (auto split: sum.splits)
    have ih: "toks_from P ts'" by (rule Cons.IH[OF c])
    show ?thesis unfolding toks_from_def
    proof (intro allI impI)
      fix a os e s' assume "TO (Some a, os, e) s' \<in> set ts"
      then consider "TO (Some a, os, e) s' \<in> set ts'" | "t = Some (Some a, os, e)"
        using ts by (cases t) auto
      then show "a \<in> snd ` set P"
      proof cases
        case 1
        then show ?thesis using ih unfolding toks_from_def by blast
      next
        case 2
        then show ?thesis using p parse_optional_action by blast
      qed
    qed
  qed
qed

subsection \<open>The parsed namespace is well typed\<close>

lemma store_actions_Store: "Store d t r v \<in> snd ` set P \<Longrightarrow> (d, t, r, v) \<in> set (store_actions P)"
  by (force simp: store_actions_def)

lemma convert_typed: "convert P d t x = Inr y \<Longrightarrow> has_type t (Some y)"
  by (cases t) (auto simp: convert_def split: option.splits)

lemma get_values_typed:
  assumes "get_values P d t [x] = Inr y"
  shows "has_type t (Some y)"
proof (cases "x = ''--''")
  case True
  then show ?thesis using assms by (cases t) (auto simp: get_values_def)
next
  case False
  then show ?thesis using assms convert_typed by (simp add: get_values_def)
qed

lemma store_inv_store:
  assumes "store_inv P st" and "store P d t [x] st = Inr st'"
    and "distinct (map fst (store_actions P))" and "(d, t, r, v) \<in> set (store_actions P)"
  shows "store_inv P st'"
proof -
  obtain ns ex seen where st: "st = (ns, ex, seen)" by (cases st)
  obtain y where c: "get_values P d t [x] = Inr y" and st': "st' = (ns(d \<mapsto> y), ex, seen @ [d])"
    using assms(2) st by (auto simp: store_def split: sum.splits)
  have ty: "has_type t (Some y)" by (rule get_values_typed[OF c])
  have "t' = t" if "(d, t', r', v') \<in> set (store_actions P)" for t' r' v'
    using eq_key_imp_eq_value[OF assms(3) that assms(4)] by simp
  then have same: "(d', t', r', v') \<in> set (store_actions P) \<Longrightarrow> d' = d \<Longrightarrow> t' = t" for d' t' r' v'
    by blast
  have old: "(if d' \<in> set seen then has_type t' (ns d') else ns d' = Some v')"
    if "(d', t', r', v') \<in> set (store_actions P)" for d' t' r' v'
    using assms(1) that unfolding st store_inv_def list_all_iff by fastforce
  show ?thesis unfolding st' store_inv_def list_all_iff
  proof (clarify)
    fix d' t' r' v' assume m: "(d', t', r', v') \<in> set (store_actions P)"
    show "if d' \<in> set (seen @ [d]) then has_type t' ((ns(d \<mapsto> y)) d') else (ns(d \<mapsto> y)) d' = Some v'"
      using old[OF m] same[OF m] ty by (cases "d' = d") auto
  qed
qed

lemma consume_store_inv:
  assumes "consume P ts st = Inr st'" and "store_inv P st" and "toks_from P ts"
    and "distinct (map fst (store_actions P))"
  shows "store_inv P st'"
  using assms
proof (induction P ts st rule: consume.induct)
  case (7 P d t req dflt os x s ts st)
  then obtain st1 where s1: "store P d t [x] st = Inr st1" and c: "consume P ts st1 = Inr st'"
    by (auto split: sum.splits)
  have "(d, t, req, dflt) \<in> set (store_actions P)"
    using "7.prems"(3) store_actions_Store by (auto simp: toks_from_def)
  then have "store_inv P st1" using store_inv_store[OF "7.prems"(2) s1 "7.prems"(4)] by blast
  moreover have "toks_from P ts" using "7.prems"(3) by (auto simp: toks_from_def)
  ultimately show ?case using "7.IH"[OF s1 c _ _ "7.prems"(4)] by blast
next
  case (8 P d t req dflt os s v ts st)
  then obtain st1 where s1: "store P d t [v] st = Inr st1" and c: "consume P ts st1 = Inr st'"
    by (auto split: sum.splits)
  have "(d, t, req, dflt) \<in> set (store_actions P)"
    using "8.prems"(3) store_actions_Store by (auto simp: toks_from_def)
  then have "store_inv P st1" using store_inv_store[OF "8.prems"(2) s1 "8.prems"(4)] by blast
  moreover have "toks_from P ts" using "8.prems"(3) by (auto simp: toks_from_def)
  ultimately show ?case using "8.IH"[OF s1 c _ _ "8.prems"(4)] by blast
qed (auto simp: toks_from_def store_inv_def)

lemma init_ns_store_actions: "init_ns P = map_of (map (\<lambda>(d, t, r, v). (d, v)) (store_actions P))"
proof -
  have "concat (map (\<lambda>(ss, a). case a of Store d t r v \<Rightarrow> [(d, v)] | Help \<Rightarrow> []) P) =
      map (\<lambda>(d, t, r, v). (d, v)) (store_actions P)"
    by (induction P) (auto simp: store_actions_def split: action.splits)
  then show ?thesis by (simp add: init_ns_def)
qed

lemma store_inv_init:
  assumes "distinct (map fst (store_actions P))"
  shows "store_inv P (init_ns P, [], [])"
proof -
  have fm: "map fst (map (\<lambda>(d, t, r, v). (d, v)) xs) = map fst xs" for xs :: "(string \<times> pytype \<times> bool \<times> pyval) list"
    by (induction xs) auto
  have "distinct (map fst (map (\<lambda>(d, t, r, v). (d, v)) (store_actions P)))" using assms by (simp only: fm)
  then have "map_of (map (\<lambda>(d, t, r, v). (d, v)) (store_actions P)) d = Some v"
    if "(d, t, r, v) \<in> set (store_actions P)" for d t r v
    using that by (force intro: map_of_is_SomeI)
  then show ?thesis by (auto simp: store_inv_def init_ns_store_actions list_all_iff)
qed

lemma missing_required_Nil:
  "missing_required P seen = [] \<longleftrightarrow> list_all (\<lambda>(d, t, r, v). r \<longrightarrow> d \<in> set seen) (store_actions P)"
  by (induction P) (auto simp: missing_required_def store_actions_def split: action.splits if_splits)

lemma parse_args_typed_wf:
  assumes "parse_args P argv = Inr ns" and "parser_wf P"
  shows "ns_typed P ns"
proof -
  have dist: "distinct (map fst (store_actions P))" using assms(2) by (simp add: parser_wf_def)
  obtain ts ex seen where c: "classify P argv = Inr ts"
    and k: "consume P ts (init_ns P, [], []) = Inr (ns, ex, seen)"
    and m: "missing_required P seen = []"
    using assms(1) by (auto simp: parse_args_def split: sum.splits if_splits)
  have "store_inv P (ns, ex, seen)"
    by (rule consume_store_inv[OF k store_inv_init[OF dist] classify_toks_from[OF c] dist])
  then have inv: "\<forall>x \<in> set (store_actions P). case x of (d, t, r, v) \<Rightarrow>
      if d \<in> set seen then has_type t (ns d) else ns d = Some v"
    by (simp add: store_inv_def list_all_iff)
  have req: "\<forall>x \<in> set (store_actions P). case x of (d, t, r, v) \<Rightarrow> r \<longrightarrow> d \<in> set seen"
    using m by (simp add: missing_required_Nil list_all_iff)
  have dfl: "\<forall>x \<in> set (store_actions P). case x of (d, t, r, v) \<Rightarrow> r \<or> has_type t (Some v)"
    using assms(2) by (simp add: parser_wf_def list_all_iff)
  show ?thesis unfolding ns_typed_def list_all_iff
  proof clarify
    fix d t r v assume x: "(d, t, r, v) \<in> set (store_actions P)"
    show "has_type t (ns d)"
      using bspec[OF inv x] bspec[OF req x] bspec[OF dfl x] by (cases "d \<in> set seen") auto
  qed
qed

lemma annotate_parser_wf: "parser_wf annotate_parser"
  and categorize_parser_wf: "parser_wf categorize_parser"
  by (simp_all add: parser_wf_def store_actions_def parser_defs)

subsection \<open>Numbers as option values\<close>

lemma string_of_nat_Cons: "\<exists>c r. string_of_nat n = c # r \<and> list_all is_digit (c # r)"
  using string_of_nat_digits[of n] by (cases "string_of_nat n") auto

lemma parse_optional_string_of_int:
  assumes "no_digit_options P"
  shows "parse_optional P (string_of_int i) = Inr None"
proof -
  obtain c r where sn: "string_of_nat (nat \<bar>i\<bar>) = c # r" and d: "list_all is_digit (c # r)"
    using string_of_nat_Cons by blast
  have dc: "\<not> py_isspace c \<and> c \<noteq> CHR ''-'' \<and> c \<noteq> CHR ''+''" using d digit_not_space by simp
  show ?thesis
  proof (cases "i < 0")
    case False
    then show ?thesis using sn dc by (simp add: string_of_int_def parse_optional_def)
  next
    case True
    let ?s = "CHR ''-'' # c # r"
    have s: "string_of_int i = ?s" using True sn by (simp add: string_of_int_def)
    have no: "\<not> (2 \<le> length os \<and> is_digit (os ! 1))" if "(os, a) \<in> set (opt_table P)" for os a
      using assms that by (auto simp: no_digit_options_def list_all_iff)
    have "lookup_opt P ?s = None"
      using no d by (fastforce simp: lookup_opt_def find_None_iff)
    moreover have "CHR ''='' \<notin> set ?s" using d digit_not_space by (auto simp: list_all_iff is_digit_def)
    then have "after_eq ?s = None" by (simp add: after_eq_def)
    moreover have "option_tuples P ?s = []"
    proof -
      have "\<not> (os = take 2 ?s \<or> py_startswith os ?s)" if "(os, a) \<in> set (opt_table P)" for os a
      proof
        assume "os = take 2 ?s \<or> py_startswith os ?s"
        then have "2 \<le> length os \<and> os ! 1 = c"
          by (auto simp: py_startswith_def dest: arg_cong[of _ _ "\<lambda>xs. xs ! 1"] arg_cong[of _ _ length])
        then show False using no[OF that] d by simp
      qed
      moreover have "take 2 ?s \<noteq> ''--''" using dc by simp
      ultimately show ?thesis by (auto simp: option_tuples_def filter_empty_conv)
    qed
    moreover have "negative_number ?s"
      using d by (simp add: negative_number_def neg_body_def list_all_iff dropWhile_eq_Nil_conv)
    ultimately show ?thesis using s by (simp add: parse_optional_def)
  qed
qed

lemma string_of_int_not_dd: "string_of_int i \<noteq> ''--''"
proof -
  obtain c r where sn: "string_of_nat (nat \<bar>i\<bar>) = c # r" and d: "list_all is_digit (c # r)"
    using string_of_nat_Cons by blast
  have "c \<noteq> CHR ''-''" using d digit_not_space by simp
  then show ?thesis using sn by (auto simp: string_of_int_def)
qed

lemma classify_string_of_int:
  "no_digit_options P \<Longrightarrow>
   classify P (string_of_int i # ss) = map_sum id (\<lambda>ts. TA (string_of_int i) # ts) (classify P ss)"
  using parse_optional_string_of_int[of P i] string_of_int_not_dd[of i]
  by (simp split: sum.splits)

lemma annotate_parser_no_digit: "no_digit_options annotate_parser"
  and categorize_parser_no_digit: "no_digit_options categorize_parser"
  by (simp_all add: no_digit_options_def parser_defs is_digit_def less_eq_char_def)

lemma annotate_argv_explicit:
  "annotate_argv a = map (\<lambda>(os, x). os @ CHR ''='' # x)
     [(''--in_dir'', in_dir a), (''--out_dir'', out_dir a), (''--num_proc'', string_of_int (num_proc a)),
      (''--vep'', vep_script a), (''--start_idx'', string_of_int (start_idx a)),
      (''--end_idx'', string_of_int (end_idx a))]"
  by (simp add: annotate_argv_def)

lemma categorize_argv_explicit: "categorize_argv a = map (\<lambda>(os, x). os @ CHR ''='' # x)
     [(''--in_dir'', in_dir a), (''--out_dir'', out_dir a), (''--num_proc'', string_of_int (num_proc a)),
      (''--start_idx'', string_of_int (start_idx a)), (''--end_idx'', string_of_int (end_idx a))]"
  by (simp add: categorize_argv_def)

lemmas parse_eval = parse_args_def parser_defs store_def get_values_def convert_def py_int_string_of_int
  init_ns_def missing_required_def args_of_def

lemma classify_Cons:
  "s \<noteq> ''--'' \<Longrightarrow> parse_optional P s = Inr t \<Longrightarrow>
   classify P (s # ss) = map_sum id (\<lambda>ts. (case t of None \<Rightarrow> TA s | Some u \<Rightarrow> TO u s) # ts) (classify P ss)"
  by (simp split: sum.splits)

lemma parse_annotate_argv:
  assumes "in_dir a \<noteq> ''--''" and "out_dir a \<noteq> ''--''" and "vep_script a \<noteq> ''--''"
  shows "map_sum id args_of (parse_args annotate_parser (annotate_argv a)) = Inr a"
proof -
  have "classify annotate_parser (annotate_argv a) = Inr
     (map (\<lambda>(os, x). TO (lookup_opt annotate_parser os, os, Some x) (os @ CHR ''='' # x))
     [(''--in_dir'', in_dir a), (''--out_dir'', out_dir a), (''--num_proc'', string_of_int (num_proc a)),
      (''--vep'', vep_script a), (''--start_idx'', string_of_int (start_idx a)),
      (''--end_idx'', string_of_int (end_idx a))])"
    unfolding annotate_argv_explicit
    by (rule classify_explicit[OF annotate_parser_no_eq]) (simp add: parser_defs)
  then show ?thesis
    using assms[THEN not_sym] string_of_int_not_dd[THEN not_sym] by (simp add: parse_eval)
qed

lemma parse_categorize_argv:
  assumes "in_dir a \<noteq> ''--''" and "out_dir a \<noteq> ''--''"
  shows "map_sum id args_of (parse_args categorize_parser (categorize_argv a)) = Inr (a\<lparr>vep_script := []\<rparr>)"
proof -
  have "classify categorize_parser (categorize_argv a) = Inr
     (map (\<lambda>(os, x). TO (lookup_opt categorize_parser os, os, Some x) (os @ CHR ''='' # x))
     [(''--in_dir'', in_dir a), (''--out_dir'', out_dir a), (''--num_proc'', string_of_int (num_proc a)),
      (''--start_idx'', string_of_int (start_idx a)), (''--end_idx'', string_of_int (end_idx a))])"
    unfolding categorize_argv_explicit
    by (rule classify_explicit[OF categorize_parser_no_eq]) (simp add: parser_defs)
  then show ?thesis
    using assms[THEN not_sym] string_of_int_not_dd[THEN not_sym] by (simp add: parse_eval)
qed

text \<open>
  With \<^verbatim>\<open>allow_abbrev\<close> on by default, every unique prefix of a long option names
  it: \<^verbatim>\<open>--in\<close>, \<^verbatim>\<open>--out\<close> and \<^verbatim>\<open>--start\<close> are accepted for
  \<^verbatim>\<open>--in_dir\<close>, \<^verbatim>\<open>--out_dir\<close> and \<^verbatim>\<open>--start_idx\<close>.
\<close>

lemma abbreviated_options:
  "map_sum id args_of (parse_args annotate_parser [''--in=d'', ''--out'', ''o'', ''--start'', ''3'']) =
   Inr \<lparr>in_dir = ''d'', out_dir = ''o'', num_proc = 1, vep_script = ''vep'', start_idx = 3, end_idx = 10000\<rparr>"
  by (simp add: parse_eval parse_optional_def option_tuples_def before_eq_def after_eq_def py_startswith_def
      negative_number_def py_int_def py_strip_def py_isspace_def py_digits_def is_digit_def digit_val_def)

subsection \<open>Properties of the command line\<close>

text \<open>
  C13 (roundtrip): the parsed arguments are read back from the command line a caller
  writes for them, for every value of every option: \<^verbatim>\<open>--opt=value\<close> carries
  any string, also one starting with a dash, and \<^verbatim>\<open>int()\<close> reads \<^verbatim>\<open>str()\<close> of
  every integer. The categorize namespace has no \<^verbatim>\<open>vep_script\<close>.
\<close>

theorem parse_args_roundtrip:
  assumes "in_dir a \<noteq> ''--''" and "out_dir a \<noteq> ''--''" and "vep_script a \<noteq> ''--''"
  shows "map_sum id args_of (parse_args annotate_parser (annotate_argv a)) = Inr a \<and>
   map_sum id args_of (parse_args categorize_parser (categorize_argv a)) = Inr (a\<lparr>vep_script := []\<rparr>)"
  using parse_annotate_argv[OF assms] parse_categorize_argv[OF assms(1,2)] by blast

text \<open>
  C14 (type): whatever the command line, a namespace \<^verbatim>\<open>parse_args\<close> returns holds,
  for every option of the parser, a value of the option's \<^verbatim>\<open>type\<close>: a
  \<^verbatim>\<open>str\<close> for the paths and the VEP script, an \<^verbatim>\<open>int\<close> for the process
  count and the indices; never the \<^verbatim>\<open>None\<close> a required option starts with.
\<close>

theorem parse_args_typed:
  "(parse_args annotate_parser argv = Inr ns \<longrightarrow> ns_typed annotate_parser ns) \<and>
   (parse_args categorize_parser argv = Inr ns \<longrightarrow> ns_typed categorize_parser ns)"
  using parse_args_typed_wf annotate_parser_wf categorize_parser_wf by blast

text \<open>
  C33 (functional): a negative index written as its own string after
  \<^verbatim>\<open>--start_idx\<close> or \<^verbatim>\<open>--end_idx\<close> is accepted as the option's value (it looks
  like a negative number, not an option), so the run slices with it; nothing rejects a
  negative index.
\<close>

theorem parse_args_negative_index:
  assumes "d \<noteq> ''--''" and "od \<noteq> ''--''"
  shows "map_sum id args_of (parse_args annotate_parser
     [''--in_dir='' @ d, ''--out_dir='' @ od, ''--start_idx'', string_of_int i, ''--end_idx'', string_of_int j]) =
   Inr \<lparr>in_dir = d, out_dir = od, num_proc = 1, vep_script = ''vep'', start_idx = i, end_idx = j\<rparr>"
proof -
  have e: "[''--in_dir='' @ d, ''--out_dir='' @ od] = map (\<lambda>(os, x). os @ CHR ''='' # x) [(''--in_dir'', d), (''--out_dir'', od)]"
    by simp
  have "classify annotate_parser [''--in_dir='' @ d, ''--out_dir='' @ od] =
      Inr (map (\<lambda>(os, x). TO (lookup_opt annotate_parser os, os, Some x) (os @ CHR ''='' # x)) [(''--in_dir'', d), (''--out_dir'', od)])"
    unfolding e by (rule classify_explicit[OF annotate_parser_no_eq]) (simp add: parser_defs)
  then have c: "classify annotate_parser
     [''--in_dir='' @ d, ''--out_dir='' @ od, ''--start_idx'', string_of_int i, ''--end_idx'', string_of_int j] =
     Inr [TO (lookup_opt annotate_parser ''--in_dir'', ''--in_dir'', Some d) (''--in_dir='' @ d),
          TO (lookup_opt annotate_parser ''--out_dir'', ''--out_dir'', Some od) (''--out_dir='' @ od),
          TO (lookup_opt annotate_parser ''--start_idx'', ''--start_idx'', None) ''--start_idx'', TA (string_of_int i),
          TO (lookup_opt annotate_parser ''--end_idx'', ''--end_idx'', None) ''--end_idx'', TA (string_of_int j)]"
  proof -
    have p1: "parse_optional annotate_parser (''--in_dir='' @ d) =
        Inr (Some (lookup_opt annotate_parser ''--in_dir'', ''--in_dir'', Some d))"
      using parse_optional_explicit[OF annotate_parser_no_eq, of "''--in_dir''" _ d] by (simp add: parser_defs)
    have p2: "parse_optional annotate_parser (''--out_dir='' @ od) =
        Inr (Some (lookup_opt annotate_parser ''--out_dir'', ''--out_dir'', Some od))"
      using parse_optional_explicit[OF annotate_parser_no_eq, of "''--out_dir''" _ od] by (simp add: parser_defs)
    have p3: "parse_optional annotate_parser ''--start_idx'' =
        Inr (Some (lookup_opt annotate_parser ''--start_idx'', ''--start_idx'', None))"
      and p4: "parse_optional annotate_parser ''--end_idx'' =
        Inr (Some (lookup_opt annotate_parser ''--end_idx'', ''--end_idx'', None))"
      by (simp_all add: parse_optional_def parser_defs)
    have n: "''--in_dir='' @ d \<noteq> ''--''" "''--out_dir='' @ od \<noteq> ''--''" "''--start_idx'' \<noteq> ''--''"
      "''--end_idx'' \<noteq> ''--''" by simp_all
    show ?thesis
      unfolding classify_Cons[OF n(1) p1] classify_Cons[OF n(2) p2] classify_Cons[OF n(3) p3]
        classify_Cons[OF n(4) p4] classify_string_of_int[OF annotate_parser_no_digit]
      by simp
  qed
  show ?thesis unfolding parse_args_def c
    using assms[THEN not_sym] string_of_int_not_dd[THEN not_sym] by (simp add: parse_eval)
qed

text \<open>
  C39 (functional): an option written with the explicit value \<^verbatim>\<open>--\<close>
  (\<^verbatim>\<open>-o--\<close>, \<^verbatim>\<open>--out_dir=--\<close>, \<^verbatim>\<open>-p--\<close>) is accepted, and
  \<^verbatim>\<open>_get_values\<close> removes the \<^verbatim>\<open>--\<close>: the option's attribute is the empty list,
  not a string and not converted by \<^verbatim>\<open>type=int\<close>.
\<close>

theorem parse_args_double_dash:
  assumes "d \<noteq> ''--''"
  shows "\<exists>ns. parse_args annotate_parser [''--in_dir='' @ d, ''-o--'', ''-p--''] = Inr ns \<and>
    ns ''in_dir'' = Some (PStr d) \<and> ns ''out_dir'' = Some (PList []) \<and> ns ''num_proc'' = Some (PList [])"
proof -
  have p1: "parse_optional annotate_parser (''--in_dir='' @ d) =
      Inr (Some (lookup_opt annotate_parser ''--in_dir'', ''--in_dir'', Some d))"
    using parse_optional_explicit[OF annotate_parser_no_eq, of "''--in_dir''" _ d] by (simp add: parser_defs)
  have n: "''--in_dir='' @ d \<noteq> ''--''" by simp
  have c: "classify annotate_parser [''--in_dir='' @ d, ''-o--'', ''-p--''] =
      Inr [TO (lookup_opt annotate_parser ''--in_dir'', ''--in_dir'', Some d) (''--in_dir='' @ d),
           TO (lookup_opt annotate_parser ''-o'', ''-o'', Some ''--'') ''-o--'',
           TO (lookup_opt annotate_parser ''-p'', ''-p'', Some ''--'') ''-p--'']"
    unfolding classify_Cons[OF n p1]
    by (simp add: parse_optional_def option_tuples_def before_eq_def after_eq_def py_startswith_def
        negative_number_def parser_defs)
  show ?thesis unfolding parse_args_def c using assms[THEN not_sym] by (simp add: parse_eval)
qed

subsection \<open>Witnesses\<close>

theorem parse_args_typed_witness:
  "\<exists>ns. parse_args annotate_parser [''-i'', ''in'', ''-o'', ''out'', ''-p'', ''4''] = Inr ns \<and>
     ns_typed annotate_parser ns \<and> args_of ns = \<lparr>in_dir = ''in'', out_dir = ''out'', num_proc = 4,
     vep_script = ''vep'', start_idx = 0, end_idx = 10000\<rparr>"
proof -
  obtain ns where p: "parse_args annotate_parser [''-i'', ''in'', ''-o'', ''out'', ''-p'', ''4''] = Inr ns"
    and a: "args_of ns = \<lparr>in_dir = ''in'', out_dir = ''out'', num_proc = 4,
     vep_script = ''vep'', start_idx = 0, end_idx = 10000\<rparr>"
    by (simp add: parse_eval parse_optional_def option_tuples_def py_int_def py_strip_def py_isspace_def
        py_digits_def is_digit_def digit_val_def)
  have "ns_typed annotate_parser ns" using parse_args_typed p by blast
  then show ?thesis using p a by blast
qed

theorem parse_args_roundtrip_witness:
  "''in'' \<noteq> ''--'' \<and> ''out'' \<noteq> ''--'' \<and> ''vep'' \<noteq> ''--'' \<and>
   map_sum id args_of (parse_args annotate_parser (annotate_argv
     \<lparr>in_dir = ''in'', out_dir = ''out'', num_proc = 4, vep_script = ''vep'', start_idx = -1, end_idx = 10\<rparr>)) =
   Inr \<lparr>in_dir = ''in'', out_dir = ''out'', num_proc = 4, vep_script = ''vep'', start_idx = -1, end_idx = 10\<rparr>"
  using parse_args_roundtrip[of "\<lparr>in_dir = ''in'', out_dir = ''out'', num_proc = 4, vep_script = ''vep'',
    start_idx = -1, end_idx = 10\<rparr>"] by simp

theorem parse_args_negative_index_witness:
  "''in'' \<noteq> ''--'' \<and> ''out'' \<noteq> ''--'' \<and>
   map_sum id args_of (parse_args annotate_parser
     [''--in_dir='' @ ''in'', ''--out_dir='' @ ''out'', ''--start_idx'', string_of_int (-3), ''--end_idx'', string_of_int (-1)]) =
   Inr \<lparr>in_dir = ''in'', out_dir = ''out'', num_proc = 1, vep_script = ''vep'', start_idx = -3, end_idx = -1\<rparr>"
  using parse_args_negative_index[of "''in''" "''out''" "-3" "-1"] by simp

theorem parse_args_double_dash_witness:
  "''in'' \<noteq> ''--'' \<and>
   (\<exists>ns. parse_args annotate_parser [''--in_dir='' @ ''in'', ''-o--'', ''-p--''] = Inr ns \<and>
    ns ''in_dir'' = Some (PStr ''in'') \<and> ns ''out_dir'' = Some (PList []) \<and> ns ''num_proc'' = Some (PList []))"
  using parse_args_double_dash[of "''in''"] by simp

end
