(* ===== verification/Dispatcher.thy ===== *)
theory Dispatcher
  imports Prelude
begin

text \<open>
  The dispatcher: \<^verbatim>\<open>execute_cmd\<close> (\<^verbatim>\<open>annotate_mp.py\<close> lines 62--65; the
  categorize script imports the same function from \<^verbatim>\<open>utils\<close>) and the execution
  branch of \<^verbatim>\<open>main\<close> (\<^verbatim>\<open>annotate_mp.py\<close> lines 51--59, \<^verbatim>\<open>categorize_mp.py\<close>
  lines 50--58): with \<^verbatim>\<open>num_proc == 1\<close> a loop on the caller's process, otherwise
  \<^verbatim>\<open>Pool(num_proc).map(execute_cmd, cmds)\<close> followed by \<^verbatim>\<open>close\<close> and \<^verbatim>\<open>join\<close>.

  The process state \<open>proc\<close> is the clock \<^verbatim>\<open>get_curr_time\<close> reads, the lines printed
  to standard output, and the command lines handed to \<^verbatim>\<open>os.system\<close>, in the order
  they were started. \<^verbatim>\<open>os.system\<close> blocks for as long as the command runs; the
  environment gives each command its duration. Its exit status is discarded by the
  code, so the model has none.

  \<^verbatim>\<open>Pool.map\<close> cuts the list into chunks of \<^verbatim>\<open>chunksize\<close> elements
  (\<^verbatim>\<open>divmod(len, 4 * processes)\<close>, rounded up), puts them on a FIFO task queue, and
  each worker process repeatedly takes the next chunk and runs \<^verbatim>\<open>execute_cmd\<close> on
  its elements in order. Which worker moves next is up to the operating system, so
  the pool is an \<^theory_text>\<open>inductive\<close> step relation with one rule per kind of step of
  one worker (take a chunk, start a command, finish it); time may pass before each
  printed line.
\<close>

datatype line = CmdLine nat cmd | DoneLine nat cmd | AllDoneLine nat

text \<open>The printed text of a line, given how \<^verbatim>\<open>get_curr_time\<close> formats a time.\<close>

fun render_line :: "(nat \<Rightarrow> string) \<Rightarrow> line \<Rightarrow> string" where
  "render_line fmt (CmdLine t c) = ''['' @ fmt t @ '', CMD] '' @ c"
| "render_line fmt (DoneLine t c) = ''['' @ fmt t @ '', Progress] '' @ c @ '' is done.''"
| "render_line fmt (AllDoneLine t) = ''['' @ fmt t @ '', Progress] Done''"

record proc =
  clock :: nat
  stdout :: "line list"
  spawned :: "cmd list"

subsection \<open>\<^verbatim>\<open>execute_cmd\<close> and the sequential branch\<close>

definition execute_cmd :: "(cmd \<Rightarrow> nat) \<Rightarrow> cmd \<Rightarrow> proc \<Rightarrow> proc" where
  "execute_cmd dur c s =
     (let s1 = s\<lparr>stdout := stdout s @ [CmdLine (clock s) c]\<rparr>;
          s2 = s1\<lparr>spawned := spawned s1 @ [c], clock := clock s1 + dur c\<rparr>
      in s2\<lparr>stdout := stdout s2 @ [DoneLine (clock s2) c]\<rparr>)"

primrec run_seq :: "(cmd \<Rightarrow> nat) \<Rightarrow> cmd list \<Rightarrow> proc \<Rightarrow> proc" where
  "run_seq dur [] s = s"
| "run_seq dur (c # cs) s = run_seq dur cs (execute_cmd dur c s)"

subsection \<open>The pool\<close>

text \<open>\<^verbatim>\<open>Pool._map_async\<close>: the chunk size, and \<^verbatim>\<open>Pool._get_tasks\<close>: the chunks.\<close>

definition pool_chunksize :: "nat \<Rightarrow> nat \<Rightarrow> nat" where
  "pool_chunksize n procs =
     (if n = 0 then 0
      else n div (procs * 4) + (if n mod (procs * 4) \<noteq> 0 then 1 else 0))"

function py_chunks :: "nat \<Rightarrow> 'a list \<Rightarrow> 'a list list" where
  "py_chunks k xs = (if k = 0 \<or> xs = [] then [] else take k xs # py_chunks k (drop k xs))"
  by pat_completeness auto
termination
  by (relation "measure (\<lambda>(k, xs). length xs)") auto

declare py_chunks.simps [simp del]

text \<open>
  A worker is idle (\<open>(None, [])\<close>), or holds the rest of its current chunk and
  possibly the command it is running.
\<close>

type_synonym worker = "cmd option \<times> cmd list"

record pool = proc +
  tasks :: "cmd list list"
  workers :: "worker list"

definition pool_init :: "nat \<Rightarrow> cmd list \<Rightarrow> nat \<Rightarrow> pool" where
  "pool_init procs cmds t0 =
     \<lparr>clock = t0, stdout = [], spawned = [],
      tasks = py_chunks (pool_chunksize (length cmds) procs) cmds,
      workers = replicate procs (None, [])\<rparr>"

inductive pool_step :: "pool \<Rightarrow> pool \<Rightarrow> bool" where
  fetch: "\<lbrakk>i < length (workers s); workers s ! i = (None, []); tasks s = ch # rest\<rbrakk> \<Longrightarrow>
    pool_step s (s\<lparr>tasks := rest, workers := (workers s)[i := (None, ch)]\<rparr>)"
| start: "\<lbrakk>i < length (workers s); workers s ! i = (None, c # cs)\<rbrakk> \<Longrightarrow>
    pool_step s (s\<lparr>clock := clock s + d, stdout := stdout s @ [CmdLine (clock s + d) c],
      spawned := spawned s @ [c], workers := (workers s)[i := (Some c, cs)]\<rparr>)"
| finish: "\<lbrakk>i < length (workers s); workers s ! i = (Some c, cs)\<rbrakk> \<Longrightarrow>
    pool_step s (s\<lparr>clock := clock s + d, stdout := stdout s @ [DoneLine (clock s + d) c],
      workers := (workers s)[i := (None, cs)]\<rparr>)"

text \<open>\<^verbatim>\<open>map\<close> returns, and \<^verbatim>\<open>close\<close> and \<^verbatim>\<open>join\<close> end, once no task is left and every worker is idle.\<close>

definition pool_final :: "pool \<Rightarrow> bool" where
  "pool_final s \<longleftrightarrow> tasks s = [] \<and> list_all (\<lambda>w. w = (None, [])) (workers s)"

subsection \<open>Observations\<close>

fun started_of :: "line \<Rightarrow> cmd list" where
  "started_of (CmdLine t c) = [c]"
| "started_of _ = []"

fun done_of :: "line \<Rightarrow> cmd list" where
  "done_of (DoneLine t c) = [c]"
| "done_of _ = []"

definition starts :: "line list \<Rightarrow> cmd list" where
  "starts ls = concat (map started_of ls)"

definition dones :: "line list \<Rightarrow> cmd list" where
  "dones ls = concat (map done_of ls)"

fun worker_running :: "worker \<Rightarrow> cmd list" where
  "worker_running (r, cs) = (case r of None \<Rightarrow> [] | Some c \<Rightarrow> [c])"

definition pending :: "pool \<Rightarrow> cmd list" where
  "pending s = concat (tasks s) @ concat (map snd (workers s))"

definition running :: "pool \<Rightarrow> cmd list" where
  "running s = concat (map worker_running (workers s))"

text \<open>The lines without their time stamps: what a job's lifecycle looks like.\<close>

datatype event = Started cmd | Finished cmd | AllDone

fun event_of :: "line \<Rightarrow> event" where
  "event_of (CmdLine t c) = Started c"
| "event_of (DoneLine t c) = Finished c"
| "event_of (AllDoneLine t) = AllDone"

definition seq_events :: "cmd list \<Rightarrow> event list" where
  "seq_events cmds = concat (map (\<lambda>c. [Started c, Finished c]) cmds)"

definition pool_inv :: "cmd list \<Rightarrow> pool \<Rightarrow> bool" where
  "pool_inv cmds s \<longleftrightarrow>
     mset (pending s) + mset (running s) + mset (dones (stdout s)) = mset cmds \<and>
     mset (starts (stdout s)) = mset (running s) + mset (dones (stdout s)) \<and>
     spawned s = starts (stdout s)"

definition pool_measure :: "pool \<Rightarrow> nat" where
  "pool_measure s = 3 * length (concat (tasks s)) + length (tasks s)
     + 2 * length (concat (map snd (workers s))) + length (running s)"

text \<open>
  The execution branch of \<^verbatim>\<open>main\<close>: \<^verbatim>\<open>num_proc == 1\<close> runs the loop;
  otherwise \<^verbatim>\<open>mp.Pool(num_proc)\<close> raises \<^verbatim>\<open>ValueError\<close> for a count below 1, and
  else \<^verbatim>\<open>map\<close> runs the pool until it returns (any schedule), after which the
  pool's output follows what the script printed before.
\<close>

definition pool_error :: py_error where
  "pool_error = ValueError ''Number of processes must be at least 1''"

inductive dispatch :: "(cmd \<Rightarrow> nat) \<Rightarrow> int \<Rightarrow> cmd list \<Rightarrow> proc \<Rightarrow> py_error + proc \<Rightarrow> bool" where
  sequential: "p = 1 \<Longrightarrow> dispatch dur p cmds s (Inr (run_seq dur cmds s))"
| pool_refused: "p < 1 \<Longrightarrow> dispatch dur p cmds s (Inl pool_error)"
| pooled: "\<lbrakk>1 < p; pool_step\<^sup>*\<^sup>* (pool_init (nat p) cmds (clock s)) t; pool_final t\<rbrakk> \<Longrightarrow>
    dispatch dur p cmds s (Inr (s\<lparr>clock := clock t, stdout := stdout s @ stdout t,
      spawned := spawned s @ spawned t\<rparr>))"

text \<open>
  The events a single worker still has to produce: the end of its running command,
  its chunk's rest, then the queued chunks.
\<close>

definition todo_events :: "pool \<Rightarrow> event list" where
  "todo_events s =
     concat (map (\<lambda>(r, cs). (case r of None \<Rightarrow> [] | Some c \<Rightarrow> [Finished c]) @ seq_events cs) (workers s))
     @ seq_events (concat (tasks s))"

text \<open>The invariant of a pool with a single worker: printed events and pending events make up the sequential run.\<close>

definition single_inv :: "cmd list \<Rightarrow> pool \<Rightarrow> bool" where
  "single_inv cmds s \<longleftrightarrow> length (workers s) = 1 \<and> map event_of (stdout s) @ todo_events s = seq_events cmds"

text \<open>
  A log in which, at every point, each command has printed its CMD line at least as
  often as its done line: no job is reported done before it is reported started.
\<close>

definition log_wellbracketed :: "line list \<Rightarrow> bool" where
  "log_wellbracketed ls \<longleftrightarrow>
     list_all (\<lambda>k. mset (dones (take k ls)) \<subseteq># mset (starts (take k ls))) [0..<Suc (length ls)]"

text \<open>
  One deterministic schedule of the pool, for evaluation: the first worker that can
  move does, with no time passing.
\<close>

definition worker_move :: "pool \<Rightarrow> nat \<Rightarrow> pool option" where
  "worker_move s i =
     (case workers s ! i of
        (Some c, cs) \<Rightarrow> Some (s\<lparr>clock := clock s + 0, stdout := stdout s @ [DoneLine (clock s + 0) c],
                          workers := (workers s)[i := (None, cs)]\<rparr>)
      | (None, c # cs) \<Rightarrow> Some (s\<lparr>clock := clock s + 0, stdout := stdout s @ [CmdLine (clock s + 0) c],
                          spawned := spawned s @ [c], workers := (workers s)[i := (Some c, cs)]\<rparr>)
      | (None, []) \<Rightarrow> (case tasks s of [] \<Rightarrow> None
                      | ch # rest \<Rightarrow> Some (s\<lparr>tasks := rest, workers := (workers s)[i := (None, ch)]\<rparr>)))"

definition sched_step :: "pool \<Rightarrow> pool option" where
  "sched_step s =
     (case filter (\<lambda>i. worker_move s i \<noteq> None) [0..<length (workers s)] of
        [] \<Rightarrow> None | i # _ \<Rightarrow> worker_move s i)"

fun run_sched :: "nat \<Rightarrow> pool \<Rightarrow> pool option" where
  "run_sched 0 s = None"
| "run_sched (Suc n) s = (case sched_step s of None \<Rightarrow> Some s | Some t \<Rightarrow> run_sched n t)"

text \<open>A complete run of \<^verbatim>\<open>Pool(2).map\<close> over three commands, used by the witnesses.\<close>

definition example_cmds :: "cmd list" where
  "example_cmds = [''a.sh'', ''b.sh'', ''c.sh'']"

definition example_pool_run :: pool where
  "example_pool_run =
     \<lparr>clock = 0,
      stdout = [CmdLine 0 ''a.sh'', DoneLine 0 ''a.sh'', CmdLine 0 ''b.sh'', DoneLine 0 ''b.sh'',
                CmdLine 0 ''c.sh'', DoneLine 0 ''c.sh''],
      spawned = [''a.sh'', ''b.sh'', ''c.sh''], tasks = [], workers = [(None, []), (None, [])]\<rparr>"

subsection \<open>Helper lemmas\<close>

lemma concat_py_chunks: "0 < k \<or> xs = [] \<Longrightarrow> concat (py_chunks k xs) = xs"
proof (induction k xs rule: py_chunks.induct)
  case (1 k xs)
  then show ?case by (subst py_chunks.simps) auto
qed

lemma pool_chunksize_pos: "0 < n \<Longrightarrow> 0 < pool_chunksize n procs"
  by (auto simp: pool_chunksize_def)

lemma concat_pool_chunks: "concat (py_chunks (pool_chunksize (length cmds) procs) cmds) = cmds"
  by (rule concat_py_chunks) (auto simp: pool_chunksize_pos)

lemma py_chunks_length_le:
  "0 < k \<Longrightarrow> length xs \<le> m * k \<Longrightarrow> length (py_chunks k xs) \<le> m"
proof (induction k xs arbitrary: m rule: py_chunks.induct)
  case (1 k xs)
  show ?case
  proof (cases "xs = []")
    case True
    then show ?thesis by (subst py_chunks.simps) simp
  next
    case False
    have "m \<noteq> 0"
    proof
      assume "m = 0"
      then show False using 1(3) False by simp
    qed
    then obtain m' where m: "m = Suc m'" by (cases m) auto
    have "length xs - k \<le> m' * k" using 1(3) m by simp
    then have "length (drop k xs) \<le> m' * k" by simp
    then have "length (py_chunks k (drop k xs)) \<le> m'" using 1(1) False 1(2) by blast
    moreover have "py_chunks k xs = take k xs # py_chunks k (drop k xs)"
      using False 1(2) by (subst py_chunks.simps) simp
    ultimately show ?thesis using m by simp
  qed
qed

lemma py_chunks_bounded: "0 < k \<Longrightarrow> ch \<in> set (py_chunks k xs) \<Longrightarrow> ch \<noteq> [] \<and> length ch \<le> k"
proof (induction k xs rule: py_chunks.induct)
  case (1 k xs)
  then show ?case by (subst (asm) py_chunks.simps) (auto split: if_splits)
qed

lemma pool_chunksize_covers:
  assumes "0 < procs"
  shows "n \<le> procs * 4 * pool_chunksize n procs"
proof -
  let ?m = "procs * 4"
  have dm: "n div ?m * ?m + n mod ?m = n" by (rule div_mult_mod_eq)
  show ?thesis
  proof (cases "n mod ?m = 0")
    case True
    then have "pool_chunksize n procs = n div ?m" by (simp add: pool_chunksize_def)
    then show ?thesis using dm True by (simp add: mult.commute)
  next
    case False
    have "n \<noteq> 0"
    proof
      assume "n = 0"
      then show False using False by simp
    qed
    then have c: "pool_chunksize n procs = n div ?m + 1" using False by (simp add: pool_chunksize_def)
    have "n mod ?m < ?m" using assms by simp
    then have "n < n div ?m * ?m + ?m" using dm by linarith
    also have "\<dots> = ?m * (n div ?m + 1)" by (simp add: algebra_simps)
    finally show ?thesis using c by simp
  qed
qed

lemma pool_tasks_count:
  assumes "0 < procs"
  shows "length (py_chunks (pool_chunksize (length cmds) procs) cmds) \<le> 4 * procs"
proof (cases "cmds = []")
  case True
  then show ?thesis by (simp add: py_chunks.simps)
next
  case False
  then have k: "0 < pool_chunksize (length cmds) procs" by (simp add: pool_chunksize_pos)
  have "length cmds \<le> (4 * procs) * pool_chunksize (length cmds) procs"
    using pool_chunksize_covers[OF assms, of "length cmds"] by (simp add: mult.commute)
  then show ?thesis by (rule py_chunks_length_le[OF k])
qed

lemma mset_concat_map_update:
  "i < length xs \<Longrightarrow>
   mset (concat (map f (xs[i := v]))) + mset (f (xs ! i)) = mset (concat (map f xs)) + mset (f v)"
proof (induction xs arbitrary: i)
  case Nil
  then show ?case by simp
next
  case (Cons x xs)
  then show ?case by (cases i) (auto simp: add_ac)
qed

lemma length_concat_map_update:
  "i < length xs \<Longrightarrow>
   length (concat (map f (xs[i := v]))) + length (f (xs ! i)) = length (concat (map f xs)) + length (f v)"
  using arg_cong[OF mset_concat_map_update[of i xs f v], of size] by simp

lemma starts_append [simp]: "starts (xs @ ys) = starts xs @ starts ys"
  and dones_append [simp]: "dones (xs @ ys) = dones xs @ dones ys"
  and starts_Nil [simp]: "starts [] = []" and dones_Nil [simp]: "dones [] = []"
  and starts_single [simp]: "starts [l] = started_of l" and dones_single [simp]: "dones [l] = done_of l"
  by (simp_all add: starts_def dones_def)

lemma mset_move_one:
  fixes P P' R R' D C :: "'a multiset"
  shows "P = P' + {#c#} \<Longrightarrow> R' = R + {#c#} \<Longrightarrow> P + R + D = C \<Longrightarrow> P' + R' + D = C"
    and "R = R' + {#c#} \<Longrightarrow> D' = D + {#c#} \<Longrightarrow> P + R + D = C \<Longrightarrow> P + R' + D' = C"
  by (simp_all add: add_ac)

lemma pool_step_workers_length: "pool_step s t \<Longrightarrow> length (workers t) = length (workers s)"
  by (induction rule: pool_step.induct) simp_all

lemma pool_inv_init: "pool_inv cmds (pool_init procs cmds t0)"
  by (simp add: pool_inv_def pool_init_def pending_def running_def concat_pool_chunks)

lemma pool_step_inv:
  assumes "pool_step s t" and "pool_inv cmds s"
  shows "pool_inv cmds t"
  using assms
proof (induction rule: pool_step.induct)
  case (fetch i s ch rest)
  have r: "mset (concat (map snd ((workers s)[i := (None, ch)]))) = mset (concat (map snd (workers s))) + mset ch"
    using mset_concat_map_update[OF fetch.hyps(1), of snd "(None, ch)"] fetch.hyps(2) by simp
  have q: "mset (concat (map worker_running ((workers s)[i := (None, ch)]))) = mset (running s)"
    using mset_concat_map_update[OF fetch.hyps(1), of worker_running "(None, ch)"] fetch.hyps(2)
    by (simp add: running_def)
  show ?case using fetch.prems fetch.hyps(3) r q by (simp add: pool_inv_def pending_def running_def add_ac)
next
  case (start i s c cs d)
  let ?t = "s\<lparr>clock := clock s + d, stdout := stdout s @ [CmdLine (clock s + d) c],
      spawned := spawned s @ [c], workers := (workers s)[i := (Some c, cs)]\<rparr>"
  have p: "mset (pending s) = mset (pending ?t) + {#c#}"
    using mset_concat_map_update[OF start.hyps(1), of snd "(Some c, cs)"] start.hyps(2)
    by (simp add: pending_def)
  have r: "mset (running ?t) = mset (running s) + {#c#}"
    using mset_concat_map_update[OF start.hyps(1), of worker_running "(Some c, cs)"] start.hyps(2)
    by (simp add: running_def)
  have d: "dones (stdout ?t) = dones (stdout s)" and st: "starts (stdout ?t) = starts (stdout s) @ [c]"
    by simp_all
  show ?case using start.prems p r d st mset_move_one(1)[OF p r] unfolding pool_inv_def by auto
next
  case (finish i s c cs d)
  let ?t = "s\<lparr>clock := clock s + d, stdout := stdout s @ [DoneLine (clock s + d) c],
      workers := (workers s)[i := (None, cs)]\<rparr>"
  have p: "mset (pending ?t) = mset (pending s)"
    using mset_concat_map_update[OF finish.hyps(1), of snd "(None, cs)"] finish.hyps(2)
    by (simp add: pending_def)
  have r: "mset (running s) = mset (running ?t) + {#c#}"
    using mset_concat_map_update[OF finish.hyps(1), of worker_running "(None, cs)"] finish.hyps(2)
    by (simp add: running_def)
  have d: "dones (stdout ?t) = dones (stdout s) @ [c]" and st: "starts (stdout ?t) = starts (stdout s)"
    by simp_all
  have d': "mset (dones (stdout ?t)) = mset (dones (stdout s)) + {#c#}" using d by simp
  show ?case using finish.prems p r st mset_move_one(2)[OF r d'] unfolding pool_inv_def
    by (auto simp: add_ac)
qed

lemma pool_step_measure:
  assumes "pool_step s t"
  shows "pool_measure t < pool_measure s"
  using assms
proof (induction rule: pool_step.induct)
  case (fetch i s ch rest)
  have "length (concat (map snd ((workers s)[i := (None, ch)]))) = length (concat (map snd (workers s))) + length ch"
    using length_concat_map_update[OF fetch.hyps(1), of snd "(None, ch)"] fetch.hyps(2) by simp
  moreover have "length (running (s\<lparr>tasks := rest, workers := (workers s)[i := (None, ch)]\<rparr>)) = length (running s)"
    using length_concat_map_update[OF fetch.hyps(1), of worker_running "(None, ch)"] fetch.hyps(2)
    by (simp add: running_def)
  ultimately show ?case using fetch.hyps(3) by (simp add: pool_measure_def)
next
  case (start i s c cs d)
  have "length (concat (map snd ((workers s)[i := (Some c, cs)]))) + 1 = length (concat (map snd (workers s)))"
    using length_concat_map_update[OF start.hyps(1), of snd "(Some c, cs)"] start.hyps(2) by simp
  moreover have "length (concat (map worker_running ((workers s)[i := (Some c, cs)]))) = length (running s) + 1"
    using length_concat_map_update[OF start.hyps(1), of worker_running "(Some c, cs)"] start.hyps(2)
    by (simp add: running_def)
  ultimately show ?case by (simp add: pool_measure_def running_def)
next
  case (finish i s c cs d)
  have "length (concat (map snd ((workers s)[i := (None, cs)]))) = length (concat (map snd (workers s)))"
    using length_concat_map_update[OF finish.hyps(1), of snd "(None, cs)"] finish.hyps(2) by simp
  moreover have "length (concat (map worker_running ((workers s)[i := (None, cs)]))) + 1 = length (running s)"
    using length_concat_map_update[OF finish.hyps(1), of worker_running "(None, cs)"] finish.hyps(2)
    by (simp add: running_def)
  ultimately show ?case by (simp add: pool_measure_def running_def)
qed

lemma pool_progress:
  assumes "workers s \<noteq> []" and "\<not> pool_final s"
  shows "\<exists>t. pool_step s t"
proof (cases "\<exists>i < length (workers s). fst (workers s ! i) \<noteq> None")
  case True
  then obtain i c cs where "i < length (workers s)" "workers s ! i = (Some c, cs)"
    by (metis not_None_eq prod.collapse)
  then show ?thesis by (blast intro: pool_step.finish)
next
  case norun: False
  show ?thesis
  proof (cases "\<exists>i < length (workers s). snd (workers s ! i) \<noteq> []")
    case True
    then obtain i c cs where "i < length (workers s)" "workers s ! i = (None, c # cs)"
      using norun by (metis list.exhaust prod.collapse)
    then show ?thesis by (blast intro: pool_step.start)
  next
    case False
    with norun have idle: "list_all (\<lambda>w. w = (None, [])) (workers s)"
      by (auto simp: list_all_iff in_set_conv_nth prod_eq_iff)
    with assms(2) obtain ch rest where "tasks s = ch # rest"
      by (cases "tasks s") (auto simp: pool_final_def)
    moreover have "workers s ! 0 = (None, [])" using idle assms(1) by (auto simp: list_all_iff)
    ultimately show ?thesis using assms(1) by (blast intro: pool_step.fetch)
  qed
qed

lemma wf_pool_step: "wf {(t, s). pool_step s t}"
  by (rule wf_subset[OF wf_measure[of pool_measure]]) (auto dest: pool_step_measure)

lemma pool_steps_inv: "pool_step\<^sup>*\<^sup>* s t \<Longrightarrow> pool_inv cmds s \<Longrightarrow> pool_inv cmds t"
  by (induction rule: rtranclp_induct) (auto intro: pool_step_inv)

lemma pool_steps_workers_length: "pool_step\<^sup>*\<^sup>* s t \<Longrightarrow> length (workers t) = length (workers s)"
  by (induction rule: rtranclp_induct) (auto dest: pool_step_workers_length)

lemma pool_reaches_final:
  assumes "workers s \<noteq> []"
  shows "\<exists>t. pool_step\<^sup>*\<^sup>* s t \<and> pool_final t"
  using assms
proof (induction "pool_measure s" arbitrary: s rule: less_induct)
  case less
  show ?case
  proof (cases "pool_final s")
    case True
    then show ?thesis by blast
  next
    case False
    then obtain t where st: "pool_step s t" using pool_progress[OF less.prems] by blast
    then have "workers t \<noteq> []" using less.prems pool_step_workers_length[OF st] by auto
    then obtain u where "pool_step\<^sup>*\<^sup>* t u" "pool_final u"
      using less.hyps[OF pool_step_measure[OF st]] by blast
    then show ?thesis using st by (meson converse_rtranclp_into_rtranclp)
  qed
qed

lemma pool_final_exactly_once:
  assumes "pool_inv cmds s" and "pool_final s"
  shows "mset (dones (stdout s)) = mset cmds \<and> mset (starts (stdout s)) = mset cmds
    \<and> mset (spawned s) = mset cmds"
proof -
  have "pending s = []" and "running s = []"
    using assms(2) by (auto simp: pool_final_def pending_def running_def list_all_iff)
  then show ?thesis using assms(1) by (simp add: pool_inv_def)
qed

lemma seq_events_append [simp]: "seq_events (xs @ ys) = seq_events xs @ seq_events ys"
  and seq_events_Cons [simp]: "seq_events (c # cs) = Started c # Finished c # seq_events cs"
  and seq_events_Nil [simp]: "seq_events [] = []"
  by (simp_all add: seq_events_def)

lemma run_seq_effects:
  "map event_of (stdout (run_seq dur cmds s)) = map event_of (stdout s) @ seq_events cmds \<and>
   spawned (run_seq dur cmds s) = spawned s @ cmds"
  by (induction cmds arbitrary: s) (simp_all add: execute_cmd_def)

lemma single_inv_init: "single_inv cmds (pool_init 1 cmds t0)"
  by (simp add: single_inv_def pool_init_def todo_events_def concat_pool_chunks)

lemma single_step_inv:
  assumes "pool_step s t" and "single_inv cmds s"
  shows "single_inv cmds t"
  using assms
proof (induction rule: pool_step.induct)
  case (fetch i s ch rest)
  then have "workers s = [(None, [])]" and "i = 0"
    by (auto simp: single_inv_def length_Suc_conv)
  then show ?case using fetch by (simp add: single_inv_def todo_events_def)
next
  case (start i s c cs d)
  then have "workers s = [(None, c # cs)]" and "i = 0"
    by (auto simp: single_inv_def length_Suc_conv)
  then show ?case using start by (simp add: single_inv_def todo_events_def)
next
  case (finish i s c cs d)
  then have "workers s = [(Some c, cs)]" and "i = 0"
    by (auto simp: single_inv_def length_Suc_conv)
  then show ?case using finish by (simp add: single_inv_def todo_events_def)
qed

lemma single_steps_inv: "pool_step\<^sup>*\<^sup>* s t \<Longrightarrow> single_inv cmds s \<Longrightarrow> single_inv cmds t"
  by (induction rule: rtranclp_induct) (auto intro: single_step_inv)

lemma pool_step_stdout: "pool_step s t \<Longrightarrow> \<exists>l. stdout t = stdout s @ l"
  by (induction rule: pool_step.induct) auto

lemma log_wellbracketed_snoc:
  assumes "log_wellbracketed ls" and "mset (dones (ls @ l)) \<subseteq># mset (starts (ls @ l))"
    and "length l \<le> 1"
  shows "log_wellbracketed (ls @ l)"
proof -
  have H: "mset (dones (take k (ls @ l))) \<subseteq># mset (starts (take k (ls @ l)))"
    if k: "k < Suc (length (ls @ l))" for k
  proof (cases "k \<le> length ls")
    case True
    then show ?thesis using assms(1) by (auto simp: log_wellbracketed_def list_all_iff)
  next
    case False
    then have "take k (ls @ l) = ls @ l" using k assms(3) by simp
    then show ?thesis using assms(2) by simp
  qed
  show ?thesis unfolding log_wellbracketed_def list_all_iff
    by (metis H atLeastLessThan_iff set_upt)
qed

lemma pool_step_wellbracketed:
  assumes "pool_step s t" and "pool_inv cmds t" and "log_wellbracketed (stdout s)"
  shows "log_wellbracketed (stdout t)"
proof -
  have inc: "mset (dones (stdout t)) \<subseteq># mset (starts (stdout t))"
    using assms(2) by (simp add: pool_inv_def)
  from assms(1) have "\<exists>l. stdout t = stdout s @ l \<and> length l \<le> 1"
    by (induction rule: pool_step.induct) auto
  then obtain l where "stdout t = stdout s @ l" "length l \<le> 1" by blast
  then show ?thesis using log_wellbracketed_snoc[OF assms(3)] inc by simp
qed

lemma worker_move_step:
  assumes "i < length (workers s)" and "worker_move s i = Some t"
  shows "pool_step s t"
proof (cases "workers s ! i")
  case (Pair r cs)
  show ?thesis
  proof (cases r)
    case None
    show ?thesis
    proof (cases cs)
      case Nil
      then show ?thesis using assms Pair None
        by (auto simp: worker_move_def split: list.splits intro: pool_step.fetch)
    next
      case (Cons c cs')
      then show ?thesis using assms Pair None
        using pool_step.start[of i s c cs' 0] by (auto simp: worker_move_def)
    qed
  next
    case (Some c)
    then show ?thesis using assms Pair
      using pool_step.finish[of i s c cs 0] by (auto simp: worker_move_def)
  qed
qed

lemma sched_step_step:
  assumes "sched_step s = Some t"
  shows "pool_step s t"
proof -
  obtain i js where f: "filter (\<lambda>i. worker_move s i \<noteq> None) [0..<length (workers s)] = i # js"
    and m: "worker_move s i = Some t"
    using assms by (auto simp: sched_step_def split: list.splits)
  have "i \<in> set (filter (\<lambda>i. worker_move s i \<noteq> None) [0..<length (workers s)])"
    unfolding f by simp
  then have "i < length (workers s)" by simp
  then show ?thesis using m by (rule worker_move_step)
qed

lemma worker_move_busy:
  "workers s ! i \<noteq> (None, []) \<Longrightarrow> worker_move s i \<noteq> None"
  by (auto simp: worker_move_def split: prod.splits option.splits list.splits)

lemma worker_move_tasks:
  "tasks s \<noteq> [] \<Longrightarrow> worker_move s i \<noteq> None"
  by (auto simp: worker_move_def neq_Nil_conv split: prod.splits option.splits list.splits)

lemma sched_step_None:
  assumes "workers s \<noteq> []" and "sched_step s = None"
  shows "pool_final s"
proof (rule ccontr)
  assume nf: "\<not> pool_final s"
  have "\<exists>i < length (workers s). worker_move s i \<noteq> None"
  proof (cases "tasks s = []")
    case True
    with nf obtain i where "i < length (workers s)" "workers s ! i \<noteq> (None, [])"
      unfolding pool_final_def list_all_length by blast
    then show ?thesis using worker_move_busy by blast
  next
    case False
    then show ?thesis using assms(1) worker_move_tasks by blast
  qed
  then obtain i where "i \<in> set (filter (\<lambda>i. worker_move s i \<noteq> None) [0..<length (workers s)])"
    by auto
  then have "filter (\<lambda>i. worker_move s i \<noteq> None) [0..<length (workers s)] \<noteq> []"
    by (metis empty_iff list.set(1))
  then obtain j js where f: "filter (\<lambda>i. worker_move s i \<noteq> None) [0..<length (workers s)] = j # js"
    using neq_Nil_conv by metis
  then have "j \<in> set (filter (\<lambda>i. worker_move s i \<noteq> None) [0..<length (workers s)])" by simp
  then have "worker_move s j \<noteq> None" by simp
  then show False using assms(2) f by (simp add: sched_step_def)
qed

lemma run_sched_final:
  assumes "run_sched n s = Some t" and "workers s \<noteq> []"
  shows "pool_step\<^sup>*\<^sup>* s t \<and> pool_final t"
  using assms
proof (induction n s rule: run_sched.induct)
  case (1 s)
  then show ?case by simp
next
  case (2 n s)
  show ?case
  proof (cases "sched_step s")
    case None
    then show ?thesis using 2 sched_step_None by simp
  next
    case (Some u)
    then have st: "pool_step s u" by (rule sched_step_step)
    then have "workers u \<noteq> []" using "2.prems"(2) pool_step_workers_length by fastforce
    then have "pool_step\<^sup>*\<^sup>* u t \<and> pool_final t" using 2 Some by simp
    then show ?thesis using st by (meson converse_rtranclp_into_rtranclp)
  qed
qed

lemma pool_final_stuck: "pool_final s \<Longrightarrow> \<not> pool_step s t"
  by (auto simp: pool_final_def list_all_length elim!: pool_step.cases)

lemma example_pool_run_eval:
  "run_sched 20 (pool_init 2 example_cmds 0) = Some example_pool_run"
  by code_simp

lemma example_pool_run_reach:
  "pool_step\<^sup>*\<^sup>* (pool_init 2 example_cmds 0) example_pool_run \<and> pool_final example_pool_run"
  by (rule run_sched_final[OF example_pool_run_eval]) (simp add: pool_init_def)

lemma example_single_run_reach:
  "pool_step\<^sup>*\<^sup>* (pool_init 1 example_cmds 0) (example_pool_run\<lparr>workers := [(None, [])]\<rparr>) \<and>
   pool_final (example_pool_run\<lparr>workers := [(None, [])]\<rparr>)"
proof (rule run_sched_final)
  show "run_sched 20 (pool_init 1 example_cmds 0) = Some (example_pool_run\<lparr>workers := [(None, [])]\<rparr>)"
    by code_simp
qed (simp add: pool_init_def)

inductive_cases dispatch_InlE: "dispatch dur p cmds s (Inl e)"

lemma dispatch_spawned:
  assumes "dispatch dur p cmds s (Inr s')"
  shows "mset (spawned s') = mset (spawned s) + mset cmds"
proof -
  from assms consider (seq) "s' = run_seq dur cmds s"
    | (pool) t where "pool_step\<^sup>*\<^sup>* (pool_init (nat p) cmds (clock s)) t" "pool_final t"
        "s' = s\<lparr>clock := clock t, stdout := stdout s @ stdout t, spawned := spawned s @ spawned t\<rparr>"
    by (cases rule: dispatch.cases) auto
  then show ?thesis
  proof cases
    case seq
    then show ?thesis using run_seq_effects[of dur cmds s] by simp
  next
    case pool
    then have "mset (spawned t) = mset cmds"
      using pool_final_exactly_once[OF pool_steps_inv[OF pool(1) pool_inv_init]] by simp
    then show ?thesis using pool(3) by simp
  qed
qed

lemma dispatch_dones:
  assumes "dispatch dur p cmds s (Inr s')"
  shows "mset (dones (stdout s')) = mset (dones (stdout s)) + mset cmds"
proof -
  from assms consider (seq) "s' = run_seq dur cmds s"
    | (pool) t where "pool_step\<^sup>*\<^sup>* (pool_init (nat p) cmds (clock s)) t" "pool_final t"
        "s' = s\<lparr>clock := clock t, stdout := stdout s @ stdout t, spawned := spawned s @ spawned t\<rparr>"
    by (cases rule: dispatch.cases) auto
  then show ?thesis
  proof cases
    case seq
    have "dones (stdout (run_seq dur cmds s)) = dones (stdout s) @ cmds"
      by (induction cmds arbitrary: s) (simp_all add: execute_cmd_def dones_def)
    then show ?thesis using seq by simp
  next
    case pool
    then have "mset (dones (stdout t)) = mset cmds"
      using pool_final_exactly_once[OF pool_steps_inv[OF pool(1) pool_inv_init]] by simp
    then show ?thesis using pool(3) by simp
  qed
qed

lemma dispatch_total:
  assumes "1 \<le> p"
  shows "\<exists>s'. dispatch dur p cmds s (Inr s')"
proof (cases "p = 1")
  case True
  then show ?thesis by (blast intro: dispatch.sequential)
next
  case False
  with assms have p: "1 < p" by simp
  have "workers (pool_init (nat p) cmds (clock s)) \<noteq> []" using p by (simp add: pool_init_def)
  then obtain t where "pool_step\<^sup>*\<^sup>* (pool_init (nat p) cmds (clock s)) t" "pool_final t"
    using pool_reaches_final by blast
  then show ?thesis using p by (blast intro: dispatch.pooled)
qed

lemma dispatch_Inl: "dispatch dur p cmds s (Inl e) \<longleftrightarrow> p < 1 \<and> e = pool_error"
  by (auto elim: dispatch_InlE intro: dispatch.pool_refused)

lemma length_running_le: "length (running s) \<le> length (workers s)"
proof -
  have "length (concat (map worker_running ws)) \<le> length ws" for ws
    by (induction ws) (auto split: option.splits)
  then show ?thesis by (simp add: running_def)
qed

lemma pool_steps_stdout: "pool_step\<^sup>*\<^sup>* s t \<Longrightarrow> \<exists>l. stdout t = stdout s @ l"
  by (induction rule: rtranclp_induct) (auto dest: pool_step_stdout)

lemma pool_chunksize_lt:
  assumes "2 \<le> n" and "0 < procs"
  shows "pool_chunksize n procs < n"
proof -
  have "n div (procs * 4) \<le> n div 4" using assms(2) by (simp add: div_le_mono2)
  moreover have "n div 4 * 4 \<le> n" by simp
  ultimately show ?thesis using assms(1) by (simp add: pool_chunksize_def) linarith
qed

subsection \<open>Properties of the dispatcher\<close>

text \<open>
  C1 (safety): when \<^verbatim>\<open>Pool.map\<close> has returned, under any interleaving of the
  workers, every command of the list has been run exactly once: the multiset of
  commands handed to \<^verbatim>\<open>os.system\<close>, and the multiset of commands reported done, are
  the multiset of the list.
\<close>

theorem pool_exactly_once:
  assumes "pool_step\<^sup>*\<^sup>* (pool_init procs cmds t0) s" and "pool_final s"
  shows "mset (spawned s) = mset cmds \<and> mset (dones (stdout s)) = mset cmds"
  using pool_final_exactly_once[OF pool_steps_inv[OF assms(1) pool_inv_init] assms(2)] by simp

text \<open>
  C4 (liveness): from every state the pool can reach, with at least one worker, a
  state where \<^verbatim>\<open>map\<close> returns (no task left, every worker idle) is reachable.
\<close>

theorem pool_completes:
  assumes "pool_step\<^sup>*\<^sup>* (pool_init procs cmds t0) s" and "0 < procs"
  shows "\<exists>t. pool_step\<^sup>*\<^sup>* s t \<and> pool_final t"
proof -
  have "length (workers s) = procs"
    using pool_steps_workers_length[OF assms(1)] by (simp add: pool_init_def)
  then show ?thesis using assms(2) pool_reaches_final[of s] by auto
qed

text \<open>
  C10 (termination): the pool has no infinite run: every schedule of the workers
  reaches, after finitely many steps, a state with no further step.
\<close>

theorem pool_no_infinite_run:
  "\<not> (\<exists>f. f 0 = pool_init procs cmds t0 \<and> (\<forall>n. pool_step (f n) (f (Suc n))))"
  using wf_pool_step by (auto simp: wf_iff_no_infinite_down_chain)

text \<open>
  The pool never deadlocks: a reachable state of a pool with at least one
  worker from which no worker can move is a state where \<^verbatim>\<open>map\<close> returns.
\<close>

lemma pool_stuck_is_final:
  assumes "pool_step\<^sup>*\<^sup>* (pool_init procs cmds t0) s" and "0 < procs"
    and "\<not> (\<exists>t. pool_step s t)"
  shows "pool_final s"
proof -
  have "workers s \<noteq> []"
    using pool_steps_workers_length[OF assms(1)] assms(2) by (auto simp: pool_init_def)
  then show ?thesis using pool_progress assms(3) by blast
qed

text \<open>
  C25 (invariant): at every point of every interleaving, each command has printed its
  \<^verbatim>\<open>CMD\<close> line at least as often as its \<^verbatim>\<open>is done.\<close> line: a job is never
  reported done before it is reported started.
\<close>

theorem pool_log_wellbracketed:
  assumes "pool_step\<^sup>*\<^sup>* (pool_init procs cmds t0) s"
  shows "log_wellbracketed (stdout s)"
  using assms
proof (induction rule: rtranclp_induct)
  case base
  then show ?case by (simp add: pool_init_def log_wellbracketed_def)
next
  case (step t u)
  have "pool_inv cmds u"
    using pool_steps_inv[OF rtranclp.rtrancl_into_rtrancl[OF step.hyps] pool_inv_init] .
  then show ?case using pool_step_wellbracketed[OF step.hyps(2)] step.IH by blast
qed

text \<open>
  C7 (functional): the sequential branch (\<^verbatim>\<open>num_proc == 1\<close>) runs the commands in
  list order, each once, printing for each its \<^verbatim>\<open>CMD\<close> line and then its
  \<^verbatim>\<open>is done.\<close> line before the next one starts.
\<close>

theorem run_seq_events:
  "map event_of (stdout (run_seq dur cmds s)) = map event_of (stdout s) @ seq_events cmds \<and>
   spawned (run_seq dur cmds s) = spawned s @ cmds"
  by (rule run_seq_effects)

text \<open>
  C24 (equivalence): a pool with a single worker, once \<^verbatim>\<open>map\<close> returns, has printed
  the same lines (up to time stamps) as the sequential loop the code runs for
  \<^verbatim>\<open>num_proc == 1\<close>: the special case is an optimisation that keeps the behaviour.
\<close>

theorem single_worker_is_sequential:
  assumes "pool_step\<^sup>*\<^sup>* (pool_init 1 cmds t0) s" and "pool_final s"
  shows "map event_of (stdout s) =
    map event_of (stdout (run_seq dur cmds \<lparr>clock = t0, stdout = [], spawned = []\<rparr>))"
proof -
  have inv: "single_inv cmds s" using single_steps_inv[OF assms(1) single_inv_init] .
  then obtain w where "workers s = [w]" by (auto simp: single_inv_def length_Suc_conv)
  then have "todo_events s = []" using assms(2) by (simp add: pool_final_def todo_events_def)
  then show ?thesis using inv run_seq_effects[of dur cmds] by (simp add: single_inv_def)
qed

text \<open>
  C26 (bounds): the task queue \<^verbatim>\<open>Pool.map\<close> builds for a pool of at least one
  process holds the command list cut into at most \<open>4 * processes\<close> chunks, each
  non-empty and at most \<open>chunksize\<close> long, which together are the list in order.
\<close>

theorem pool_tasks_bounds:
  assumes "0 < procs"
  shows "concat (tasks (pool_init procs cmds t0)) = cmds \<and>
    length (tasks (pool_init procs cmds t0)) \<le> 4 * procs \<and>
    (\<forall>ch \<in> set (tasks (pool_init procs cmds t0)). ch \<noteq> [] \<and> length ch \<le> pool_chunksize (length cmds) procs)"
proof (cases "cmds = []")
  case True
  then show ?thesis by (simp add: pool_init_def pool_chunksize_def py_chunks.simps)
next
  case False
  then have k: "0 < pool_chunksize (length cmds) procs" by (simp add: pool_chunksize_pos)
  show ?thesis
    using concat_pool_chunks[of cmds procs] pool_tasks_count[OF assms, of cmds] py_chunks_bounded[OF k, of _ cmds]
    by (auto simp: pool_init_def)
qed

text \<open>
  C22 (bounds): parallelism is bounded by the pool size: at every point of every
  interleaving of a pool of \<open>procs\<close> processes, the commands that have printed their
  \<^verbatim>\<open>CMD\<close> line without their \<^verbatim>\<open>is done.\<close> line number at most \<open>procs\<close>.
\<close>

theorem pool_parallelism_bounded:
  assumes "pool_step\<^sup>*\<^sup>* (pool_init procs cmds t0) s"
  shows "length (starts (stdout s)) \<le> length (dones (stdout s)) + procs"
proof -
  have "length (starts (stdout s)) = length (dones (stdout s)) + length (running s) \<and>
      length (workers s) = procs"
    using assms
  proof (induction rule: rtranclp_induct)
    case base
    show ?case by (simp add: pool_init_def running_def)
  next
    case (step s t)
    from step.hyps(2) show ?case
    proof (cases rule: pool_step.cases)
      case (fetch i ch rest)
      then show ?thesis
        using length_concat_map_update[of i "workers s" worker_running "(None, ch)"] step.IH by (simp add: running_def)
    next
      case (start i c cs d)
      then show ?thesis
        using length_concat_map_update[of i "workers s" worker_running "(Some c, cs)"] step.IH by (simp add: running_def)
    next
      case (finish i c cs d)
      then show ?thesis
        using length_concat_map_update[of i "workers s" worker_running "(None, cs)"] step.IH by (simp add: running_def)
    qed
  qed
  with length_running_le[of s] show ?thesis by simp
qed

text \<open>
  C23 (liveness): with at least two processes and two distinct commands, some schedule
  completes every command exactly once and reports them in an order other than the
  list's: the order of the \<^verbatim>\<open>is done.\<close> lines is not the order of the command list.
\<close>

theorem pool_completion_order_free:
  assumes "2 \<le> procs" and "2 \<le> length cmds" and "distinct cmds"
  shows "\<exists>t. pool_step\<^sup>*\<^sup>* (pool_init procs cmds t0) t \<and> pool_final t \<and>
    mset (dones (stdout t)) = mset cmds \<and> dones (stdout t) \<noteq> cmds"
proof -
  let ?k = "pool_chunksize (length cmds) procs"
  let ?s0 = "pool_init procs cmds t0"
  have "cmds \<noteq> []" using assms(2) by auto
  then have k: "0 < ?k" "?k < length cmds"
    using assms(1,2) pool_chunksize_pos[of "length cmds" procs] pool_chunksize_lt[of "length cmds" procs] by auto
  have "py_chunks ?k cmds = take ?k cmds # py_chunks ?k (drop ?k cmds)"
    using k by (subst py_chunks.simps) auto
  moreover have "py_chunks ?k (drop ?k cmds) = take ?k (drop ?k cmds) # py_chunks ?k (drop ?k (drop ?k cmds))"
    using k by (subst py_chunks.simps) auto
  ultimately obtain rest where tasks: "tasks ?s0 = take ?k cmds # take ?k (drop ?k cmds) # rest"
    by (simp add: pool_init_def)
  define cs where "cs = take (?k - 1) (drop (Suc ?k) cmds)"
  have ch2: "take ?k (drop ?k cmds) = cmds ! ?k # cs"
    using k by (simp add: cs_def Cons_nth_drop_Suc[symmetric] take_Cons')
  have w: "length (workers ?s0) = procs" "workers ?s0 ! 0 = (None, [])" "workers ?s0 ! 1 = (None, [])"
    using assms(1) by (simp_all add: pool_init_def)
  define s1 where "s1 = ?s0\<lparr>tasks := take ?k (drop ?k cmds) # rest, workers := (workers ?s0)[0 := (None, take ?k cmds)]\<rparr>"
  define s2 where "s2 = s1\<lparr>tasks := rest, workers := (workers s1)[1 := (None, take ?k (drop ?k cmds))]\<rparr>"
  define s3 where "s3 = s2\<lparr>clock := clock s2 + 0, stdout := stdout s2 @ [CmdLine (clock s2 + 0) (cmds ! ?k)],
      spawned := spawned s2 @ [cmds ! ?k], workers := (workers s2)[1 := (Some (cmds ! ?k), cs)]\<rparr>"
  define s4 where "s4 = s3\<lparr>clock := clock s3 + 0, stdout := stdout s3 @ [DoneLine (clock s3 + 0) (cmds ! ?k)],
      workers := (workers s3)[1 := (None, cs)]\<rparr>"
  have "pool_step ?s0 s1" unfolding s1_def using w assms(1) tasks by (intro pool_step.fetch) auto
  moreover have "pool_step s1 s2" unfolding s2_def using w assms(1) by (intro pool_step.fetch) (auto simp: s1_def)
  moreover have "pool_step s2 s3" unfolding s3_def using w assms(1) ch2
    by (intro pool_step.start) (auto simp: s2_def s1_def)
  moreover have "pool_step s3 s4" unfolding s4_def using w assms(1)
    by (intro pool_step.finish) (auto simp: s3_def s2_def s1_def)
  ultimately have r4: "pool_step\<^sup>*\<^sup>* ?s0 s4" by simp
  have d4: "dones (stdout s4) = [cmds ! ?k]" by (simp add: s4_def s3_def s2_def s1_def pool_init_def dones_def)
  have "workers s4 \<noteq> []" using w assms(1) by (auto simp: s4_def s3_def s2_def s1_def)
  then obtain t where r: "pool_step\<^sup>*\<^sup>* s4 t" and f: "pool_final t" using pool_reaches_final by blast
  then obtain l where "stdout t = stdout s4 @ l" using pool_steps_stdout by blast
  then have "hd (dones (stdout t)) = cmds ! ?k" using d4 by simp
  moreover have "cmds ! ?k \<noteq> hd cmds"
  proof -
    have "cmds ! ?k \<noteq> cmds ! 0" using assms(3) k \<open>cmds \<noteq> []\<close> nth_eq_iff_index_eq[OF assms(3), of ?k 0] by simp
    then show ?thesis using \<open>cmds \<noteq> []\<close> by (simp add: hd_conv_nth)
  qed
  ultimately have "dones (stdout t) \<noteq> cmds" by auto
  moreover have rt: "pool_step\<^sup>*\<^sup>* ?s0 t" using r4 r by simp
  moreover have "mset (dones (stdout t)) = mset cmds"
    using pool_final_exactly_once[OF pool_steps_inv[OF rt pool_inv_init] f] by simp
  ultimately show ?thesis using f by blast
qed

subsection \<open>Witnesses\<close>

theorem pool_tasks_bounds_witness:
  "pool_chunksize 10 2 = 2 \<and>
   tasks (pool_init 2 [''c0'', ''c1'', ''c2'', ''c3'', ''c4'', ''c5'', ''c6'', ''c7'', ''c8'', ''c9''] 0) =
     [[''c0'', ''c1''], [''c2'', ''c3''], [''c4'', ''c5''], [''c6'', ''c7''], [''c8'', ''c9'']] \<and>
   length (tasks (pool_init 2 [''c0'', ''c1'', ''c2'', ''c3'', ''c4'', ''c5'', ''c6'', ''c7'', ''c8'', ''c9''] 0)) \<le> 8"
proof -
  have "length (tasks (pool_init 2 [''c0'', ''c1'', ''c2'', ''c3'', ''c4'', ''c5'', ''c6'', ''c7'', ''c8'', ''c9''] 0)) \<le> 4 * 2"
    using pool_tasks_bounds[of 2 "[''c0'', ''c1'', ''c2'', ''c3'', ''c4'', ''c5'', ''c6'', ''c7'', ''c8'', ''c9'']" 0] by simp
  moreover have "pool_chunksize 10 2 = 2" by (simp add: pool_chunksize_def)
  moreover have "tasks (pool_init 2 [''c0'', ''c1'', ''c2'', ''c3'', ''c4'', ''c5'', ''c6'', ''c7'', ''c8'', ''c9''] 0) =
     [[''c0'', ''c1''], [''c2'', ''c3''], [''c4'', ''c5''], [''c6'', ''c7''], [''c8'', ''c9'']]"
    by (simp add: pool_init_def pool_chunksize_def py_chunks.simps)
  ultimately show ?thesis by simp
qed

theorem pool_exactly_once_witness:
  "mset (spawned example_pool_run) = mset example_cmds \<and>
   mset (dones (stdout example_pool_run)) = mset example_cmds"
  using pool_exactly_once[of 2 example_cmds 0 example_pool_run] example_pool_run_reach by simp

theorem pool_completes_witness:
  "\<exists>t. pool_step\<^sup>*\<^sup>* (pool_init 2 example_cmds 0) t \<and> pool_final t"
  using pool_completes[of 2 example_cmds 0 "pool_init 2 example_cmds 0"] by simp

theorem pool_log_wellbracketed_witness:
  "log_wellbracketed (stdout example_pool_run)"
  using pool_log_wellbracketed[of 2 example_cmds 0 example_pool_run] example_pool_run_reach by blast

theorem single_worker_is_sequential_witness:
  "map event_of (stdout (example_pool_run\<lparr>workers := [(None, [])]\<rparr>)) =
   map event_of (stdout (run_seq (\<lambda>c. 1) example_cmds \<lparr>clock = 0, stdout = [], spawned = []\<rparr>))"
  using single_worker_is_sequential[of example_cmds 0 "example_pool_run\<lparr>workers := [(None, [])]\<rparr>"]
    example_single_run_reach by blast

theorem pool_parallelism_bounded_witness:
  "pool_step\<^sup>*\<^sup>* (pool_init 2 example_cmds 0) example_pool_run \<and>
   length (starts (stdout example_pool_run)) \<le> length (dones (stdout example_pool_run)) + 2"
  using pool_parallelism_bounded[of 2 example_cmds 0 example_pool_run] example_pool_run_reach by blast

theorem pool_completion_order_free_witness:
  "2 \<le> (2::nat) \<and> 2 \<le> length example_cmds \<and> distinct example_cmds \<and>
   (\<exists>t. pool_step\<^sup>*\<^sup>* (pool_init 2 example_cmds 0) t \<and> pool_final t \<and>
     mset (dones (stdout t)) = mset example_cmds \<and> dones (stdout t) \<noteq> example_cmds)"
  using pool_completion_order_free[of 2 example_cmds 0] by (simp add: example_cmds_def)

end
