(* ===== verification/OsMakedirs.thy ===== *)
theory OsMakedirs
  imports JobSource
begin

text \<open>
  \<^verbatim>\<open>os.makedirs(args.out_dir, exist_ok=True)\<close> (\<^verbatim>\<open>categorize_mp.py\<close> line 40),
  modelled from CPython 3.8's \<^verbatim>\<open>os.makedirs\<close> on the directory snapshot
  \<open>listing\<close> of theory \<open>JobSource\<close>: a directory is a key of the snapshot, a file is
  an entry of its parent's listing that is not a key. \<open>py_mkdir\<close> is \<^verbatim>\<open>os.mkdir\<close>:
  it fails with \<^verbatim>\<open>FileExistsError\<close> on an existing path, with
  \<^verbatim>\<open>NotADirectoryError\<close> when the parent is a file and with \<^verbatim>\<open>FileNotFoundError\<close>
  when the parent is missing (or the path is empty), and otherwise adds an empty
  directory and lists it in its parent, as the \<open>mkdir\<close> transition of the Unix
  file-system model does. \<open>py_makedirs\<close> is the recursive library function: split the
  path, create a missing head first (ignoring \<^verbatim>\<open>FileExistsError\<close> from it), stop on
  a \<^verbatim>\<open>.\<close> tail, then \<^verbatim>\<open>mkdir\<close> and, with \<open>exist_ok\<close>, swallow the error when the
  path is a directory. It returns the snapshot it leaves together with the exception
  it raises, since directories created before a failure stay. The kernel resolves a
  path with trailing slashes as the path without them (\<open>os_path\<close>); a relative
  path's parent is the working directory, the key \<^verbatim>\<open>.\<close>. Paths are taken as written
  otherwise: the theorems are stated for paths built from ordinary names
  (\<open>mk_path\<close>: no slash, not \<^verbatim>\<open>.\<close> or \<^verbatim>\<open>..\<close>), on which repeated slashes and
  dot components do not arise. Permissions are not modelled.
\<close>

definition os_path :: "path \<Rightarrow> path" where
  "os_path p =
     (if p \<noteq> [] \<and> \<not> list_all (\<lambda>c. c = CHR ''/'') p
      then rev (dropWhile (\<lambda>c. c = CHR ''/'') (rev p)) else p)"

text \<open>The directory in which the kernel creates or looks up a path.\<close>

definition parent_dir :: "path \<Rightarrow> path" where
  "parent_dir p = (if py_split_head p = [] then ''.'' else py_split_head p)"

text \<open>\<^verbatim>\<open>os.path.isdir\<close> and \<^verbatim>\<open>os.path.exists\<close> on the snapshot.\<close>

definition py_isdir :: "listing \<Rightarrow> path \<Rightarrow> bool" where
  "py_isdir fs p \<longleftrightarrow> p \<noteq> [] \<and> fs (os_path p) \<noteq> None"

definition py_exists :: "listing \<Rightarrow> path \<Rightarrow> bool" where
  "py_exists fs p \<longleftrightarrow> py_isdir fs p \<or>
     (p \<noteq> [] \<and> (case fs (parent_dir (os_path p)) of None \<Rightarrow> False
                 | Some ns \<Rightarrow> py_basename (os_path p) \<in> set ns))"

definition py_mkdir :: "listing \<Rightarrow> path \<Rightarrow> py_error + listing" where
  "py_mkdir fs p =
     (let q = os_path p in
      if p = [] then Inl FileNotFoundError
      else if py_exists fs p then Inl FileExistsError
      else case fs (parent_dir q) of
        None \<Rightarrow> Inl (if py_exists fs (parent_dir q) then NotADirectoryError else FileNotFoundError)
      | Some ns \<Rightarrow> Inr (fs(parent_dir q \<mapsto> ns @ [py_basename q], q \<mapsto> [])))"

text \<open>The \<^verbatim>\<open>try: mkdir(name) except OSError\<close> block that ends \<^verbatim>\<open>os.makedirs\<close>.\<close>

definition makedirs_mkdir :: "bool \<Rightarrow> listing \<Rightarrow> path \<Rightarrow> listing \<times> py_error option" where
  "makedirs_mkdir exist_ok fs name =
     (case py_mkdir fs name of
        Inr fs' \<Rightarrow> (fs', None)
      | Inl err \<Rightarrow> if exist_ok \<and> py_isdir fs name then (fs, None) else (fs, Some err))"

text \<open>
  \<^verbatim>\<open>head, tail = path.split(name); if not tail: head, tail = path.split(head)\<close>.
\<close>

definition makedirs_split :: "path \<Rightarrow> path \<times> path" where
  "makedirs_split name =
     (if py_basename name = [] then (py_split_head (py_split_head name), py_basename (py_split_head name))
      else (py_split_head name, py_basename name))"


text \<open>
  Paths built from ordinary names: \<open>mk_path rel ns\<close> joins the names onto the
  working directory (\<open>rel\<close>) or the root with \<^verbatim>\<open>os.path.join\<close>.
\<close>

definition path_name :: "string \<Rightarrow> bool" where
  "path_name n \<longleftrightarrow> n \<noteq> [] \<and> CHR ''/'' \<notin> set n \<and> n \<noteq> ''.'' \<and> n \<noteq> ''..''"

definition mk_path :: "bool \<Rightarrow> string list \<Rightarrow> path" where
  "mk_path rel ns = foldl py_join (if rel then [] else ''/'') ns"

definition path_base :: "bool \<Rightarrow> path" where
  "path_base rel = (if rel then ''.'' else ''/'')"

text \<open>
  A snapshot extends another when every directory stays with at least its entries;
  it is consistent when every directory but the roots is listed in its parent.
\<close>

definition listing_mono :: "listing \<Rightarrow> listing \<Rightarrow> bool" where
  "listing_mono fs fs' \<longleftrightarrow> (\<forall>x xs. fs x = Some xs \<longrightarrow> (\<exists>ys. fs' x = Some ys \<and> set xs \<subseteq> set ys))"

definition wf_listing :: "listing \<Rightarrow> bool" where
  "wf_listing fs \<longleftrightarrow>
     (\<forall>x xs. fs x = Some xs \<longrightarrow> x \<noteq> ''.'' \<longrightarrow> x \<noteq> ''/'' \<longrightarrow>
        (\<exists>ys. fs (parent_dir x) = Some ys \<and> py_basename x \<in> set ys))"

function py_makedirs :: "bool \<Rightarrow> listing \<Rightarrow> path \<Rightarrow> listing \<times> py_error option" where
  "py_makedirs exist_ok fs name =
     (case makedirs_split name of (head, tail) \<Rightarrow>
       if head \<noteq> [] \<and> tail \<noteq> [] \<and> \<not> py_exists fs head then
         (case py_makedirs exist_ok fs head of (fs1, r1) \<Rightarrow>
            if r1 \<noteq> None \<and> r1 \<noteq> Some FileExistsError then (fs1, r1)
            else if tail = ''.'' then (fs1, None)
            else makedirs_mkdir exist_ok fs1 name)
       else makedirs_mkdir exist_ok fs name)"
  by pat_completeness auto
termination
  by (relation "measure (\<lambda>(exist_ok, fs, name). length name)")
    (auto simp: makedirs_split_def split: if_splits
      dest: py_split_head_shorter intro: less_le_trans[OF _ length_py_split_head_le])

declare py_makedirs.simps [simp del]

lemma makedirs_split_shorter:
  assumes "makedirs_split name = (head, tail)" and "tail \<noteq> []"
  shows "length head < length name"
proof (cases "py_basename name = []")
  case True
  then have "head = py_split_head (py_split_head name)" and "py_basename (py_split_head name) \<noteq> []"
    using assms by (auto simp: makedirs_split_def)
  then show ?thesis
    using py_split_head_shorter length_py_split_head[of name] by fastforce
next
  case False
  then show ?thesis using assms py_split_head_shorter by (auto simp: makedirs_split_def)
qed


subsection \<open>Paths built from names\<close>

lemma mk_path_Nil: "mk_path rel [] = (if rel then [] else ''/'')"
  by (simp add: mk_path_def)

lemma mk_path_snoc: "mk_path rel (ms @ [n]) = py_join (mk_path rel ms) n"
  by (simp add: mk_path_def)

lemma path_name_join:
  assumes "path_name n"
  shows "py_join d n = (if d = [] \<or> py_endswith d ''/'' then d @ n else d @ ''/'' @ n)"
  using assms by (simp add: path_name_def py_join_plain)

lemma mk_path_last:
  assumes "list_all path_name ns" and "ns \<noteq> []"
  shows "mk_path rel ns \<noteq> [] \<and> last (mk_path rel ns) \<noteq> CHR ''/''"
proof -
  obtain ms n where ns: "ns = ms @ [n]" using assms(2) by (cases ns rule: rev_cases) auto
  then have n: "n \<noteq> []" "CHR ''/'' \<notin> set n" using assms(1) by (auto simp: path_name_def)
  then have "last n \<noteq> CHR ''/''" using last_in_set by metis
  then show ?thesis
    using ns n assms(1) by (simp add: mk_path_snoc path_name_join)
qed

lemma not_slash_end:
  assumes "p \<noteq> []" and "last p \<noteq> CHR ''/''"
  shows "\<not> py_endswith p ''/''" and "\<not> list_all (\<lambda>c. c = CHR ''/'') p"
    and "rev (dropWhile (\<lambda>c. c = CHR ''/'') (rev p)) = p"
proof -
  show "\<not> py_endswith p ''/''"
  proof
    assume "py_endswith p ''/''"
    then have "p = butlast p @ [CHR ''/'']" using py_endswith_slash assms(1) by simp
    then have "last p = CHR ''/''" by (metis last_snoc)
    with assms(2) show False by simp
  qed
  have "last p \<in> set p" using assms(1) by (rule last_in_set)
  then show "\<not> list_all (\<lambda>c. c = CHR ''/'') p" using assms(2) by (auto simp: list_all_iff)
  obtain xs c where "p = xs @ [c]" using assms(1) by (cases p rule: rev_cases) auto
  then show "rev (dropWhile (\<lambda>c. c = CHR ''/'') (rev p)) = p" using assms(2) by simp
qed

lemma py_split_head_plain: "CHR ''/'' \<notin> set n \<Longrightarrow> py_split_head n = []"
  by (simp add: py_split_head_def py_basename_plain)

lemma py_split_head_root: "CHR ''/'' \<notin> set n \<Longrightarrow> py_split_head (CHR ''/'' # n) = ''/''"
  using py_basename_after_slash[of n "[]"] by (simp add: py_split_head_def)

lemma py_split_head_slash:
  assumes "CHR ''/'' \<notin> set n" and "d \<noteq> []" and "last d \<noteq> CHR ''/''"
  shows "py_split_head (d @ CHR ''/'' # n) = d"
proof -
  have b: "py_basename (d @ CHR ''/'' # n) = n" using py_basename_after_slash[OF assms(1), of d] by simp
  have "rev (dropWhile (\<lambda>c. c = CHR ''/'') (rev (d @ ''/''))) = d"
    using not_slash_end(3)[OF assms(2,3)] by simp
  moreover have "\<not> list_all (\<lambda>c. c = CHR ''/'') (d @ ''/'')"
    using not_slash_end(2)[OF assms(2,3)] by simp
  ultimately show ?thesis using b by (simp add: py_split_head_def)
qed

lemma os_path_plain: "p \<noteq> [] \<Longrightarrow> last p \<noteq> CHR ''/'' \<Longrightarrow> os_path p = p"
  using not_slash_end by (simp add: os_path_def)

text \<open>Appending a valid name to a path built from valid names.\<close>

lemma mk_path_snoc_facts:
  fixes rel :: bool
  assumes "list_all path_name ms" and "path_name n"
  defines "q \<equiv> mk_path rel ms" and "p \<equiv> mk_path rel (ms @ [n])"
  shows "py_basename p = n" and "py_split_head p = q" and "os_path p = p" and "p \<noteq> []"
    and "parent_dir p = (if q = [] then ''.'' else q)" and "makedirs_split p = (q, n)"
    and "q = [] \<longleftrightarrow> rel \<and> ms = []"
proof -
  have n: "n \<noteq> []" "CHR ''/'' \<notin> set n" "n \<noteq> ''.''" using assms(2) by (auto simp: path_name_def)
  have pl: "p \<noteq> [] \<and> last p \<noteq> CHR ''/''"
    unfolding p_def by (rule mk_path_last) (use assms(1,2) in auto)
  then show "os_path p = p" "p \<noteq> []" by (simp_all add: os_path_plain)
  show b: "py_basename p = n" unfolding p_def mk_path_snoc using n by (simp add: py_basename_py_join)
  show h: "py_split_head p = q"
  proof (cases "ms = []")
    case True
    then show ?thesis using n path_name_join[OF assms(2)]
      by (simp add: p_def q_def mk_path_def py_endswith_def py_split_head_plain py_split_head_root)
  next
    case False
    then have "q \<noteq> [] \<and> last q \<noteq> CHR ''/''" unfolding q_def using assms(1) by (rule mk_path_last[rotated])
    then show ?thesis using n not_slash_end(1)[of q] path_name_join[OF assms(2)]
      by (simp add: p_def q_def mk_path_snoc py_split_head_slash)
  qed
  show "parent_dir p = (if q = [] then ''.'' else q)" using h by (simp add: parent_dir_def)
  show "makedirs_split p = (q, n)" using b h n by (simp add: makedirs_split_def)
  show "q = [] \<longleftrightarrow> rel \<and> ms = []"
    using mk_path_last[OF assms(1), of rel] by (cases "ms = []") (auto simp: q_def mk_path_Nil)
qed

lemma os_path_mk_path:
  assumes "list_all path_name ms"
  shows "os_path (mk_path rel ms) = mk_path rel ms"
proof (cases "ms = []")
  case True
  then show ?thesis by (simp add: mk_path_Nil os_path_def)
next
  case False
  then show ?thesis using mk_path_last[OF assms] by (simp add: os_path_plain)
qed

lemma listing_mono_refl [simp]: "listing_mono fs fs"
  by (auto simp: listing_mono_def)

lemma listing_mono_trans: "listing_mono fs1 fs2 \<Longrightarrow> listing_mono fs2 fs3 \<Longrightarrow> listing_mono fs1 fs3"
  unfolding listing_mono_def by (meson order_trans)

subsection \<open>One directory created\<close>

lemma mkdir_snoc:
  fixes rel :: bool
  assumes "list_all path_name ms" and "path_name n"
  defines "p \<equiv> mk_path rel (ms @ [n])"
  shows "py_isdir fs p \<longleftrightarrow> fs p \<noteq> None"
    and "py_exists fs p \<longleftrightarrow> fs p \<noteq> None \<or> (\<exists>xs. fs (parent_dir p) = Some xs \<and> n \<in> set xs)"
    and "py_mkdir fs p =
      (if py_exists fs p then Inl FileExistsError
       else case fs (parent_dir p) of
         None \<Rightarrow> Inl (if py_exists fs (parent_dir p) then NotADirectoryError else FileNotFoundError)
       | Some xs \<Rightarrow> Inr (fs(parent_dir p \<mapsto> xs @ [n], p \<mapsto> [])))"
  using mk_path_snoc_facts(1-4)[OF assms(1,2), of rel] unfolding p_def[symmetric]
  by (auto simp: py_isdir_def py_exists_def py_mkdir_def split: option.splits)

lemma length_parent_dir: "p \<noteq> [] \<Longrightarrow> length (parent_dir p) \<le> length p"
  using length_py_split_head[of p] by (cases p) (auto simp: parent_dir_def)

lemma makedirs_mkdir_ok:
  assumes "list_all path_name ms" and "path_name n"
    and "fs (parent_dir (mk_path rel (ms @ [n]))) = Some xs"
    and "py_exists fs (mk_path rel (ms @ [n])) \<longrightarrow> py_isdir fs (mk_path rel (ms @ [n]))"
  shows "\<exists>fs'. makedirs_mkdir True fs (mk_path rel (ms @ [n])) = (fs', None) \<and>
    fs' (mk_path rel (ms @ [n])) \<noteq> None \<and> listing_mono fs fs' \<and>
    (\<not> py_exists fs (mk_path rel (ms @ [n])) \<longrightarrow> fs' (mk_path rel (ms @ [n])) = Some []) \<and>
    (\<forall>x. length (mk_path rel (ms @ [n])) < length x \<longrightarrow> fs' x = fs x)"
proof -
  let ?p = "mk_path rel (ms @ [n])"
  note m = mkdir_snoc[OF assms(1,2), where rel=rel and fs=fs]
  have len: "length (parent_dir ?p) \<le> length ?p"
    using mk_path_snoc_facts(4)[OF assms(1,2)] by (rule length_parent_dir)
  show ?thesis
  proof (cases "py_exists fs ?p")
    case True
    then show ?thesis using assms(4) m by (simp add: makedirs_mkdir_def)
  next
    case False
    then have "fs ?p = None" using m(2) by simp
    then show ?thesis using False assms(3) m len
      by (auto simp: makedirs_mkdir_def listing_mono_def)
  qed
qed

lemma makedirs_snoc:
  assumes "list_all path_name ms" and "path_name n"
  shows "py_makedirs ok fs (mk_path rel (ms @ [n])) =
    (if mk_path rel ms \<noteq> [] \<and> \<not> py_exists fs (mk_path rel ms) then
       (case py_makedirs ok fs (mk_path rel ms) of (fs1, r1) \<Rightarrow>
          if r1 \<noteq> None \<and> r1 \<noteq> Some FileExistsError then (fs1, r1)
          else makedirs_mkdir ok fs1 (mk_path rel (ms @ [n])))
     else makedirs_mkdir ok fs (mk_path rel (ms @ [n])))"
proof -
  have "n \<noteq> []" "n \<noteq> ''.''" using assms(2) by (auto simp: path_name_def)
  then show ?thesis
    using mk_path_snoc_facts(6)[OF assms, of rel]
    by (cases "mk_path rel ms \<noteq> [] \<and> \<not> py_exists fs (mk_path rel ms)")
      (simp_all add: py_makedirs.simps[of ok fs "mk_path rel (ms @ [n])"] cong: if_cong)
qed

lemma take_snoc_prefix: "k \<le> length ms \<Longrightarrow> take k (ms @ [n]) = take k ms"
  by simp

subsection \<open>Creating a path of fresh or existing directories\<close>

lemma makedirs_leaf:
  assumes "list_all path_name ns" and "ns \<noteq> []" and "py_isdir fs (path_base rel)"
    and "\<forall>k \<le> length ns. py_exists fs (mk_path rel (take k ns)) \<longrightarrow> py_isdir fs (mk_path rel (take k ns))"
  shows "\<exists>fs'. py_makedirs True fs (mk_path rel ns) = (fs', None) \<and> fs' (mk_path rel ns) \<noteq> None \<and>
    listing_mono fs fs' \<and> (\<not> py_exists fs (mk_path rel ns) \<longrightarrow> fs' (mk_path rel ns) = Some []) \<and>
    (\<forall>x. length (mk_path rel ns) < length x \<longrightarrow> fs' x = fs x)"
  using assms
proof (induction ns rule: rev_induct)
  case Nil
  then show ?case by simp
next
  case (snoc n ms)
  let ?q = "mk_path rel ms" and ?p = "mk_path rel (ms @ [n])"
  have v: "list_all path_name ms" "path_name n" using snoc.prems(1) by simp_all
  note F = mk_path_snoc_facts[OF v, of rel]
  have hyp: "\<forall>k \<le> length ms. py_exists fs (mk_path rel (take k ms)) \<longrightarrow> py_isdir fs (mk_path rel (take k ms))"
    using snoc.prems(4) by (metis le_SucI length_append_singleton take_snoc_prefix)
  have hp: "py_exists fs ?p \<longrightarrow> py_isdir fs ?p" using snoc.prems(4) by (metis length_append_singleton order_refl take_all)
  have hq: "py_exists fs ?q \<longrightarrow> fs ?q \<noteq> None"
    using hyp os_path_mk_path[OF v(1), of rel] by (auto simp: py_isdir_def)
  have lq: "length ?q < length ?p"
    using makedirs_split_shorter[OF F(6)] v(2) by (simp add: path_name_def)
  show ?case
  proof (cases "?q \<noteq> [] \<and> \<not> py_exists fs ?q")
    case True
    have "ms \<noteq> []"
    proof
      assume "ms = []"
      with True have "?q = path_base rel" by (simp add: mk_path_Nil path_base_def split: if_splits)
      with True snoc.prems(3) show False by (simp add: py_exists_def)
    qed
    then obtain fs1 where md: "py_makedirs True fs ?q = (fs1, None)" and "fs1 ?q \<noteq> None"
      and m1: "listing_mono fs fs1" and f1: "fs1 ?q = Some []"
      and fr1: "\<forall>x. length ?q < length x \<longrightarrow> fs1 x = fs x"
      using snoc.IH[OF v(1) _ snoc.prems(3) hyp] True by blast
    have par: "fs1 (parent_dir ?p) = Some []" using F(5) True f1 by simp
    have "fs1 ?p = fs ?p" using fr1 lq by blast
    moreover have "py_exists fs1 ?p \<longleftrightarrow> fs1 ?p \<noteq> None"
      using mkdir_snoc(2)[OF v, where rel=rel and fs=fs1] par by simp
    ultimately have "py_exists fs1 ?p \<longrightarrow> py_isdir fs1 ?p" "py_exists fs1 ?p = py_exists fs ?p"
      using mkdir_snoc(1,2)[OF v, where rel=rel] hp by auto
    then obtain fs' where "makedirs_mkdir True fs1 ?p = (fs', None)" "fs' ?p \<noteq> None" "listing_mono fs1 fs'"
      "\<not> py_exists fs ?p \<longrightarrow> fs' ?p = Some []" "\<forall>x. length ?p < length x \<longrightarrow> fs' x = fs1 x"
      using makedirs_mkdir_ok[where fs=fs1 and rel=rel, OF v par] by auto
    then show ?thesis
      using True md m1 fr1 lq listing_mono_trans makedirs_snoc[OF v, of True fs rel] by auto
  next
    case False
    have "fs (parent_dir ?p) \<noteq> None"
    proof (cases "?q = []")
      case True
      then show ?thesis using F(5,7) snoc.prems(3) by (simp add: path_base_def py_isdir_def os_path_def)
    next
      case nq: False
      then show ?thesis using F(5) False hq by simp
    qed
    then obtain xs where "fs (parent_dir ?p) = Some xs" by blast
    then show ?thesis
      using makedirs_mkdir_ok[where fs=fs and rel=rel, OF v _ hp] False makedirs_snoc[OF v, of True fs rel] by auto
  qed
qed

subsection \<open>The directory tree stays consistent\<close>

lemma py_mkdir_wf:
  assumes "wf_listing fs" and "py_mkdir fs p = Inr fs'"
  shows "wf_listing fs'"
proof -
  let ?q = "os_path p"
  obtain ns where par: "fs (parent_dir ?q) = Some ns" and nq: "fs ?q = None" and "p \<noteq> []"
    and fs': "fs' = fs(parent_dir ?q \<mapsto> ns @ [py_basename ?q], ?q \<mapsto> [])"
    using assms(2) by (auto simp: py_mkdir_def py_exists_def py_isdir_def Let_def split: if_splits option.splits)
  have old: "parent_dir x \<noteq> ?q" if "fs x = Some xs" "x \<noteq> ''.''" "x \<noteq> ''/''" for x xs
    using assms(1) that nq unfolding wf_listing_def by fastforce
  have pq: "parent_dir ?q \<noteq> ?q" using par nq by auto
  show ?thesis unfolding wf_listing_def
  proof (intro allI impI)
    fix x xs assume x: "fs' x = Some xs" "x \<noteq> ''.''" "x \<noteq> ''/''"
    show "\<exists>ys. fs' (parent_dir x) = Some ys \<and> py_basename x \<in> set ys"
    proof (cases "x = ?q")
      case True
      then show ?thesis using pq fs' par by simp
    next
      case False
      then have fx: "fs x \<noteq> None" using x(1) fs' par by (auto split: if_splits)
      then obtain ys where "fs (parent_dir x) = Some ys" "py_basename x \<in> set ys"
        using assms(1) x(2,3) unfolding wf_listing_def by blast
      moreover have "parent_dir x \<noteq> ?q" using old fx x(2,3) by blast
      ultimately show ?thesis using fs' par by auto
    qed
  qed
qed

lemma makedirs_mkdir_wf: "wf_listing fs \<Longrightarrow> wf_listing (fst (makedirs_mkdir ok fs p))"
  by (auto simp: makedirs_mkdir_def py_mkdir_wf split: sum.splits)

lemma py_makedirs_wf: "wf_listing fs \<Longrightarrow> wf_listing (fst (py_makedirs ok fs name))"
proof (induction ok fs name rule: py_makedirs.induct)
  case (1 ok fs name)
  then show ?case
    by (subst py_makedirs.simps)
      (auto simp: makedirs_mkdir_wf split: prod.splits if_splits)
qed

lemma makedirs_empty: "py_makedirs ok fs [] = (fs, Some FileNotFoundError)"
  by (simp add: py_makedirs.simps makedirs_split_def makedirs_mkdir_def py_mkdir_def py_isdir_def
      py_basename_def py_split_head_def)

lemma makedirs_onto_file:
  assumes "list_all path_name ms" and "path_name n"
    and "mk_path rel ms = [] \<or> py_isdir fs (mk_path rel ms)"
    and "py_exists fs (mk_path rel (ms @ [n]))" and "\<not> py_isdir fs (mk_path rel (ms @ [n]))"
  shows "py_makedirs ok fs (mk_path rel (ms @ [n])) = (fs, Some FileExistsError)"
  using assms(3-5) makedirs_snoc[OF assms(1,2), of ok fs rel]
  by (auto simp: makedirs_mkdir_def mkdir_snoc(3)[OF assms(1,2)] py_exists_def)

lemma mk_path_not_root:
  assumes "list_all path_name ns" and "ns \<noteq> []"
  shows "mk_path rel ns \<noteq> ''.''" and "mk_path rel ns \<noteq> ''/''"
proof -
  obtain ms n where ns: "ns = ms @ [n]" using assms(2) by (cases ns rule: rev_cases) auto
  then have v: "list_all path_name ms" "path_name n" using assms(1) by simp_all
  have "py_basename (mk_path rel ns) = n" using mk_path_snoc_facts(1)[OF v] ns by simp
  then show "mk_path rel ns \<noteq> ''.''" "mk_path rel ns \<noteq> ''/''"
    using v(2) by (auto simp: path_name_def py_basename_def)
qed

lemma wf_prefix_dirs:
  assumes "wf_listing fs" and "list_all path_name ns" and "fs (mk_path rel ns) \<noteq> None"
  shows "\<forall>k \<in> {1..length ns}. fs (mk_path rel (take k ns)) \<noteq> None"
  using assms(2,3)
proof (induction ns rule: rev_induct)
  case Nil
  then show ?case by simp
next
  case (snoc n ms)
  have v: "list_all path_name ms" "path_name n" using snoc.prems(1) by simp_all
  note F = mk_path_snoc_facts[OF v, of rel]
  show ?case
  proof (cases "ms = []")
    case True
    then show ?thesis using snoc.prems(2) by auto
  next
    case False
    have "fs (parent_dir (mk_path rel (ms @ [n]))) \<noteq> None"
      using assms(1) snoc.prems mk_path_not_root[OF snoc.prems(1)] unfolding wf_listing_def by blast
    then have "fs (mk_path rel ms) \<noteq> None" using F(5,7) False by simp
    then have "\<forall>k \<in> {1..length ms}. fs (mk_path rel (take k ms)) \<noteq> None" using snoc.IH[OF v(1)] by blast
    then show ?thesis using snoc.prems(2) by (auto simp: le_Suc_eq)
  qed
qed

lemma makedirs_mkdir_errors:
  "snd (makedirs_mkdir ok fs p) = Some err \<Longrightarrow>
   err \<in> {FileExistsError, FileNotFoundError, NotADirectoryError}"
  by (auto simp: makedirs_mkdir_def py_mkdir_def Let_def split: sum.splits if_splits option.splits)

lemma makedirs_errors:
  "snd (py_makedirs ok fs name) = Some err \<Longrightarrow>
   err \<in> {FileExistsError, FileNotFoundError, NotADirectoryError}"
proof (induction ok fs name rule: py_makedirs.induct)
  case (1 ok fs name)
  then show ?case
    by (subst (asm) py_makedirs.simps)
      (auto dest: makedirs_mkdir_errors split: prod.splits if_splits)
qed

lemmas makedirs_eval = py_makedirs.simps makedirs_split_def makedirs_mkdir_def py_mkdir_def
  py_exists_def py_isdir_def parent_dir_def os_path_def py_split_head_def py_basename_def Let_def

subsection \<open>Properties of \<^verbatim>\<open>os.makedirs\<close>\<close>

text \<open>
  C20 (functional): on a consistent snapshot, \<^verbatim>\<open>os.makedirs(name, exist_ok=True)\<close> for
  a path of ordinary names whose base directory exists and none of whose prefixes is a
  file raises nothing, leaves every prefix of the path a directory, keeps every
  directory and entry it found, and leaves the snapshot consistent.
\<close>

theorem makedirs_creates:
  assumes "wf_listing fs" and "list_all path_name ns" and "ns \<noteq> []" and "py_isdir fs (path_base rel)"
    and "\<forall>k \<le> length ns. py_exists fs (mk_path rel (take k ns)) \<longrightarrow> py_isdir fs (mk_path rel (take k ns))"
  shows "\<exists>fs'. py_makedirs True fs (mk_path rel ns) = (fs', None) \<and>
    (\<forall>k \<in> {1..length ns}. py_isdir fs' (mk_path rel (take k ns))) \<and> listing_mono fs fs' \<and> wf_listing fs'"
proof -
  obtain fs' where md: "py_makedirs True fs (mk_path rel ns) = (fs', None)"
    and leaf: "fs' (mk_path rel ns) \<noteq> None" and mono: "listing_mono fs fs'"
    using makedirs_leaf[OF assms(2-5)] by blast
  have wf: "wf_listing fs'" using py_makedirs_wf[OF assms(1), of True "mk_path rel ns"] md by simp
  have "py_isdir fs' (mk_path rel (take k ns))" if "k \<in> {1..length ns}" for k
  proof -
    have "fs' (mk_path rel (take k ns)) \<noteq> None" using wf_prefix_dirs[OF wf assms(2) leaf] that by blast
    moreover have "take k ns \<noteq> []" "list_all path_name (take k ns)"
      using that assms(2) by (auto simp: list_all_iff dest: in_set_takeD)
    ultimately show ?thesis
      using mk_path_last[of "take k ns" rel] os_path_mk_path[of "take k ns" rel] by (simp add: py_isdir_def)
  qed
  then show ?thesis using md mono wf by blast
qed

text \<open>
  C21 (error): when the first prefix of the path that is not a directory is a file,
  \<^verbatim>\<open>os.makedirs\<close> creates nothing and raises \<^verbatim>\<open>FileExistsError\<close> if that file is
  the path itself and \<^verbatim>\<open>NotADirectoryError\<close> if it is a proper prefix, whatever
  \<^verbatim>\<open>exist_ok\<close> says.
\<close>

theorem makedirs_blocked:
  assumes "list_all path_name ns" and "k < length ns" and "py_isdir fs (path_base rel)"
    and "\<forall>j \<in> {1..k}. py_isdir fs (mk_path rel (take j ns))"
    and "py_exists fs (mk_path rel (take (Suc k) ns))" and "\<not> py_isdir fs (mk_path rel (take (Suc k) ns))"
    and "\<forall>j \<in> {Suc (Suc k)..length ns}. \<not> py_exists fs (mk_path rel (take j ns))"
  shows "py_makedirs ok fs (mk_path rel ns) =
    (fs, Some (if Suc k = length ns then FileExistsError else NotADirectoryError))"
  using assms
proof (induction ns rule: rev_induct)
  case Nil
  then show ?case by simp
next
  case (snoc n ms)
  let ?q = "mk_path rel ms" and ?p = "mk_path rel (ms @ [n])"
  have v: "list_all path_name ms" "path_name n" using snoc.prems(1) by simp_all
  note F = mk_path_snoc_facts[OF v, of rel] and M = mkdir_snoc[OF v, where rel=rel and fs=fs]
  have tk: "take j (ms @ [n]) = take j ms" if "j \<le> length ms" for j using that by simp
  have q_dir_or_nil: "?q = [] \<or> py_isdir fs ?q" if "k = length ms"
  proof (cases "ms = []")
    case True
    then show ?thesis using snoc.prems(3) by (auto simp: mk_path_Nil path_base_def py_isdir_def os_path_def)
  next
    case False
    with that have "k \<in> {1..k}" by (cases ms) auto
    then have "py_isdir fs (mk_path rel (take k (ms @ [n])))" using snoc.prems(4) by blast
    then show ?thesis using that by simp
  qed
  show ?case
  proof (cases "Suc k = length (ms @ [n])")
    case True
    then have "py_exists fs ?p" "\<not> py_isdir fs ?p" using snoc.prems(5,6) by simp_all
    moreover have "?q = [] \<or> py_exists fs ?q" using q_dir_or_nil True by (auto simp: py_exists_def)
    ultimately show ?thesis using True makedirs_snoc[OF v, of ok fs rel]
      by (auto simp: makedirs_mkdir_def M(3))
  next
    case False
    then have k: "k < length ms" using snoc.prems(2) by simp
    show ?thesis
    proof (cases "Suc k = length ms")
      case True
      then have qf: "py_exists fs ?q" "\<not> py_isdir fs ?q" using snoc.prems(5,6) tk by auto
      then have "?q \<noteq> []" by (auto simp: py_exists_def)
      moreover have "\<not> py_exists fs ?p" using snoc.prems(7) True by simp
      moreover have "fs ?q = None" using qf os_path_mk_path[OF v(1)] \<open>?q \<noteq> []\<close> by (simp add: py_isdir_def)
      ultimately show ?thesis using True qf F(5) makedirs_snoc[OF v, of ok fs rel]
        by (simp add: makedirs_mkdir_def M(1,2) py_mkdir_def Let_def F(3,4))
    next
      case nq: False
      have "length ms \<in> {Suc (Suc k)..length (ms @ [n])}" using k nq by simp
      then have "\<not> py_exists fs (mk_path rel (take (length ms) (ms @ [n])))" using snoc.prems(7) by blast
      then have "\<not> py_exists fs ?q" by simp
      moreover have "?q \<noteq> []" using k F(7) by auto
      moreover have "py_makedirs ok fs ?q = (fs, Some NotADirectoryError)"
      proof -
        have h4: "\<forall>j \<in> {1..k}. py_isdir fs (mk_path rel (take j ms))"
          using snoc.prems(4) k tk by auto
        have h7: "\<forall>j \<in> {Suc (Suc k)..length ms}. \<not> py_exists fs (mk_path rel (take j ms))"
        proof
          fix j assume j: "j \<in> {Suc (Suc k)..length ms}"
          then have "j \<in> {Suc (Suc k)..length (ms @ [n])}" by simp
          from bspec[OF snoc.prems(7) this] have "\<not> py_exists fs (mk_path rel (take j (ms @ [n])))" .
          then show "\<not> py_exists fs (mk_path rel (take j ms))" using j tk by simp
        qed
        have "py_exists fs (mk_path rel (take (Suc k) ms))" "\<not> py_isdir fs (mk_path rel (take (Suc k) ms))"
          using snoc.prems(5,6) k tk by auto
        then show ?thesis using snoc.IH[OF v(1) k snoc.prems(3) h4 _ _ h7] nq by simp
      qed
      ultimately show ?thesis using False makedirs_snoc[OF v, of ok fs rel] by simp
    qed
  qed
qed

subsection \<open>Witnesses\<close>

lemma mk_path_out_x: "mk_path True [''out'', ''x''] = ''out/x''"
  by (simp add: mk_path_def py_join_def py_endswith_def)

theorem makedirs_creates_witness:
  "\<exists>fs'. py_makedirs True [''.'' \<mapsto> [''in''], ''in'' \<mapsto> []] ''out/x'' = (fs', None) \<and>
     py_isdir fs' ''out'' \<and> py_isdir fs' ''out/x''"
proof -
  let ?fs = "[''.'' \<mapsto> [''in''], ''in'' \<mapsto> []] :: listing"
  have wf: "wf_listing ?fs"
    by (auto simp: wf_listing_def parent_dir_def py_split_head_def py_basename_def)
  have base: "py_isdir ?fs (path_base True)" by (simp add: path_base_def py_isdir_def os_path_def)
  have names: "list_all path_name [''out'', ''x'']" by (simp add: path_name_def)
  have pre: "\<forall>k \<le> length [''out'', ''x'']. py_exists ?fs (mk_path True (take k [''out'', ''x''])) \<longrightarrow>
      py_isdir ?fs (mk_path True (take k [''out'', ''x'']))"
  proof (intro allI impI)
    fix k assume "k \<le> length [''out'', ''x'']" and e: "py_exists ?fs (mk_path True (take k [''out'', ''x'']))"
    then have "k = 0 \<or> k = 1 \<or> k = 2" by auto
    then show "py_isdir ?fs (mk_path True (take k [''out'', ''x'']))"
      using e by (auto simp: mk_path_def py_join_def py_endswith_def py_exists_def py_isdir_def
          parent_dir_def os_path_def py_split_head_def py_basename_def)
  qed
  obtain fs' where md: "py_makedirs True ?fs (mk_path True [''out'', ''x'']) = (fs', None)"
    and d: "\<forall>k \<in> {1..length [''out'', ''x'']}. py_isdir fs' (mk_path True (take k [''out'', ''x'']))"
    using makedirs_creates[OF wf names _ base pre] by blast
  have "(1::nat) \<in> {1..length [''out'', ''x'']}" "(2::nat) \<in> {1..length [''out'', ''x'']}" by auto
  then have "py_isdir fs' (mk_path True (take 1 [''out'', ''x'']))" "py_isdir fs' (mk_path True (take 2 [''out'', ''x'']))"
    using d by blast+
  then show ?thesis using md unfolding mk_path_out_x by (auto simp: mk_path_def py_join_def py_endswith_def)
qed

theorem makedirs_blocked_witness:
  "py_makedirs True [''.'' \<mapsto> [''out'']] ''out/x'' = ([''.'' \<mapsto> [''out'']], Some NotADirectoryError)"
proof -
  let ?fs = "[''.'' \<mapsto> [''out'']] :: listing"
  have "py_makedirs True ?fs (mk_path True [''out'', ''x'']) =
      (?fs, Some (if Suc 0 = length [''out'', ''x''] then FileExistsError else NotADirectoryError))"
  proof (rule makedirs_blocked)
    show "list_all path_name [''out'', ''x'']" by (simp add: path_name_def)
    show "py_isdir ?fs (path_base True)" by (simp add: path_base_def py_isdir_def os_path_def)
    show "py_exists ?fs (mk_path True (take (Suc 0) [''out'', ''x'']))"
      "\<not> py_isdir ?fs (mk_path True (take (Suc 0) [''out'', ''x'']))"
      by (simp_all add: mk_path_def py_join_def py_exists_def py_isdir_def parent_dir_def os_path_def
          py_split_head_def py_basename_def)
    show "\<forall>j \<in> {Suc (Suc 0)..length [''out'', ''x'']}. \<not> py_exists ?fs (mk_path True (take j [''out'', ''x'']))"
      by (simp add: mk_path_def py_join_def py_endswith_def py_exists_def py_isdir_def parent_dir_def
          os_path_def py_split_head_def py_basename_def)
  qed simp_all
  then show ?thesis unfolding mk_path_out_x by simp
qed

end
