(* ===== verification/Scripts.thy ===== *)
theory Scripts
  imports JobBuilder Argparse Dispatcher OsMakedirs
begin

text \<open>
  The two entry points, \<^verbatim>\<open>main\<close> of \<^verbatim>\<open>annotate_mp.py\<close> (lines 15--59) and of
  \<^verbatim>\<open>categorize_mp.py\<close> (lines 15--60), composed from the components in the order
  the code runs them: locate and read the path configuration, look up the tool,
  glob and sort the inputs, take the window, (categorize only) create the output
  directory, derive output paths and command lines, dispatch, and (categorize only)
  print the final \<^verbatim>\<open>Done\<close> line. \<open>annotate_main\<close> and \<open>categorize_main\<close> start
  from the parsed arguments; \<open>annotate_cli\<close> and \<open>categorize_cli\<close> are the scripts
  run on a command line, \<^verbatim>\<open>parse_args\<close> (theory \<open>Argparse\<close>) first. The YAML
  file is modelled by what \<^verbatim>\<open>yaml.safe_load\<close> makes of it; an exception that reaches the top level
  ends the run (\<open>Inl\<close>).
\<close>

text \<open>The environment of a run: the working directory, the file system and the commands' run times.\<close>

text \<open>
  What \<^verbatim>\<open>yaml.safe_load\<close> makes of the configuration file: a mapping, whose
  entries the scripts use through their \<^verbatim>\<open>str()\<close> (the f-string formats the tool
  path), or a document of another type (\<^verbatim>\<open>None\<close> for an empty file, a list, a
  scalar), named by its type; or the file is not valid YAML.
\<close>

datatype conf_value = ConfDict "string \<rightharpoonup> string" | ConfNotDict string

datatype conf_file = YamlDoc conf_value | YamlMalformed

record env =
  cwd :: path
  fs :: listing
  conf_files :: "path \<rightharpoonup> conf_file"
  dur :: "cmd \<Rightarrow> nat"
  start_time :: nat

text \<open>
  \<^verbatim>\<open>project_dir = os.path.dirname(os.path.abspath('.'))\<close> and
  \<^verbatim>\<open>os.path.join(project_dir, 'conf', 'cwas_paths.yaml')\<close>, for an absolute,
  normalised working directory.
\<close>

definition conf_path :: "path \<Rightarrow> path" where
  "conf_path wd = py_join (py_join (py_split_head wd) ''conf'') ''cwas_paths.yaml''"

text \<open>Lines 36--37: \<^verbatim>\<open>open\<close> and \<^verbatim>\<open>yaml.safe_load\<close>.\<close>

definition load_conf :: "env \<Rightarrow> py_error + conf_value" where
  "load_conf e =
     (case conf_files e (conf_path (cwd e)) of
        None \<Rightarrow> Inl FileNotFoundError
      | Some YamlMalformed \<Rightarrow> Inl YAMLError
      | Some (YamlDoc v) \<Rightarrow> Inr v)"

text \<open>Line 39: \<^verbatim>\<open>path_dict['annotate']\<close>, a \<^verbatim>\<open>TypeError\<close> unless the document is a mapping.\<close>

definition conf_lookup :: "conf_value \<Rightarrow> string \<Rightarrow> py_error + string" where
  "conf_lookup v k =
     (case v of
        ConfDict d \<Rightarrow> (case d k of None \<Rightarrow> Inl (KeyError k) | Some x \<Rightarrow> Inr x)
      | ConfNotDict t \<Rightarrow> Inl (TypeError t))"

definition initial_proc :: "env \<Rightarrow> proc" where
  "initial_proc e = \<lparr>clock = start_time e, stdout = [], spawned = []\<rparr>"

definition window :: "env \<Rightarrow> args \<Rightarrow> path list" where
  "window e a = py_slice (job_source (fs e) (in_dir a)) (start_idx a) (end_idx a)"

text \<open>Lines 33--49 of \<^verbatim>\<open>annotate_mp.py\<close>: everything before the execution branch.\<close>

definition annotate_cmds :: "env \<Rightarrow> args \<Rightarrow> py_error + cmd list" where
  "annotate_cmds e a =
     (case load_conf e of Inl err \<Rightarrow> Inl err
      | Inr d \<Rightarrow> (case conf_lookup d ''annotate'' of Inl err \<Rightarrow> Inl err
        | Inr annot_script \<Rightarrow>
            (let ins = window e a; outs = out_paths Annotate (out_dir a) ins
             in Inr (make_cmds (\<lambda>i p. annot_cmd annot_script (vep_script a) i p) ins outs))))"

inductive annotate_main :: "env \<Rightarrow> args \<Rightarrow> py_error + proc \<Rightarrow> bool" where
  "annotate_cmds e a = Inl err \<Longrightarrow> annotate_main e a (Inl err)"
| "annotate_cmds e a = Inr cmds \<Longrightarrow> dispatch (dur e) (num_proc a) cmds (initial_proc e) r \<Longrightarrow>
   annotate_main e a r"

text \<open>
  Lines 31--60 of \<^verbatim>\<open>categorize_mp.py\<close>. The output directory is created after the
  window is taken and before any command is built, so it exists even when the pool
  later refuses the process count; the final line is printed after the dispatch.
\<close>

definition categorize_cmds :: "env \<Rightarrow> args \<Rightarrow> py_error + cmd list" where
  "categorize_cmds e a =
     (case load_conf e of Inl err \<Rightarrow> Inl err
      | Inr d \<Rightarrow> (case conf_lookup d ''categorize'' of Inl err \<Rightarrow> Inl err
        | Inr categorize_script \<Rightarrow>
            (let ins = window e a; outs = out_paths Categorize (out_dir a) ins
             in Inr (make_cmds (\<lambda>i p. cat_cmd categorize_script i p) ins outs))))"

definition finish_categorize :: "py_error + proc \<Rightarrow> py_error + proc" where
  "finish_categorize r =
     (case r of Inl err \<Rightarrow> Inl err
      | Inr s \<Rightarrow> Inr (s\<lparr>stdout := stdout s @ [AllDoneLine (clock s)]\<rparr>))"

text \<open>
  \<open>categorize_main\<close> returns the snapshot the run leaves with its outcome: the
  configuration and the window come first (lines 33--39), then
  \<^verbatim>\<open>os.makedirs(args.out_dir, exist_ok=True)\<close> (line 40, theory \<open>OsMakedirs\<close>), whose
  exception ends the run with the directories it created so far, then the commands
  and the dispatch.
\<close>

inductive categorize_main :: "env \<Rightarrow> args \<Rightarrow> listing \<times> (py_error + proc) \<Rightarrow> bool" where
  "categorize_cmds e a = Inl err \<Longrightarrow> categorize_main e a (fs e, Inl err)"
| "categorize_cmds e a = Inr cmds \<Longrightarrow> py_makedirs True (fs e) (out_dir a) = (l, Some err) \<Longrightarrow>
   categorize_main e a (l, Inl err)"
| "categorize_cmds e a = Inr cmds \<Longrightarrow> py_makedirs True (fs e) (out_dir a) = (l, None) \<Longrightarrow>
   dispatch (dur e) (num_proc a) cmds (initial_proc e) r \<Longrightarrow>
   categorize_main e a (l, finish_categorize r)"

text \<open>
  An attribute that \<^verbatim>\<open>parse_args\<close> left as the empty list (the value
  \<^verbatim>\<open>--\<close>, theory \<open>Argparse\<close>) is formatted as \<^verbatim>\<open>[]\<close> by the f-strings that
  read the input directory, the output directory (annotate) and the VEP script, but
  the slice \<^verbatim>\<open>paths[start_idx:end_idx]\<close> (line 41 / 39), \<^verbatim>\<open>os.makedirs\<close>
  (categorize line 40) and \<^verbatim>\<open>mp.Pool(num_proc)\<close> (line 55, after
  \<^verbatim>\<open>num_proc == 1\<close> is false) raise \<^verbatim>\<open>TypeError\<close> on a list.
\<close>

definition slice_type_error :: py_error where
  "slice_type_error = TypeError ''slice indices must be integers or None or have an __index__ method''"

definition makedirs_type_error :: py_error where
  "makedirs_type_error = TypeError ''expected str, bytes or os.PathLike object, not list''"

definition pool_type_error :: py_error where
  "pool_type_error =
     TypeError ([CHR 0x27] @ ''<' not supported between instances of 'list' and 'int'' @ [CHR 0x27])"

text \<open>Lines 36--39 / 34--37: the tool path from the configuration file.\<close>

definition tool_path :: "env \<Rightarrow> string \<Rightarrow> py_error + string" where
  "tool_path e k = (case load_conf e of Inl err \<Rightarrow> Inl err | Inr d \<Rightarrow> conf_lookup d k)"

definition slice_list :: "namespace \<Rightarrow> bool" where
  "slice_list ns \<longleftrightarrow> py_is_list (ns ''start_idx'') \<or> py_is_list (ns ''end_idx'')"

definition annotate_list_valued :: "namespace \<Rightarrow> bool" where
  "annotate_list_valued ns \<longleftrightarrow> slice_list ns \<or> py_is_list (ns ''num_proc'')"

definition categorize_list_valued :: "namespace \<Rightarrow> bool" where
  "categorize_list_valued ns \<longleftrightarrow> slice_list ns \<or> py_is_list (ns ''out_dir'') \<or> py_is_list (ns ''num_proc'')"

text \<open>
  \<^verbatim>\<open>main\<close> on a namespace with such a list: the configuration is read first, then
  the first statement that uses a list attribute raises; categorize's
  \<^verbatim>\<open>os.makedirs\<close> has run by the time \<^verbatim>\<open>Pool\<close> raises.
\<close>

definition annotate_refused :: "env \<Rightarrow> namespace \<Rightarrow> py_error + proc" where
  "annotate_refused e ns =
     (case tool_path e ''annotate'' of
        Inl err \<Rightarrow> Inl err
      | Inr annot_script \<Rightarrow> Inl (if slice_list ns then slice_type_error else pool_type_error))"

definition categorize_refused :: "env \<Rightarrow> namespace \<Rightarrow> listing \<times> (py_error + proc)" where
  "categorize_refused e ns =
     (case tool_path e ''categorize'' of
        Inl err \<Rightarrow> (fs e, Inl err)
      | Inr categorize_script \<Rightarrow>
          if slice_list ns then (fs e, Inl slice_type_error)
          else if py_is_list (ns ''out_dir'') then (fs e, Inl makedirs_type_error)
          else (case py_makedirs True (fs e) (py_str_attr (ns ''out_dir'')) of
                  (l, Some err) \<Rightarrow> (l, Inl err)
                | (l, None) \<Rightarrow> (l, Inl pool_type_error)))"

text \<open>
  The scripts run on a command line (\<^verbatim>\<open>sys.argv[1:]\<close>): \<^verbatim>\<open>parse_args\<close>
  (line 30 / 28) either ends the script with \<^verbatim>\<open>SystemExit\<close>, before anything
  else happens, or gives the namespace \<^verbatim>\<open>main\<close> reads its arguments from.
\<close>

inductive annotate_cli :: "env \<Rightarrow> string list \<Rightarrow> py_error + proc \<Rightarrow> bool" where
  "parse_args annotate_parser argv = Inl err \<Longrightarrow> annotate_cli e argv (Inl err)"
| "parse_args annotate_parser argv = Inr ns \<Longrightarrow> \<not> annotate_list_valued ns \<Longrightarrow>
   annotate_main e (args_of ns) r \<Longrightarrow> annotate_cli e argv r"
| "parse_args annotate_parser argv = Inr ns \<Longrightarrow> annotate_list_valued ns \<Longrightarrow>
   annotate_cli e argv (annotate_refused e ns)"

inductive categorize_cli :: "env \<Rightarrow> string list \<Rightarrow> listing \<times> (py_error + proc) \<Rightarrow> bool" where
  "parse_args categorize_parser argv = Inl err \<Longrightarrow> categorize_cli e argv (fs e, Inl err)"
| "parse_args categorize_parser argv = Inr ns \<Longrightarrow> \<not> categorize_list_valued ns \<Longrightarrow>
   categorize_main e (args_of ns) lr \<Longrightarrow> categorize_cli e argv lr"
| "parse_args categorize_parser argv = Inr ns \<Longrightarrow> categorize_list_valued ns \<Longrightarrow>
   categorize_cli e argv (categorize_refused e ns)"

text \<open>The commands a run with a given tool path builds, in order.\<close>

definition annotate_jobs :: "string \<Rightarrow> env \<Rightarrow> args \<Rightarrow> cmd list" where
  "annotate_jobs script e a =
     map (\<lambda>p. annot_cmd script (vep_script a) p (out_path Annotate (out_dir a) p)) (window e a)"

definition categorize_jobs :: "string \<Rightarrow> env \<Rightarrow> args \<Rightarrow> cmd list" where
  "categorize_jobs script e a =
     map (\<lambda>p. cat_cmd script p (out_path Categorize (out_dir a) p)) (window e a)"

text \<open>
  An example environment: the scripts run in \<^verbatim>\<open>/home/u/cwas/scripts\<close>, the
  configuration names both tools, and \<^verbatim>\<open>in\<close> holds \<^verbatim>\<open>a.vcf\<close>, \<^verbatim>\<open>b.vcf\<close>
  and \<^verbatim>\<open>c.vcf\<close>; the example arguments select the window \<open>[1, 2)\<close>, run
  sequentially.
\<close>

definition example_conf :: "string \<rightharpoonup> string" where
  "example_conf = [''annotate'' \<mapsto> ''annotate.py'', ''categorize'' \<mapsto> ''categorize.py'']"

definition example_env :: env where
  "example_env =
     \<lparr>cwd = ''/home/u/cwas/scripts'', fs = [''.'' \<mapsto> [''in''], ''in'' \<mapsto> [''c.vcf'', ''a.vcf'', ''b.vcf'']],
      conf_files = [''/home/u/cwas/conf/cwas_paths.yaml'' \<mapsto> YamlDoc (ConfDict example_conf)],
      dur = (\<lambda>c. 1), start_time = 0\<rparr>"

definition example_args :: args where
  "example_args =
     \<lparr>in_dir = ''in'', out_dir = ''out'', num_proc = 1, vep_script = ''vep'', start_idx = 1, end_idx = 2\<rparr>"

text \<open>A line printed by a job (not the final summary line).\<close>

definition conf_env :: "conf_file \<Rightarrow> env" where
  "conf_env c = example_env\<lparr>conf_files := [''/home/u/cwas/conf/cwas_paths.yaml'' \<mapsto> c]\<rparr>"

fun job_line :: "line \<Rightarrow> bool" where
  "job_line (AllDoneLine t) = False"
| "job_line _ = True"

subsection \<open>Helper lemmas\<close>

inductive_cases annotate_mainE: "annotate_main e a r"
inductive_cases categorize_mainE: "categorize_main e a lr"

lemma annotate_cli_parsed:
  "parse_args annotate_parser argv = Inr ns \<Longrightarrow> \<not> annotate_list_valued ns \<Longrightarrow>
   annotate_cli e argv r \<longleftrightarrow> annotate_main e (args_of ns) r"
  by (auto elim: annotate_cli.cases intro: annotate_cli.intros)

lemma categorize_cli_parsed:
  "parse_args categorize_parser argv = Inr ns \<Longrightarrow> \<not> categorize_list_valued ns \<Longrightarrow>
   categorize_cli e argv lr \<longleftrightarrow> categorize_main e (args_of ns) lr"
  by (auto elim: categorize_cli.cases intro: categorize_cli.intros)

lemma cli_refused:
  "parse_args annotate_parser argv = Inr ns \<Longrightarrow> annotate_list_valued ns \<Longrightarrow>
   annotate_cli e argv r \<longleftrightarrow> r = annotate_refused e ns"
  "parse_args categorize_parser argv = Inr ns \<Longrightarrow> categorize_list_valued ns \<Longrightarrow>
   categorize_cli e argv lr \<longleftrightarrow> lr = categorize_refused e ns"
  by (auto elim: annotate_cli.cases categorize_cli.cases intro: annotate_cli.intros categorize_cli.intros)

lemma cli_rejected:
  "parse_args annotate_parser argv = Inl err \<Longrightarrow> annotate_cli e argv r \<longleftrightarrow> r = Inl err"
  "parse_args categorize_parser argv = Inl err \<Longrightarrow> categorize_cli e argv lr \<longleftrightarrow> lr = (fs e, Inl err)"
  by (auto elim: annotate_cli.cases categorize_cli.cases intro: annotate_cli.intros categorize_cli.intros)

lemma make_cmds_map: "make_cmds mk xs (map f xs) = map (\<lambda>x. mk x (f x)) xs"
  by (induction xs) auto

lemma annotate_cmds_ok:
  assumes "load_conf e = Inr (ConfDict d)" and "d ''annotate'' = Some script"
  shows "annotate_cmds e a = Inr (annotate_jobs script e a)"
  using assms
  by (simp add: annotate_cmds_def conf_lookup_def out_paths_def make_cmds_map annotate_jobs_def)

lemma annotate_main_cmds:
  "annotate_cmds e a = Inr cmds \<Longrightarrow>
   annotate_main e a r \<longleftrightarrow> dispatch (dur e) (num_proc a) cmds (initial_proc e) r"
  by (auto elim: annotate_mainE intro: annotate_main.intros)

lemma annotate_main_err:
  "annotate_cmds e a = Inl err \<Longrightarrow> annotate_main e a r \<longleftrightarrow> r = Inl err"
  by (auto elim: annotate_mainE intro: annotate_main.intros)

lemma categorize_main_err:
  "categorize_cmds e a = Inl err \<Longrightarrow> categorize_main e a lr \<longleftrightarrow> lr = (fs e, Inl err)"
  by (auto elim: categorize_mainE intro: categorize_main.intros)

text \<open>A failed load or subscript ends both scripts with the same exception.\<close>

lemma load_conf_err_cmds:
  "load_conf e = Inl err \<Longrightarrow> annotate_cmds e a = Inl err \<and> categorize_cmds e a = Inl err"
  by (simp add: annotate_cmds_def categorize_cmds_def)

lemma conf_lookup_err_cmds:
  assumes "load_conf e = Inr v"
  shows "conf_lookup v ''annotate'' = Inl err \<Longrightarrow> annotate_cmds e a = Inl err"
    and "conf_lookup v ''categorize'' = Inl err \<Longrightarrow> categorize_cmds e a = Inl err"
  using assms by (simp_all add: annotate_cmds_def categorize_cmds_def)

lemma annotate_cmds_Inl:
  "annotate_cmds e a = Inl err \<Longrightarrow> exit_status err = 1"
  by (auto simp: annotate_cmds_def load_conf_def conf_lookup_def Let_def
      split: option.splits sum.splits conf_file.splits conf_value.splits)

lemma categorize_cmds_Inl:
  "categorize_cmds e a = Inl err \<Longrightarrow> exit_status err = 1"
  by (auto simp: categorize_cmds_def load_conf_def conf_lookup_def Let_def
      split: option.splits sum.splits conf_file.splits conf_value.splits)

lemma categorize_cmds_Inr:
  "categorize_cmds e a = Inr cmds \<Longrightarrow>
   \<exists>d s. load_conf e = Inr (ConfDict d) \<and> d ''categorize'' = Some s \<and> cmds = categorize_jobs s e a"
  by (auto simp: categorize_cmds_def conf_lookup_def out_paths_def make_cmds_map categorize_jobs_def
      split: sum.splits conf_value.splits option.splits)

lemma annotate_cmds_Inr:
  "annotate_cmds e a = Inr cmds \<Longrightarrow>
   \<exists>d s. load_conf e = Inr (ConfDict d) \<and> d ''annotate'' = Some s \<and> cmds = annotate_jobs s e a"
  by (auto simp: annotate_cmds_def conf_lookup_def out_paths_def make_cmds_map annotate_jobs_def
      split: sum.splits conf_value.splits option.splits)

subsection \<open>Properties of the scripts\<close>

text \<open>
  C2 (refinement): a completed annotate run, with any process count, has handed to
  \<^verbatim>\<open>os.system\<close> exactly the commands of the selected window, each once: the
  command for every input of the sorted glob inside \<open>[start_idx, end_idx)\<close>, with
  its derived output path.
\<close>

theorem annotate_runs_window_once:
  assumes "load_conf e = Inr (ConfDict d)" and "d ''annotate'' = Some script"
    and "annotate_main e a (Inr s)"
  shows "mset (spawned s) =
    mset (map (\<lambda>p. annot_cmd script (vep_script a) p (out_path Annotate (out_dir a) p))
      (py_slice (job_source (fs e) (in_dir a)) (start_idx a) (end_idx a)))"
proof -
  have "dispatch (dur e) (num_proc a) (annotate_jobs script e a) (initial_proc e) (Inr s)"
    using assms(3) annotate_main_cmds[OF annotate_cmds_ok[OF assms(1,2)]] by blast
  then show ?thesis
    using dispatch_spawned by (fastforce simp: initial_proc_def annotate_jobs_def window_def)
qed

lemma categorize_cmds_ok:
  assumes "load_conf e = Inr (ConfDict d)" and "d ''categorize'' = Some script"
  shows "categorize_cmds e a = Inr (categorize_jobs script e a)"
  using assms
  by (simp add: categorize_cmds_def conf_lookup_def out_paths_def make_cmds_map categorize_jobs_def)

lemma categorize_main_cmds:
  "categorize_cmds e a = Inr cmds \<Longrightarrow>
   categorize_main e a lr \<longleftrightarrow>
   (case py_makedirs True (fs e) (out_dir a) of
      (l, Some err) \<Rightarrow> lr = (l, Inl err)
    | (l, None) \<Rightarrow> (\<exists>r. dispatch (dur e) (num_proc a) cmds (initial_proc e) r \<and>
        lr = (l, finish_categorize r)))"
  by (auto elim!: categorize_main.cases intro: categorize_main.intros split: prod.splits option.splits)

lemma categorize_main_run:
  assumes "categorize_cmds e a = Inr cmds" and "snd (py_makedirs True (fs e) (out_dir a)) = None"
    and "dispatch (dur e) (num_proc a) cmds (initial_proc e) r"
  shows "categorize_main e a (fst (py_makedirs True (fs e) (out_dir a)), finish_categorize r)"
proof -
  have "py_makedirs True (fs e) (out_dir a) = (fst (py_makedirs True (fs e) (out_dir a)), None)"
    using assms(2) by (simp add: prod_eq_iff)
  from categorize_main.intros(3)[OF assms(1) this assms(3)] show ?thesis .
qed

lemma categorize_main_makedirs_err:
  assumes "categorize_cmds e a = Inr cmds" and "py_makedirs True (fs e) (out_dir a) = (l, Some err)"
  shows "categorize_main e a lr \<longleftrightarrow> lr = (l, Inl err)"
  using categorize_main_cmds[OF assms(1)] assms(2) by simp

text \<open>
  C3 (refinement): a completed categorize run, with any process count, has handed to
  \<^verbatim>\<open>os.system\<close> exactly the categorize commands of the selected window, each once,
  with their \<^verbatim>\<open>.cat_result.txt\<close> output paths.
\<close>

theorem categorize_runs_window_once:
  assumes "load_conf e = Inr (ConfDict d)" and "d ''categorize'' = Some script"
    and "categorize_main e a (l, Inr s)"
  shows "mset (spawned s) =
    mset (map (\<lambda>p. cat_cmd script p (out_path Categorize (out_dir a) p))
      (py_slice (job_source (fs e) (in_dir a)) (start_idx a) (end_idx a)))"
proof -
  obtain r where d: "dispatch (dur e) (num_proc a) (categorize_jobs script e a) (initial_proc e) r"
    and f: "finish_categorize r = Inr s"
    using assms(3) categorize_main_cmds[OF categorize_cmds_ok[OF assms(1,2)]]
    by (auto split: prod.splits option.splits)
  then obtain s' where r: "r = Inr s'" and sp: "spawned s = spawned s'"
    by (cases r) (auto simp: finish_categorize_def)
  have "mset (spawned s') = mset (spawned (initial_proc e)) + mset (categorize_jobs script e a)"
    using d r by (simp add: dispatch_spawned)
  then show ?thesis using sp by (simp add: initial_proc_def categorize_jobs_def window_def)
qed

lemma pool_job_lines:
  assumes "pool_step\<^sup>*\<^sup>* (pool_init procs cmds t0) t"
  shows "list_all job_line (stdout t)"
  using assms
proof (induction rule: rtranclp_induct)
  case base
  then show ?case by (simp add: pool_init_def)
next
  case (step t u)
  from step.hyps(2) step.IH show ?case by (induction rule: pool_step.induct) auto
qed

lemma run_seq_job_lines:
  "list_all job_line (stdout s) \<Longrightarrow> list_all job_line (stdout (run_seq dr cmds s))"
  by (induction cmds arbitrary: s) (auto simp: execute_cmd_def)

lemma dispatch_job_lines:
  assumes "dispatch dr p cmds s (Inr s')" and "list_all job_line (stdout s)"
  shows "list_all job_line (stdout s')"
  using assms(1)
proof (cases rule: dispatch.cases)
  case sequential
  then show ?thesis using run_seq_job_lines[OF assms(2)] by simp
next
  case (pooled t)
  then show ?thesis using assms(2) pool_job_lines[OF pooled(3)] by simp
qed

text \<open>
  C16 (functional): with \<^verbatim>\<open>--num_proc 1\<close> the run is determined: it ends
  normally, having run the commands of the window one after the other in sorted
  input order, each printing its \<^verbatim>\<open>CMD\<close> line and then its done line.
\<close>

theorem annotate_sequential_order:
  assumes "load_conf e = Inr (ConfDict d)" and "d ''annotate'' = Some script" and "num_proc a = 1"
  shows "(\<exists>s. annotate_main e a (Inr s)) \<and>
    (\<forall>r. annotate_main e a r \<longrightarrow> (\<exists>s. r = Inr s \<and> spawned s = annotate_jobs script e a \<and>
         map event_of (stdout s) = seq_events (annotate_jobs script e a)))"
proof -
  have "annotate_main e a r \<longleftrightarrow> r = Inr (run_seq (dur e) (annotate_jobs script e a) (initial_proc e))"
    for r using annotate_main_cmds[OF annotate_cmds_ok[OF assms(1,2)]] assms(3)
    by (auto elim: dispatch.cases intro: dispatch.sequential)
  moreover have "spawned (run_seq (dur e) (annotate_jobs script e a) (initial_proc e)) = annotate_jobs script e a \<and>
      map event_of (stdout (run_seq (dur e) (annotate_jobs script e a) (initial_proc e))) =
      seq_events (annotate_jobs script e a)"
    using run_seq_effects[of "dur e" "annotate_jobs script e a" "initial_proc e"]
    by (simp add: initial_proc_def)
  ultimately show ?thesis by auto
qed

text \<open>
  C35 (error): the configuration document is read and subscripted before any job
  is built, and every way it can fail ends the run: without the file
  \<^verbatim>\<open>../conf/cwas_paths.yaml\<close> (resolved from the parent of the working directory)
  both scripts raise \<^verbatim>\<open>FileNotFoundError\<close>, a file that is not valid YAML
  raises \<^verbatim>\<open>YAMLError\<close> and a document that is not a mapping (an empty file
  loads as \<^verbatim>\<open>None\<close>) raises \<^verbatim>\<open>TypeError\<close> in both scripts, neither having created
  the output directory; a mapping without the script's entry raises
  \<^verbatim>\<open>KeyError\<close> with that key.
\<close>

theorem conf_errors:
  "(conf_files e (conf_path (cwd e)) = None \<longrightarrow>
      (annotate_main e a r \<longleftrightarrow> r = Inl FileNotFoundError) \<and>
      (categorize_main e a lr \<longleftrightarrow> lr = (fs e, Inl FileNotFoundError))) \<and>
   (conf_files e (conf_path (cwd e)) = Some YamlMalformed \<longrightarrow>
      (annotate_main e a r \<longleftrightarrow> r = Inl YAMLError) \<and>
      (categorize_main e a lr \<longleftrightarrow> lr = (fs e, Inl YAMLError))) \<and>
   (load_conf e = Inr (ConfNotDict t) \<longrightarrow>
      (annotate_main e a r \<longleftrightarrow> r = Inl (TypeError t)) \<and>
      (categorize_main e a lr \<longleftrightarrow> lr = (fs e, Inl (TypeError t)))) \<and>
   (load_conf e = Inr (ConfDict d) \<and> d ''annotate'' = None \<longrightarrow>
      (annotate_main e a r \<longleftrightarrow> r = Inl (KeyError ''annotate''))) \<and>
   (load_conf e = Inr (ConfDict d) \<and> d ''categorize'' = None \<longrightarrow>
      (categorize_main e a lr \<longleftrightarrow> lr = (fs e, Inl (KeyError ''categorize''))))"
proof -
  have f: "load_conf e = Inl FileNotFoundError" if "conf_files e (conf_path (cwd e)) = None"
    using that by (simp add: load_conf_def)
  have y: "load_conf e = Inl YAMLError" if "conf_files e (conf_path (cwd e)) = Some YamlMalformed"
    using that by (simp add: load_conf_def)
  have t: "conf_lookup (ConfNotDict t) k = Inl (TypeError t)" for k by (simp add: conf_lookup_def)
  have k: "conf_lookup (ConfDict d) k = Inl (KeyError k)" if "d k = None" for k
    using that by (simp add: conf_lookup_def)
  have both: "(annotate_main e a r \<longleftrightarrow> r = Inl err) \<and> (categorize_main e a lr \<longleftrightarrow> lr = (fs e, Inl err))"
    if "annotate_cmds e a = Inl err" and "categorize_cmds e a = Inl err" for err
    using annotate_main_err[OF that(1)] categorize_main_err[OF that(2)] by blast
  show ?thesis
  proof (intro conjI[of "_ \<longrightarrow> _"] impI)
    assume "conf_files e (conf_path (cwd e)) = None"
    then show "(annotate_main e a r \<longleftrightarrow> r = Inl FileNotFoundError) \<and>
        (categorize_main e a lr \<longleftrightarrow> lr = (fs e, Inl FileNotFoundError))"
      using both load_conf_err_cmds f by blast
  next
    assume "conf_files e (conf_path (cwd e)) = Some YamlMalformed"
    then show "(annotate_main e a r \<longleftrightarrow> r = Inl YAMLError) \<and>
        (categorize_main e a lr \<longleftrightarrow> lr = (fs e, Inl YAMLError))"
      using both load_conf_err_cmds y by blast
  next
    assume "load_conf e = Inr (ConfNotDict t)"
    then show "(annotate_main e a r \<longleftrightarrow> r = Inl (TypeError t)) \<and>
        (categorize_main e a lr \<longleftrightarrow> lr = (fs e, Inl (TypeError t)))"
      using both conf_lookup_err_cmds[OF _ t] by blast
  next
    assume "load_conf e = Inr (ConfDict d) \<and> d ''annotate'' = None"
    then show "annotate_main e a r \<longleftrightarrow> r = Inl (KeyError ''annotate'')"
      using annotate_main_err conf_lookup_err_cmds(1)[OF _ k] by blast
  next
    assume "load_conf e = Inr (ConfDict d) \<and> d ''categorize'' = None"
    then show "categorize_main e a lr \<longleftrightarrow> lr = (fs e, Inl (KeyError ''categorize''))"
      using categorize_main_err conf_lookup_err_cmds(2)[OF _ k] by blast
  qed
qed

text \<open>
  C36 (error): a process count below 1 other than the sequential value ends the run
  with the pool's \<^verbatim>\<open>ValueError\<close>; the commands are built but none is run.
\<close>

theorem annotate_pool_refused:
  assumes "load_conf e = Inr (ConfDict d)" and "d ''annotate'' = Some script" and "num_proc a < 1"
  shows "annotate_main e a r \<longleftrightarrow> r = Inl pool_error"
  using annotate_main_cmds[OF annotate_cmds_ok[OF assms(1,2)]] assms(3)
  by (auto elim: dispatch.cases intro: dispatch.pool_refused)

text \<open>
  C17 (liveness): with the configuration present and a positive process count, the
  annotate run always ends normally, whatever the commands do: it has a run, and every
  run ends with \<open>Inr\<close> (exit status 0); failing tools do not stop the batch.
\<close>

theorem annotate_completes:
  assumes "load_conf e = Inr (ConfDict d)" and "d ''annotate'' = Some script" and "1 \<le> num_proc a"
  shows "(\<exists>s. annotate_main e a (Inr s)) \<and> (\<forall>r. annotate_main e a r \<longrightarrow> (\<exists>s. r = Inr s))"
proof -
  have iff: "annotate_main e a r \<longleftrightarrow> dispatch (dur e) (num_proc a) (annotate_jobs script e a) (initial_proc e) r"
    for r using annotate_main_cmds[OF annotate_cmds_ok[OF assms(1,2)]] .
  obtain s where "dispatch (dur e) (num_proc a) (annotate_jobs script e a) (initial_proc e) (Inr s)"
    using dispatch_total[OF assms(3)] by blast
  moreover have "\<exists>s. r = Inr s" if "dispatch (dur e) (num_proc a) (annotate_jobs script e a) (initial_proc e) r" for r
    using that assms(3) by (cases r) (auto simp: dispatch_Inl)
  ultimately show ?thesis using iff by blast
qed

text \<open>
  C9 (functional): a completed categorize run prints, as its last line, the summary
  \<^verbatim>\<open>[time, Progress] Done\<close>, after every job line.
\<close>

theorem categorize_final_line:
  assumes "categorize_main e a (l, Inr s)"
  shows "\<exists>ls. stdout s = ls @ [AllDoneLine (clock s)] \<and> list_all job_line ls"
proof -
  from assms obtain cmds r where c: "categorize_cmds e a = Inr cmds"
    and d: "dispatch (dur e) (num_proc a) cmds (initial_proc e) r" and f: "finish_categorize r = Inr s"
    by (auto elim: categorize_mainE)
  from f obtain s' where r: "r = Inr s'" and s: "s = s'\<lparr>stdout := stdout s' @ [AllDoneLine (clock s')]\<rparr>"
    by (auto simp: finish_categorize_def split: sum.splits)
  have "list_all job_line (stdout s')"
    using dispatch_job_lines[of "dur e" "num_proc a" cmds "initial_proc e" s'] d r
    by (simp add: initial_proc_def)
  then show ?thesis using s by simp
qed

text \<open>
  An annotate run prints no final summary line: every line it prints
  is a job's \<^verbatim>\<open>CMD\<close> or done line.
\<close>

lemma annotate_no_final_line:
  assumes "annotate_main e a (Inr s)"
  shows "list_all job_line (stdout s)"
proof -
  from assms obtain cmds where "annotate_cmds e a = Inr cmds"
    and "dispatch (dur e) (num_proc a) cmds (initial_proc e) (Inr s)"
    by (auto elim: annotate_mainE)
  then show ?thesis using dispatch_job_lines by (fastforce simp: initial_proc_def)
qed

text \<open>
  C37 (error): when the pool refuses the process count, the categorize run ends with
  the \<^verbatim>\<open>ValueError\<close> but keeps the directories \<^verbatim>\<open>os.makedirs\<close> has already
  created.
\<close>

theorem categorize_refused_after_makedirs:
  assumes "load_conf e = Inr (ConfDict d)" and "d ''categorize'' = Some script" and "num_proc a < 1"
    and "py_makedirs True (fs e) (out_dir a) = (l, None)"
  shows "categorize_main e a lr \<longleftrightarrow> lr = (l, Inl pool_error)"
proof -
  have "dispatch (dur e) (num_proc a) cmds s r \<longleftrightarrow> r = Inl pool_error" for cmds s r
    using assms(3) by (cases r) (auto simp: dispatch_Inl intro: dispatch.pool_refused elim: dispatch.cases)
  then show ?thesis
    using categorize_main_cmds[OF categorize_cmds_ok[OF assms(1,2)]] assms(4)
    by (auto simp: finish_categorize_def)
qed

text \<open>
  C19 (error): \<^verbatim>\<open>os.makedirs\<close> runs after the configuration is read and before any
  command: an empty \<^verbatim>\<open>--out_dir\<close> ends the categorize run with
  \<^verbatim>\<open>FileNotFoundError\<close>, and an output path that names an existing file ends it with
  \<^verbatim>\<open>FileExistsError\<close> although \<^verbatim>\<open>exist_ok=True\<close>; in both cases nothing is created
  and no command runs.
\<close>

theorem categorize_out_dir_errors:
  assumes "load_conf e = Inr (ConfDict d)" and "d ''categorize'' = Some script"
  shows "(out_dir a = [] \<longrightarrow> (categorize_main e a lr \<longleftrightarrow> lr = (fs e, Inl FileNotFoundError))) \<and>
    (out_dir a = mk_path rel (ms @ [n]) \<and> list_all path_name ms \<and> path_name n \<and>
     (mk_path rel ms = [] \<or> py_isdir (fs e) (mk_path rel ms)) \<and>
     py_exists (fs e) (out_dir a) \<and> \<not> py_isdir (fs e) (out_dir a) \<longrightarrow>
       (categorize_main e a lr \<longleftrightarrow> lr = (fs e, Inl FileExistsError)))"
proof -
  have c: "categorize_main e a lr \<longleftrightarrow> lr = (l, Inl err)"
    if "py_makedirs True (fs e) (out_dir a) = (l, Some err)" for lr l err
    using that categorize_cmds_ok[OF assms, of a]
    by (auto elim!: categorize_main.cases intro: categorize_main.intros)
  show ?thesis
  proof (intro conjI impI)
    assume "out_dir a = []"
    then show "categorize_main e a lr \<longleftrightarrow> lr = (fs e, Inl FileNotFoundError)"
      using c makedirs_empty by simp
  next
    assume h: "out_dir a = mk_path rel (ms @ [n]) \<and> list_all path_name ms \<and> path_name n \<and>
      (mk_path rel ms = [] \<or> py_isdir (fs e) (mk_path rel ms)) \<and>
      py_exists (fs e) (out_dir a) \<and> \<not> py_isdir (fs e) (out_dir a)"
    then have o: "out_dir a = mk_path rel (ms @ [n])" by simp
    have "py_makedirs True (fs e) (mk_path rel (ms @ [n])) = (fs e, Some FileExistsError)"
      by (rule makedirs_onto_file) (use h o in auto)
    then have "py_makedirs True (fs e) (out_dir a) = (fs e, Some FileExistsError)" using o by simp
    then show "categorize_main e a lr \<longleftrightarrow> lr = (fs e, Inl FileExistsError)" using c by simp
  qed
qed

subsection \<open>Witnesses\<close>

lemma example_load_conf: "load_conf example_env = Inr (ConfDict example_conf)"
  by (simp add: load_conf_def example_env_def conf_path_def py_split_head_def py_basename_def py_join_def
      py_endswith_def)

lemma example_conf_annotate: "example_conf ''annotate'' = Some ''annotate.py''"
  and example_conf_categorize: "example_conf ''categorize'' = Some ''categorize.py''"
  by (simp_all add: example_conf_def)

lemma example_makedirs: "snd (py_makedirs True (fs example_env) ''out'') = None"
  by (simp add: makedirs_eval example_env_def)

lemma example_categorize_run:
  "categorize_main example_env example_args
     (fst (py_makedirs True (fs example_env) (out_dir example_args)),
      finish_categorize (Inr (run_seq (dur example_env) (categorize_jobs ''categorize.py'' example_env example_args)
        (initial_proc example_env))))"
  by (rule categorize_main_run[OF categorize_cmds_ok[OF example_load_conf example_conf_categorize]])
    (use example_makedirs in \<open>simp add: example_args_def\<close>, rule dispatch.sequential, simp add: example_args_def)

lemma example_window: "window example_env a = py_slice [''in/a.vcf'', ''in/b.vcf'', ''in/c.vcf''] (start_idx a) (end_idx a)"
  if "in_dir a = ''in''" for a
  using that by (simp add: window_def example_env_def job_source_def py_glob_def glob1_def glob_dir_def
      glob_pattern_def py_split_head_def py_basename_def glob_hidden_def fnmatch_vcf_def py_endswith_def py_join_def)

lemma example_jobs:
  "annotate_jobs ''annotate.py'' example_env example_args = [''annotate.py -i in/b.vcf -o out/b.annot.vcf --vep vep;'']"
  using example_window[of example_args]
  by (simp add: annotate_jobs_def example_args_def py_slice_def py_slice_index_def out_path_def out_name_def
      out_suffix_def py_replace_def py_basename_def annot_cmd_def)

lemma example_cat_jobs:
  "categorize_jobs ''categorize.py'' example_env example_args = [''categorize.py -i in/b.vcf -o out/b.cat_result.txt;'']"
  using example_window[of example_args]
  by (simp add: categorize_jobs_def example_args_def py_slice_def py_slice_index_def out_path_def out_name_def
      out_suffix_def py_replace_def py_basename_def cat_cmd_def)

abbreviation example_run :: proc where
  "example_run \<equiv> run_seq (dur example_env) (annotate_jobs ''annotate.py'' example_env example_args)
     (initial_proc example_env)"

lemma example_annotate_main: "annotate_main example_env example_args (Inr example_run)"
  by (rule annotate_main.intros(2)[OF annotate_cmds_ok[OF example_load_conf example_conf_annotate]])
    (rule dispatch.sequential, simp add: example_args_def)

theorem annotate_runs_window_once_witness:
  "mset (spawned example_run) =
   mset (map (\<lambda>p. annot_cmd ''annotate.py'' ''vep'' p (out_path Annotate ''out'' p))
     (py_slice (job_source (fs example_env) ''in'') 1 2))"
  using annotate_runs_window_once[OF example_load_conf example_conf_annotate example_annotate_main]
  by (simp add: example_args_def)

theorem annotate_sequential_order_witness:
  "\<exists>s. annotate_main example_env example_args (Inr s) \<and>
     spawned s = [''annotate.py -i in/b.vcf -o out/b.annot.vcf --vep vep;''] \<and>
     map event_of (stdout s) = seq_events [''annotate.py -i in/b.vcf -o out/b.annot.vcf --vep vep;'']"
proof -
  have n: "num_proc example_args = 1" by (simp add: example_args_def)
  show ?thesis
    using annotate_sequential_order[OF example_load_conf example_conf_annotate n]
    unfolding example_jobs by blast
qed

theorem categorize_runs_window_once_witness:
  "\<exists>l s. categorize_main example_env example_args (l, Inr s) \<and>
     mset (spawned s) = {#''categorize.py -i in/b.vcf -o out/b.cat_result.txt;''#}"
proof -
  let ?s = "run_seq (dur example_env) (categorize_jobs ''categorize.py'' example_env example_args) (initial_proc example_env)"
  let ?s' = "?s\<lparr>stdout := stdout ?s @ [AllDoneLine (clock ?s)]\<rparr>"
  have "categorize_main example_env example_args
      (fst (py_makedirs True (fs example_env) (out_dir example_args)), finish_categorize (Inr ?s))"
    by (rule example_categorize_run)
  then have m: "categorize_main example_env example_args
      (fst (py_makedirs True (fs example_env) (out_dir example_args)), Inr ?s')"
    by (simp add: finish_categorize_def)
  have "mset (spawned ?s') =
    mset (map (\<lambda>p. cat_cmd ''categorize.py'' p (out_path Categorize (out_dir example_args) p))
      (py_slice (job_source (fs example_env) (in_dir example_args)) (start_idx example_args) (end_idx example_args)))"
    by (rule categorize_runs_window_once[OF example_load_conf example_conf_categorize m])
  also have "\<dots> = mset (categorize_jobs ''categorize.py'' example_env example_args)"
    by (simp add: categorize_jobs_def window_def)
  finally have sp: "mset (spawned ?s') = mset (categorize_jobs ''categorize.py'' example_env example_args)" .
  have eq: "mset (categorize_jobs ''categorize.py'' example_env example_args) =
      {#''categorize.py -i in/b.vcf -o out/b.cat_result.txt;''#}"
    unfolding example_cat_jobs by simp
  show ?thesis by (intro exI conjI, rule m) (simp only: sp eq)
qed

lemma conf_env_load:
  "conf_files (conf_env c) (conf_path (cwd (conf_env c))) = Some c"
  by (simp add: conf_env_def conf_path_def py_split_head_def py_basename_def py_join_def py_endswith_def
      example_env_def)

theorem conf_errors_witness:
  "categorize_main (example_env\<lparr>conf_files := Map.empty\<rparr>) example_args (fs example_env, Inl FileNotFoundError) \<and>
   annotate_main (conf_env YamlMalformed) example_args (Inl YAMLError) \<and>
   categorize_main (conf_env (YamlDoc (ConfNotDict ''NoneType''))) example_args
     (fs example_env, Inl (TypeError ''NoneType'')) \<and>
   annotate_main (conf_env (YamlDoc (ConfDict Map.empty))) example_args (Inl (KeyError ''annotate'')) \<and>
   categorize_main (conf_env (YamlDoc (ConfDict [''annotate'' \<mapsto> ''a.py'']))) example_args
     (fs example_env, Inl (KeyError ''categorize''))"
  using conf_errors[of "example_env\<lparr>conf_files := Map.empty\<rparr>" example_args _
      "(fs example_env, Inl FileNotFoundError)"]
    conf_errors[of "conf_env YamlMalformed" example_args "Inl YAMLError"]
    conf_errors[of "conf_env (YamlDoc (ConfNotDict ''NoneType''))" example_args _
      "(fs example_env, Inl (TypeError ''NoneType''))" "''NoneType''"]
    conf_errors[of "conf_env (YamlDoc (ConfDict Map.empty))" example_args "Inl (KeyError ''annotate'')"
      _ _ Map.empty]
    conf_errors[of "conf_env (YamlDoc (ConfDict [''annotate'' \<mapsto> ''a.py'']))" example_args _
      "(fs example_env, Inl (KeyError ''categorize''))" _ "[''annotate'' \<mapsto> ''a.py'']"]
  by (simp add: load_conf_def conf_env_load) (simp add: conf_env_def)

theorem annotate_pool_refused_witness:
  "annotate_main example_env (example_args\<lparr>num_proc := 0\<rparr>) (Inl pool_error)"
  using annotate_pool_refused[OF example_load_conf example_conf_annotate, of "example_args\<lparr>num_proc := 0\<rparr>"]
  by simp

theorem annotate_completes_witness:
  "\<exists>s. annotate_main example_env (example_args\<lparr>num_proc := 4\<rparr>) (Inr s)"
  using annotate_completes[OF example_load_conf example_conf_annotate, of "example_args\<lparr>num_proc := 4\<rparr>"]
  by simp

theorem categorize_final_line_witness:
  "\<exists>l s. categorize_main example_env example_args (l, Inr s) \<and>
     (\<exists>ls. stdout s = ls @ [AllDoneLine 1] \<and> list_all job_line ls)"
proof -
  let ?s = "run_seq (dur example_env) (categorize_jobs ''categorize.py'' example_env example_args) (initial_proc example_env)"
  let ?s' = "?s\<lparr>stdout := stdout ?s @ [AllDoneLine (clock ?s)]\<rparr>"
  have "categorize_main example_env example_args
      (fst (py_makedirs True (fs example_env) (out_dir example_args)), finish_categorize (Inr ?s))"
    by (rule example_categorize_run)
  then have m: "categorize_main example_env example_args
      (fst (py_makedirs True (fs example_env) (out_dir example_args)), Inr ?s')"
    by (simp add: finish_categorize_def)
  have c: "clock ?s' = 1"
    unfolding example_cat_jobs by (simp add: initial_proc_def example_env_def execute_cmd_def)
  show ?thesis using categorize_final_line[OF m] m c by metis
qed

theorem categorize_refused_after_makedirs_witness:
  "(categorize_main example_env (example_args\<lparr>num_proc := 0\<rparr>)
     (fst (py_makedirs True (fs example_env) ''out''), Inl pool_error)) \<and>
   py_isdir (fst (py_makedirs True (fs example_env) ''out'')) ''out''"
proof -
  have md: "py_makedirs True (fs example_env) (out_dir (example_args\<lparr>num_proc := 0\<rparr>)) =
      (fst (py_makedirs True (fs example_env) ''out''), None)"
    using example_makedirs by (simp add: example_args_def prod_eq_iff)
  have "num_proc (example_args\<lparr>num_proc := 0\<rparr>) < 1" by simp
  then show ?thesis
    using categorize_refused_after_makedirs[OF example_load_conf example_conf_categorize _ md]
    by (simp add: makedirs_eval example_env_def)
qed

theorem categorize_out_dir_errors_witness:
  "categorize_main (example_env\<lparr>fs := [''.'' \<mapsto> [''in'', ''out'']]\<rparr>) example_args
     ([''.'' \<mapsto> [''in'', ''out'']], Inl FileExistsError) \<and>
   categorize_main example_env (example_args\<lparr>out_dir := []\<rparr>) (fs example_env, Inl FileNotFoundError)"
proof -
  have l: "load_conf (example_env\<lparr>fs := [''.'' \<mapsto> [''in'', ''out'']]\<rparr>) = Inr (ConfDict example_conf)"
    using example_load_conf by (simp add: load_conf_def)
  have "out_dir example_args = mk_path True ([] @ [''out''])"
    by (simp add: example_args_def mk_path_def py_join_def)
  moreover have "path_name ''out''" by (simp add: path_name_def)
  moreover have "py_exists [''.'' \<mapsto> [''in'', ''out'']] ''out'' \<and> \<not> py_isdir [''.'' \<mapsto> [''in'', ''out'']] ''out''"
    by (simp add: py_exists_def py_isdir_def parent_dir_def os_path_def py_split_head_def py_basename_def)
  ultimately show ?thesis
    using categorize_out_dir_errors[OF l example_conf_categorize, where a=example_args and lr="([''.'' \<mapsto> [''in'', ''out'']], Inl FileExistsError)" and rel=True
        and ms="[]" and n="''out''"]
      categorize_out_dir_errors[OF example_load_conf example_conf_categorize,
        where a="example_args\<lparr>out_dir := []\<rparr>" and lr="(fs example_env, Inl FileNotFoundError)"]
    by (simp_all add: mk_path_def example_args_def)
qed

end
