(* ===== verification/Spec2Isabelle.thy ===== *)
theory Spec2Isabelle
  imports Scripts
begin

text \<open>
  \<^bold>\<open>A verification model of the CWAS batch scripts.\<close>

  The repository's core is two near-identical Python scripts,
  \<^verbatim>\<open>src/scripts/annotate_mp.py\<close> and \<^verbatim>\<open>src/scripts/categorize_mp.py\<close>. Each
  reads a path configuration, globs the \<^verbatim>\<open>*.vcf\<close> files of an input directory,
  sorts them, keeps an index window \<^verbatim>\<open>[start_idx:end_idx]\<close>, derives for each input
  an output path and one shell command line, and runs the commands with
  \<^verbatim>\<open>execute_cmd\<close>, either in a loop (\<^verbatim>\<open>--num_proc 1\<close>) or through
  \<^verbatim>\<open>multiprocessing.Pool.map\<close>, printing a \<^verbatim>\<open>CMD\<close> line before and a
  \<^verbatim>\<open>Progress ... is done.\<close> line after each command. The data flow is
  directory \<open>\<rightarrow>\<close> job source \<open>\<rightarrow>\<close> window \<open>\<rightarrow>\<close> job builder \<open>\<rightarrow>\<close> dispatcher.

  \<^bold>\<open>Theories.\<close>
  \<^item> \<open>Prelude\<close>: the types \<open>path\<close> and \<open>cmd\<close> (Python \<open>str\<close> as \<open>string\<close>), the
    exceptions that end a run (\<open>py_error\<close>), shared list lemmas.
  \<^item> \<open>PyStr\<close>: the Python built-ins the scripts call: \<open>py_replace\<close>
    (\<^verbatim>\<open>str.replace\<close>, every occurrence, via \<open>replace_occ\<close>), \<open>py_endswith\<close>,
    \<open>py_basename\<close>, \<open>py_split_head\<close> and \<open>py_join\<close> (\<^verbatim>\<open>os.path\<close> on POSIX), with
    the lemmas on replacing a pattern at the end of a string and the generic round trip
    of two replacements.
  \<^item> \<open>JobSource\<close>: \<^verbatim>\<open>sorted(glob(f'{in_dir}/*.vcf'))\<close> (line 40 / 38) over a
    directory-listing snapshot \<open>listing\<close> (\<open>glob_dir\<close>, \<open>glob1\<close>, \<open>py_glob\<close>,
    \<open>job_source\<close>). Its lemmas: the result is the sorted set of matching paths, does
    not depend on the listing order, equals any sorted permutation (so the model's
    sort stands for Python's), is empty for a missing directory, and yields only
    visible \<^verbatim>\<open>.vcf\<close> entries.
  \<^item> \<open>OsMakedirs\<close>: \<^verbatim>\<open>os.makedirs(args.out_dir, exist_ok=True)\<close> (categorize line 40)
    as CPython 3.8's recursive \<open>py_makedirs\<close> on the snapshot (a directory is a key, a
    file an entry that is not a key), over \<open>py_mkdir\<close> (\<^verbatim>\<open>os.mkdir\<close> with its
    \<^verbatim>\<open>FileExistsError\<close>, \<^verbatim>\<open>NotADirectoryError\<close> and \<^verbatim>\<open>FileNotFoundError\<close>, after the
    \<open>mkdir\<close> transition of the Unix file-system model), \<open>py_exists\<close>, \<open>py_isdir\<close> and
    the \<open>exist_ok\<close> handler \<open>makedirs_mkdir\<close>; termination by the length of the path.
    It returns the snapshot it leaves with the exception it raises. Its lemmas, for
    paths built from ordinary names (\<open>mk_path\<close>): on a consistent snapshot
    (\<open>wf_listing\<close>) with no file on the path every prefix becomes a directory and
    nothing is lost; a file on the path raises \<^verbatim>\<open>FileExistsError\<close> or
    \<^verbatim>\<open>NotADirectoryError\<close> and creates nothing; an empty path raises
    \<^verbatim>\<open>FileNotFoundError\<close>; and \<open>py_makedirs\<close> keeps the snapshot consistent on every
    path (computation induction).
  \<^item> \<open>RangeSelector\<close>: \<^verbatim>\<open>paths[start_idx:end_idx]\<close> (line 41 / 39) as \<open>py_slice\<close> with
    CPython's index adjustment for \<open>int\<close> bounds. Its lemmas: refinement of the spec's
    window, the length formula, composition of adjacent windows, commutation with
    \<open>map\<close>, negative and default bounds.
  \<^item> \<open>Argparse\<close>: the command line (lines 17--30 / 17--28). Each parser is the
    list of its \<^verbatim>\<open>add_argument\<close> calls (\<open>annotate_parser\<close>,
    \<open>categorize_parser\<close>), and \<open>parse_args\<close> is CPython 3.8's algorithm for
    parsers whose options all take one value: classification of each string
    (\<open>parse_optional\<close>: exact option strings, \<^verbatim>\<open>--opt=value\<close>, unique prefixes
    of long options, \<^verbatim>\<open>-Xvalue\<close>, negative numbers, \<^verbatim>\<open>--\<close>), left-to-right
    consumption (\<open>consume\<close>) with \<^verbatim>\<open>_get_values\<close> (\<open>get_values\<close>: the first
    \<^verbatim>\<open>--\<close> is removed from an option's strings, so the explicit value
    \<^verbatim>\<open>--\<close> stores the empty list, else \<^verbatim>\<open>int()\<close> conversion, \<open>py_int\<close>), then the
    required and unrecognised checks; errors are \<^verbatim>\<open>SystemExit(2)\<close>, help is
    \<^verbatim>\<open>SystemExit(0)\<close>. \<open>args_of\<close> reads the namespace as \<^verbatim>\<open>main\<close> reads
    \<^verbatim>\<open>args\<close> (an empty list as the text \<^verbatim>\<open>[]\<close> the f-strings make of it). Its
    lemmas: \<^verbatim>\<open>int()\<close> reads back \<^verbatim>\<open>str()\<close>, a written command line parses
    back to its arguments when no value is \<^verbatim>\<open>--\<close>, every parsed namespace holds
    for each option a value of its type or the empty list (an invariant of the
    consumption loop), the value \<^verbatim>\<open>--\<close> gives the empty list, negative numbers
    are accepted as values, and unique prefixes as option names.
  \<^item> \<open>JobBuilder\<close>: the output path f-string (\<open>out_name\<close>, \<open>out_path\<close>,
    \<open>out_paths\<close>; lines 42--43 / 41--42), the command f-strings \<open>annot_cmd\<close> and
    \<open>cat_cmd\<close> (lines 48 / 47) and the \<^verbatim>\<open>zip\<close> loop \<open>make_cmds\<close>, with a model
    \<open>sh_split\<close> of the shell's word splitting for lines without special characters.
    Its lemmas: the annotate output name round-trips (so it is injective), the
    categorize one maps \<open>s.vcf.vcf\<close> and \<open>s.cat_result.txt.vcf\<close> to one name for
    every stem, the mode's suffix always ends the name, and command lines split back
    into the intended argument vector, while a blank in a path splits it in two.
  \<^item> \<open>Dispatcher\<close>: \<open>execute_cmd\<close> (lines 62--65) on a process state \<open>proc\<close> (clock,
    printed \<open>line\<close>s, commands handed to \<^verbatim>\<open>os.system\<close>), the sequential loop
    \<open>run_seq\<close> (lines 52--54), and \<^verbatim>\<open>Pool.map\<close> (lines 55--59): \<open>pool_chunksize\<close> and
    \<open>py_chunks\<close> as CPython computes them, a FIFO task queue and one state per worker,
    and the interleaving step relation \<open>pool_step\<close> (take a chunk, start a command,
    finish it; time may pass before each line). \<open>dispatch\<close> is the branch on
    \<^verbatim>\<open>num_proc\<close>, including \<^verbatim>\<open>Pool\<close>'s \<^verbatim>\<open>ValueError\<close>. Its lemmas, by rule
    induction over reachable states with the invariant \<open>pool_inv\<close> (pending, running
    and done commands partition the list; started = running + done; spawned = started):
    the task queue holds at most \<open>4 * processes\<close> non-empty chunks that concatenate to
    the list, every command runs exactly once, the pool always can and always does finish (a
    measure \<open>pool_measure\<close> decreases on every step, and a non-final state can step),
    no job is reported done before it is started, at most
    \<open>processes\<close> commands are running (started and not yet reported done) at any point
    of any interleaving, with two processes and two distinct commands some complete
    schedule reports the commands out of list order (spec section 5: completion order
    is unconstrained), and a single-worker pool prints what the sequential loop prints. A deterministic
    scheduler \<open>run_sched\<close> with fuel evaluates concrete runs for the witnesses; fuel
    20 is enough for the three-command example (each command takes three steps plus
    the final check).
  \<^item> \<open>Scripts\<close>: the two \<^verbatim>\<open>main\<close> functions as relations \<open>annotate_main\<close> and
    \<open>categorize_main\<close> from the environment (\<open>env\<close>: working directory, listing,
    configuration files as \<^verbatim>\<open>yaml.safe_load\<close> reads them, command durations) and
    the parsed arguments (\<open>args\<close>) to \<open>py_error + proc\<close>: configuration load and
    lookup (\<^verbatim>\<open>FileNotFoundError\<close>, \<^verbatim>\<open>YAMLError\<close>, \<^verbatim>\<open>TypeError\<close> for a document
    that is not a mapping, \<^verbatim>\<open>KeyError\<close>), window, \<^verbatim>\<open>os.makedirs\<close> (categorize), commands, dispatch, and
    the final \<^verbatim>\<open>Done\<close> line (categorize). Its lemmas: a completed run of either
    script executed exactly the window's commands once each, the sequential run is
    determined and in order, the missing configuration file (\<open>conf_path\<close>, the
    \<^verbatim>\<open>conf\<close> directory beside the working directory), the malformed or
    non-mapping configuration, the missing key and the process-count errors, completion with exit status 0
    whatever the tools do, the final line, the directory created before a refused
    pool, the categorize run's \<^verbatim>\<open>os.makedirs\<close> errors (an empty output directory, an
    output path that is a file). \<open>annotate_cli\<close> and \<open>categorize_cli\<close> run a
    script on a command line: \<open>parse_args\<close>, then \<^verbatim>\<open>main\<close>'s body on the parsed
    arguments, or, when an attribute \<^verbatim>\<open>main\<close> uses as an index, a process count
    or a path for \<^verbatim>\<open>os.makedirs\<close> is the empty list, the configuration read and
    the \<^verbatim>\<open>TypeError\<close> of the first statement that uses it (\<open>annotate_refused\<close>,
    \<open>categorize_refused\<close>).
  \<^item> This theory: the spec's concrete scenarios over a ten-file directory (the pool
    scenario as the command line \<^verbatim>\<open>-i in -o out -p 4\<close>), the distinctness of
    the output paths of a window in annotate mode, and the exit status of each script
    on any command line (\<open>scripts_exit_status\<close>: 0 exactly for the help or a run
    with a parsed command line without an empty-list attribute that \<^verbatim>\<open>main\<close>
    cannot use, the script's configuration entry, (categorize) a successful
    \<^verbatim>\<open>os.makedirs\<close> and a positive process count; 2 exactly for a rejected
    command line; 1 otherwise), and the run on \<^verbatim>\<open>-o--\<close> (\<open>dash_out_dir\<close>).

  \<^bold>\<open>Not modelled.\<close> The parts of \<^verbatim>\<open>argparse\<close> these parsers never reach
  (positional arguments, \<^verbatim>\<open>nargs\<close> other than one, the text of the help and of the
  messages), the decoding of \<^verbatim>\<open>sys.argv\<close> and non-ASCII digits and blanks in
  \<^verbatim>\<open>int()\<close>, the YAML grammar
  (library code: a configuration file is given by what \<^verbatim>\<open>yaml.safe_load\<close> makes of
  it, a document or a \<^verbatim>\<open>YAMLError\<close>), the external tools (opaque commands
  with a duration; their exit status is discarded by the code), \<^verbatim>\<open>utils\<close>
  (\<^verbatim>\<open>get_curr_time\<close> reads the model's clock and is rendered by \<open>render_line\<close>'s
  format argument; the categorize script's imported \<^verbatim>\<open>execute_cmd\<close> is taken to be
  the annotate script's, as the spec describes it), glob metacharacters in the input
  directory, permissions, symbolic links and \<^verbatim>\<open>..\<close> or repeated slashes in the
  output directory (\<^verbatim>\<open>os.makedirs\<close>'s theorems are stated for paths of ordinary
  names; the pattern \<^verbatim>\<open>[]/*.vcf\<close> of an input directory given as \<^verbatim>\<open>--\<close> is
  read literally, which is what \<^verbatim>\<open>glob\<close> does on a consistent listing), the
  files the tools write, worker processes that crash, the encoding of the printed
  lines (a file name that is not valid UTF-8 can make \<^verbatim>\<open>print\<close> raise), and
  configuration read errors other than a missing file (a directory, no permission,
  undecodable bytes). The printed lines form one
  sequence in which every line carries the model's clock when it is appended; real
  workers read the time before printing through their own buffered output, so no
  property is stated about the time order of lines across workers. Of the two
  scripts only the module docstrings, the imports and blank lines are outside the
  map; the \<^verbatim>\<open>utils\<close> module they import is not part of the repository, so
  every statement of the two scripts that the repository holds is modelled and what
  is left above is library or external behaviour.

  \<^bold>\<open>Findings.\<close> In categorize mode two inputs can write one output file
  (\<open>cat_out_paths_collide\<close>); a path with a blank breaks the command line
  (\<open>annot_cmd_blank_in_path\<close>); a missing input directory, a negative start index
  and a non-\<^verbatim>\<open>.vcf\<close> name raise none of the errors the spec names
  (\<open>job_source_missing_dir\<close>, \<open>py_slice_negative_start\<close>,
  \<open>job_source_inputs\<close>); the default end index drops inputs past the 10000th
  (\<open>py_slice_defaults\<close>); the command line accepts a negative index
  (\<open>parse_args_negative_index\<close>), abbreviated option names and the value
  \<^verbatim>\<open>--\<close>, which becomes an empty list: \<^verbatim>\<open>-o--\<close> ends categorize with a
  \<^verbatim>\<open>TypeError\<close> and sends annotate's outputs to a directory named \<^verbatim>\<open>[]\<close>
  (\<open>parse_args_double_dash\<close>, \<open>dash_out_dir\<close>); annotate prints no
  final summary line; the tools' exit status is discarded, so a run ends
  normally whatever they return (\<open>annotate_completes\<close>); a process count below 1
  reaches \<^verbatim>\<open>Pool\<close>'s \<^verbatim>\<open>ValueError\<close> after categorize has created its output
  directory (\<open>categorize_refused_after_makedirs\<close>); an output directory that
  names a file ends categorize with \<^verbatim>\<open>FileExistsError\<close> despite \<^verbatim>\<open>exist_ok\<close>, and
  an empty one with \<^verbatim>\<open>FileNotFoundError\<close> (\<open>categorize_out_dir_errors\<close>).
\<close>

text \<open>A directory with ten inputs, run with four processes over the default window.\<close>

definition ten_names :: "string list" where
  "ten_names = [''f9.vcf'', ''f8.vcf'', ''f7.vcf'', ''f6.vcf'', ''f5.vcf'',
                ''f4.vcf'', ''f3.vcf'', ''f2.vcf'', ''f1.vcf'', ''f0.vcf'']"

definition ten_env :: env where
  "ten_env = example_env\<lparr>fs := [''.'' \<mapsto> [''in''], ''in'' \<mapsto> ten_names]\<rparr>"

definition ten_args :: args where
  "ten_args = example_args\<lparr>num_proc := 4, start_idx := 0, end_idx := 10000\<rparr>"

text \<open>The spec's command line for it: \<^verbatim>\<open>annotate_mp.py -i in -o out -p 4\<close>.\<close>

definition ten_argv :: "string list" where
  "ten_argv = [''-i'', ''in'', ''-o'', ''out'', ''-p'', ''4'']"

text \<open>The ten annotate commands the spec expects, one per input, in sorted order.\<close>

definition ten_jobs :: "cmd list" where
  "ten_jobs = map (\<lambda>k. ''annotate.py -i in/f'' @ [k] @ ''.vcf -o out/f'' @ [k] @ ''.annot.vcf --vep vep;'')
     ''0123456789''"

subsection \<open>Evaluation of the fixture\<close>

lemma ten_load_conf: "load_conf ten_env = Inr (ConfDict example_conf)"
  by (simp add: ten_env_def load_conf_def example_env_def conf_path_def py_split_head_def
      py_basename_def py_join_def py_endswith_def)

lemma ten_window: "window ten_env ten_args =
  [''in/f0.vcf'', ''in/f1.vcf'', ''in/f2.vcf'', ''in/f3.vcf'', ''in/f4.vcf'',
   ''in/f5.vcf'', ''in/f6.vcf'', ''in/f7.vcf'', ''in/f8.vcf'', ''in/f9.vcf'']"
  by (simp add: window_def ten_env_def ten_args_def example_args_def ten_names_def job_source_def
      py_glob_def glob1_def glob_dir_def glob_pattern_def py_split_head_def py_basename_def
      glob_hidden_def fnmatch_vcf_def py_endswith_def py_join_def py_slice_def py_slice_index_def)

lemma ten_jobs_eval: "annotate_jobs ''annotate.py'' ten_env ten_args = ten_jobs"
  unfolding annotate_jobs_def ten_window
  by (simp add: ten_jobs_def ten_args_def example_args_def out_path_def out_name_def out_suffix_def
      py_replace_def py_basename_def annot_cmd_def)

lemma ten_annotate_main:
  "annotate_main ten_env a r \<longleftrightarrow>
   dispatch (dur ten_env) (num_proc a) (annotate_jobs ''annotate.py'' ten_env a) (initial_proc ten_env) r"
  by (rule annotate_main_cmds[OF annotate_cmds_ok[OF ten_load_conf example_conf_annotate]])

lemma ten_parse:
  "\<exists>ns. parse_args annotate_parser ten_argv = Inr ns \<and> args_of ns = ten_args \<and> \<not> annotate_list_valued ns"
  by (simp add: ten_argv_def ten_args_def example_args_def parse_eval parse_optional_def option_tuples_def
      py_int_def py_strip_def py_isspace_def py_digits_def is_digit_def digit_val_def
      annotate_list_valued_def slice_list_def)

lemma ten_cat_parse:
  "\<exists>ns. parse_args categorize_parser ten_argv = Inr ns \<and> args_of ns = ten_args\<lparr>vep_script := []\<rparr> \<and>
     \<not> categorize_list_valued ns"
  by (simp add: ten_argv_def ten_args_def example_args_def parse_eval parse_optional_def option_tuples_def
      py_int_def py_strip_def py_isspace_def py_digits_def is_digit_def digit_val_def
      categorize_list_valued_def slice_list_def)

text \<open>The command line \<^verbatim>\<open>--in_dir=d -o--\<close>: the output directory is the empty list.\<close>

lemma dash_out_parse_annotate:
  assumes "d \<noteq> ''--''"
  shows "\<exists>ns. parse_args annotate_parser [''--in_dir='' @ d, ''-o--''] = Inr ns \<and> \<not> annotate_list_valued ns \<and>
    args_of ns = \<lparr>in_dir = d, out_dir = ''[]'', num_proc = 1, vep_script = ''vep'', start_idx = 0, end_idx = 10000\<rparr>"
proof -
  have p1: "parse_optional annotate_parser (''--in_dir='' @ d) =
      Inr (Some (lookup_opt annotate_parser ''--in_dir'', ''--in_dir'', Some d))"
    using parse_optional_explicit[OF annotate_parser_no_eq, of "''--in_dir''" _ d] by (simp add: parser_defs)
  have n: "''--in_dir='' @ d \<noteq> ''--''" by simp
  have c: "classify annotate_parser [''--in_dir='' @ d, ''-o--''] =
      Inr [TO (lookup_opt annotate_parser ''--in_dir'', ''--in_dir'', Some d) (''--in_dir='' @ d),
           TO (lookup_opt annotate_parser ''-o'', ''-o'', Some ''--'') ''-o--'']"
    unfolding classify_Cons[OF n p1]
    by (simp add: parse_optional_def option_tuples_def before_eq_def after_eq_def py_startswith_def
        negative_number_def parser_defs)
  show ?thesis unfolding parse_args_def c using assms[THEN not_sym]
    by (simp add: parse_eval annotate_list_valued_def slice_list_def)
qed

lemma dash_out_parse_categorize:
  assumes "d \<noteq> ''--''"
  shows "\<exists>ns. parse_args categorize_parser [''--in_dir='' @ d, ''-o--''] = Inr ns \<and>
    categorize_list_valued ns \<and> \<not> slice_list ns \<and> ns ''out_dir'' = Some (PList [])"
proof -
  have p1: "parse_optional categorize_parser (''--in_dir='' @ d) =
      Inr (Some (lookup_opt categorize_parser ''--in_dir'', ''--in_dir'', Some d))"
    using parse_optional_explicit[OF categorize_parser_no_eq, of "''--in_dir''" _ d] by (simp add: parser_defs)
  have n: "''--in_dir='' @ d \<noteq> ''--''" by simp
  have c: "classify categorize_parser [''--in_dir='' @ d, ''-o--''] =
      Inr [TO (lookup_opt categorize_parser ''--in_dir'', ''--in_dir'', Some d) (''--in_dir='' @ d),
           TO (lookup_opt categorize_parser ''-o'', ''-o'', Some ''--'') ''-o--'']"
    unfolding classify_Cons[OF n p1]
    by (simp add: parse_optional_def option_tuples_def before_eq_def after_eq_def py_startswith_def
        negative_number_def parser_defs)
  show ?thesis unfolding parse_args_def c using assms[THEN not_sym]
    by (simp add: parse_eval categorize_list_valued_def slice_list_def)
qed

lemma ten_cli: "annotate_cli ten_env ten_argv r \<longleftrightarrow> annotate_main ten_env ten_args r"
  using ten_parse annotate_cli_parsed by metis

lemma ten_main_runs:
  "(\<exists>s. annotate_main ten_env ten_args (Inr s)) \<and>
   (\<forall>r. annotate_main ten_env ten_args r \<longrightarrow>
      (\<exists>s. r = Inr s \<and> mset (spawned s) = mset ten_jobs \<and> mset (dones (stdout s)) = mset ten_jobs))"
proof -
  have p: "1 \<le> num_proc ten_args" by (simp add: ten_args_def)
  have run: "\<exists>s. r = Inr s \<and> mset (spawned s) = mset ten_jobs \<and> mset (dones (stdout s)) = mset ten_jobs"
    if "annotate_main ten_env ten_args r" for r
  proof -
    have d: "dispatch (dur ten_env) (num_proc ten_args) ten_jobs (initial_proc ten_env) r"
      using that unfolding ten_annotate_main ten_jobs_eval .
    then obtain s where r: "r = Inr s"
      using p by (cases r) (auto simp: dispatch_Inl)
    have "mset (spawned s) = mset (spawned (initial_proc ten_env)) + mset ten_jobs"
      using d r by (simp add: dispatch_spawned)
    moreover have "mset (dones (stdout s)) = mset (dones (stdout (initial_proc ten_env))) + mset ten_jobs"
      using d r by (simp add: dispatch_dones)
    ultimately show ?thesis using r by (simp add: initial_proc_def dones_def)
  qed
  obtain s where "dispatch (dur ten_env) (num_proc ten_args) ten_jobs (initial_proc ten_env) (Inr s)"
    using dispatch_total[OF p] by blast
  then have "annotate_main ten_env ten_args (Inr s)"
    unfolding ten_annotate_main ten_jobs_eval .
  then show ?thesis using run by blast
qed

lemma annotate_main_errors:
  assumes "annotate_main e a (Inl err)"
  shows "exit_status err = 1"
  using assms
proof (cases rule: annotate_main.cases)
  case 1
  then show ?thesis by (rule annotate_cmds_Inl)
next
  case (2 cmds)
  then show ?thesis by (simp add: dispatch_Inl pool_error_def)
qed

lemma dispatch_script_exit:
  "dispatch du p cmds s r \<Longrightarrow> script_exit r = 0 \<longleftrightarrow> 1 \<le> p"
  by (cases r) (auto simp: dispatch_Inl script_exit_def pool_error_def elim: dispatch.cases)

lemma finish_categorize_exit: "script_exit (finish_categorize r) = script_exit r"
  by (cases r) (simp_all add: finish_categorize_def script_exit_def)

lemma annotate_main_exit:
  assumes m: "annotate_main e a r"
  shows "script_exit r = 0 \<longleftrightarrow> (\<exists>d s. load_conf e = Inr (ConfDict d) \<and> d ''annotate'' = Some s \<and> 1 \<le> num_proc a)"
proof (cases "annotate_cmds e a")
  case (Inl err)
  then have "r = Inl err" using annotate_main_err m by blast
  moreover have "\<not> (load_conf e = Inr (ConfDict d) \<and> d ''annotate'' = Some s)" for d s
    using Inl annotate_cmds_ok by fastforce
  ultimately show ?thesis using annotate_cmds_Inl[OF Inl] by (auto simp: script_exit_def)
next
  case (Inr cmds)
  then obtain d sc where "load_conf e = Inr (ConfDict d)" and "d ''annotate'' = Some sc"
    using annotate_cmds_Inr by blast
  moreover have "dispatch (dur e) (num_proc a) cmds (initial_proc e) r"
    using m annotate_main_cmds[OF Inr] by blast
  ultimately show ?thesis using dispatch_script_exit by blast
qed

lemma makedirs_exit_status:
  "snd (py_makedirs ok l name) = Some err \<Longrightarrow> exit_status err = 1"
  using makedirs_errors by fastforce

lemma categorize_main_exit:
  assumes m: "categorize_main e a (l, r)"
  shows "script_exit r = 0 \<longleftrightarrow>
    (\<exists>d s. load_conf e = Inr (ConfDict d) \<and> d ''categorize'' = Some s \<and>
       snd (py_makedirs True (fs e) (out_dir a)) = None \<and> 1 \<le> num_proc a)"
proof (cases "categorize_cmds e a")
  case (Inl err)
  then have "r = Inl err" using categorize_main_err m by blast
  moreover have "\<not> (load_conf e = Inr (ConfDict d) \<and> d ''categorize'' = Some s)" for d s
    using Inl categorize_cmds_ok by fastforce
  ultimately show ?thesis using categorize_cmds_Inl[OF Inl] by (auto simp: script_exit_def)
next
  case (Inr cmds)
  then obtain d sc where c: "load_conf e = Inr (ConfDict d)" "d ''categorize'' = Some sc"
    using categorize_cmds_Inr by blast
  show ?thesis
  proof (cases "snd (py_makedirs True (fs e) (out_dir a))")
    case (Some err)
    then have "r = Inl err" using m categorize_main_cmds[OF Inr]
      by (auto split: prod.splits option.splits)
    then show ?thesis using Some makedirs_exit_status[OF Some] by (simp add: script_exit_def)
  next
    case None
    then obtain r0 where "dispatch (dur e) (num_proc a) cmds (initial_proc e) r0"
      and "r = finish_categorize r0"
      using m categorize_main_cmds[OF Inr] by (auto split: prod.splits)
    then show ?thesis using c None dispatch_script_exit finish_categorize_exit by metis
  qed
qed

lemma categorize_main_errors:
  assumes "categorize_main e a (l, Inl err)"
  shows "exit_status err = 1"
proof (cases "categorize_cmds e a")
  case (Inl err')
  then have "err = err'" using assms categorize_main_err by fastforce
  then show ?thesis using categorize_cmds_Inl[OF Inl] by simp
next
  case (Inr cmds)
  show ?thesis
  proof (cases "snd (py_makedirs True (fs e) (out_dir a))")
    case (Some err')
    then have "err = err'" using assms categorize_main_cmds[OF Inr]
      by (auto split: prod.splits option.splits)
    then show ?thesis using makedirs_exit_status[OF Some] by simp
  next
    case None
    then obtain r0 where "dispatch (dur e) (num_proc a) cmds (initial_proc e) r0"
      and "Inl err = finish_categorize r0"
      using assms categorize_main_cmds[OF Inr] by (auto split: prod.splits)
    then show ?thesis
      by (cases r0) (auto simp: finish_categorize_def dispatch_Inl pool_error_def)
  qed
qed

lemma annotate_main_exit_le: "annotate_main e a r \<Longrightarrow> script_exit r \<le> 1"
  by (cases r) (auto simp: script_exit_def dest: annotate_main_errors)

lemma categorize_main_exit_le: "categorize_main e a (l, r) \<Longrightarrow> script_exit r \<le> 1"
  by (cases r) (auto simp: script_exit_def dest: categorize_main_errors)

lemma tool_path_Inl: "tool_path e k = Inl err \<Longrightarrow> exit_status err = 1"
  by (auto simp: tool_path_def load_conf_def conf_lookup_def
      split: option.splits sum.splits conf_file.splits conf_value.splits)

lemma annotate_refused_exit: "script_exit (annotate_refused e ns) = 1"
  by (auto simp: annotate_refused_def script_exit_def slice_type_error_def pool_type_error_def
      dest: tool_path_Inl split: sum.splits)

lemma categorize_refused_exit: "script_exit (snd (categorize_refused e ns)) = 1"
proof (cases "tool_path e ''categorize''")
  case (Inl err)
  then show ?thesis using tool_path_Inl by (simp add: categorize_refused_def script_exit_def)
next
  case (Inr cs)
  show ?thesis
  proof (cases "snd (py_makedirs True (fs e) (py_str_attr (ns ''out_dir'')))")
    case None
    then show ?thesis using Inr
      by (auto simp: categorize_refused_def script_exit_def slice_type_error_def pool_type_error_def
          makedirs_type_error_def split: prod.splits)
  next
    case (Some err)
    then have "exit_status err = 1" by (rule makedirs_exit_status)
    then show ?thesis using Inr Some
      by (auto simp: categorize_refused_def script_exit_def slice_type_error_def makedirs_type_error_def
          split: prod.splits)
  qed
qed

subsection \<open>Properties across the components\<close>

text \<open>
  C12 (safety): in annotate mode, the inputs of one run are written to pairwise
  different output files: the job source lists distinct visible \<^verbatim>\<open>.vcf\<close> names of
  one directory, the window keeps a sub-list, and the output name determines the input
  name.
\<close>

theorem annotate_window_outputs_distinct:
  assumes "fs e (glob_dir (in_dir a)) = Some names" and "valid_listing names"
  shows "distinct (out_paths Annotate (out_dir a) (window e a))"
proof -
  have "distinct (out_paths Annotate (out_dir a) (job_source (fs e) (in_dir a)))"
    by (rule annot_out_paths_distinct[of "fs e" "in_dir a" names, OF assms])
  then have "distinct (py_slice (out_paths Annotate (out_dir a) (job_source (fs e) (in_dir a)))
      (start_idx a) (end_idx a))" by (rule distinct_py_slice)
  then show ?thesis
    by (simp add: window_def out_paths_def py_slice_take_drop take_map drop_map)
qed

text \<open>
  C11 (liveness): the spec's pool scenario, run as the command line
  \<^verbatim>\<open>-i in -o out -p 4\<close> on a directory of ten inputs: the script always ends
  normally (exit status 0), and every run has started and reported done each of the
  ten commands exactly once.
\<close>

theorem ten_inputs_four_procs:
  "(\<exists>s. annotate_cli ten_env ten_argv (Inr s)) \<and>
   (\<forall>r. annotate_cli ten_env ten_argv r \<longrightarrow>
      (\<exists>s. r = Inr s \<and> mset (spawned s) = mset ten_jobs \<and> mset (dones (stdout s)) = mset ten_jobs))"
  unfolding ten_cli by (rule ten_main_runs)

text \<open>
  C38 (functional): a window whose start index is not before its end index selects
  no input: a completed annotate run has run no command and reported no job done
  (the spec's scenario with start 5 and end 2).
\<close>

theorem annotate_empty_window:
  assumes "load_conf e = Inr (ConfDict d)" and "d ''annotate'' = Some script"
    and "0 \<le> end_idx a" and "end_idx a \<le> start_idx a"
    and "annotate_main e a (Inr s)"
  shows "spawned s = [] \<and> dones (stdout s) = []"
proof -
  have w: "annotate_jobs script e a = []"
    using py_slice_start_ge_end[OF assms(3,4)] by (simp add: annotate_jobs_def window_def)
  have d: "dispatch (dur e) (num_proc a) [] (initial_proc e) (Inr s)"
    using assms(5) annotate_main_cmds[OF annotate_cmds_ok[OF assms(1,2)]] w by simp
  have "mset (spawned s) = mset (spawned (initial_proc e)) + mset []"
    by (rule dispatch_spawned[OF d])
  moreover have "mset (dones (stdout s)) = mset (dones (stdout (initial_proc e))) + mset []"
    by (rule dispatch_dones[OF d])
  ultimately show ?thesis by (simp add: initial_proc_def dones_def)
qed

text \<open>
  C18 (error): each script, run on any command line, exits with status 0 exactly when
  it printed its help, or when the command line parses, no integer option (and, for
  categorize, not the output directory) was given the value \<^verbatim>\<open>--\<close>, the
  configuration has the script's entry, (categorize) \<^verbatim>\<open>os.makedirs\<close> succeeds
  and the process count is at least 1; then it exits 0 whatever the tools return and
  even with no input. It exits 2 exactly when \<^verbatim>\<open>argparse\<close> rejects the command
  line, and 1 on every other outcome (an exception).
\<close>

theorem scripts_exit_status:
  assumes "annotate_cli e argv r" and "categorize_cli e argv' (l, r')"
  shows "(script_exit r = 0 \<longleftrightarrow> parse_args annotate_parser argv = Inl HelpExit \<or>
      (\<exists>ns d s. parse_args annotate_parser argv = Inr ns \<and> \<not> annotate_list_valued ns \<and>
         load_conf e = Inr (ConfDict d) \<and> d ''annotate'' = Some s \<and> 1 \<le> num_proc (args_of ns))) \<and>
    (script_exit r = 2 \<longleftrightarrow> (\<exists>x. parse_args annotate_parser argv = Inl (ArgumentError x))) \<and>
    script_exit r \<le> 2 \<and>
    (script_exit r' = 0 \<longleftrightarrow> parse_args categorize_parser argv' = Inl HelpExit \<or>
      (\<exists>ns d s. parse_args categorize_parser argv' = Inr ns \<and> \<not> categorize_list_valued ns \<and>
         load_conf e = Inr (ConfDict d) \<and> d ''categorize'' = Some s \<and>
         snd (py_makedirs True (fs e) (out_dir (args_of ns))) = None \<and> 1 \<le> num_proc (args_of ns))) \<and>
    (script_exit r' = 2 \<longleftrightarrow> (\<exists>x. parse_args categorize_parser argv' = Inl (ArgumentError x))) \<and>
    script_exit r' \<le> 2"
proof -
  have a: "(script_exit r = 0 \<longleftrightarrow> parse_args annotate_parser argv = Inl HelpExit \<or>
      (\<exists>ns d s. parse_args annotate_parser argv = Inr ns \<and> \<not> annotate_list_valued ns \<and>
         load_conf e = Inr (ConfDict d) \<and> d ''annotate'' = Some s \<and> 1 \<le> num_proc (args_of ns))) \<and>
    (script_exit r = 2 \<longleftrightarrow> (\<exists>x. parse_args annotate_parser argv = Inl (ArgumentError x))) \<and>
    script_exit r \<le> 2"
    using assms(1)
  proof (cases rule: annotate_cli.cases)
    case (1 err)
    then show ?thesis by (cases err) (auto simp: script_exit_def)
  next
    case (2 ns)
    then show ?thesis using annotate_main_exit[OF 2(3)] annotate_main_exit_le[OF 2(3)] by auto
  next
    case (3 ns)
    then show ?thesis using annotate_refused_exit[of e ns] by auto
  qed
  have c: "(script_exit r' = 0 \<longleftrightarrow> parse_args categorize_parser argv' = Inl HelpExit \<or>
      (\<exists>ns d s. parse_args categorize_parser argv' = Inr ns \<and> \<not> categorize_list_valued ns \<and>
         load_conf e = Inr (ConfDict d) \<and> d ''categorize'' = Some s \<and>
         snd (py_makedirs True (fs e) (out_dir (args_of ns))) = None \<and> 1 \<le> num_proc (args_of ns))) \<and>
    (script_exit r' = 2 \<longleftrightarrow> (\<exists>x. parse_args categorize_parser argv' = Inl (ArgumentError x))) \<and>
    script_exit r' \<le> 2"
    using assms(2)
  proof (cases rule: categorize_cli.cases)
    case (1 err)
    then show ?thesis by (cases err) (auto simp: script_exit_def)
  next
    case (2 ns)
    then show ?thesis using categorize_main_exit[OF 2(3)] categorize_main_exit_le[OF 2(3)] by auto
  next
    case (3 ns)
    then have "r' = snd (categorize_refused e ns)" by (metis snd_conv)
    then show ?thesis using 3 categorize_refused_exit[of e ns] by auto
  qed
  from a c show ?thesis by blast
qed

text \<open>
  C40 (error): the value \<^verbatim>\<open>--\<close> for the output directory (\<^verbatim>\<open>-o--\<close>) is
  accepted by the command line; then categorize, with its configuration in place, ends
  with \<^verbatim>\<open>TypeError\<close> from \<^verbatim>\<open>os.makedirs\<close> (exit status 1) before creating
  anything, while annotate runs as with the output directory \<^verbatim>\<open>[]\<close>, the text the
  f-string makes of the empty list.
\<close>

theorem dash_out_dir:
  assumes "d \<noteq> ''--''" and "load_conf e = Inr (ConfDict c)" and "c ''categorize'' = Some cs"
  shows "(categorize_cli e [''--in_dir='' @ d, ''-o--''] lr \<longleftrightarrow> lr = (fs e, Inl makedirs_type_error)) \<and>
    (annotate_cli e [''--in_dir='' @ d, ''-o--''] r \<longleftrightarrow>
     annotate_main e \<lparr>in_dir = d, out_dir = ''[]'', num_proc = 1, vep_script = ''vep'', start_idx = 0,
       end_idx = 10000\<rparr> r)"
proof
  obtain ns where p: "parse_args categorize_parser [''--in_dir='' @ d, ''-o--''] = Inr ns"
    and l: "categorize_list_valued ns" and sl: "\<not> slice_list ns" and o: "ns ''out_dir'' = Some (PList [])"
    using dash_out_parse_categorize[OF assms(1)] by blast
  have "tool_path e ''categorize'' = Inr cs" using assms(2,3) by (simp add: tool_path_def conf_lookup_def)
  then have "categorize_refused e ns = (fs e, Inl makedirs_type_error)"
    using sl o by (simp add: categorize_refused_def)
  then show "categorize_cli e [''--in_dir='' @ d, ''-o--''] lr \<longleftrightarrow> lr = (fs e, Inl makedirs_type_error)"
    using cli_refused(2)[OF p l] by simp
next
  obtain ns where p: "parse_args annotate_parser [''--in_dir='' @ d, ''-o--''] = Inr ns"
    and l: "\<not> annotate_list_valued ns"
    and a: "args_of ns = \<lparr>in_dir = d, out_dir = ''[]'', num_proc = 1, vep_script = ''vep'', start_idx = 0,
       end_idx = 10000\<rparr>"
    using dash_out_parse_annotate[OF assms(1)] by blast
  show "annotate_cli e [''--in_dir='' @ d, ''-o--''] r \<longleftrightarrow>
     annotate_main e \<lparr>in_dir = d, out_dir = ''[]'', num_proc = 1, vep_script = ''vep'', start_idx = 0,
       end_idx = 10000\<rparr> r"
    using annotate_cli_parsed[OF p l] a by simp
qed

subsection \<open>Witnesses\<close>

theorem annotate_window_outputs_distinct_witness:
  "distinct (out_paths Annotate ''out'' (window ten_env ten_args))"
proof -
  have "fs ten_env (glob_dir (in_dir ten_args)) = Some ten_names"
    by (simp add: ten_env_def ten_args_def example_args_def glob_dir_def glob_pattern_def
        py_split_head_def py_basename_def)
  moreover have "valid_listing ten_names" by (simp add: valid_listing_def ten_names_def)
  ultimately show ?thesis
    using annotate_window_outputs_distinct[of ten_env ten_args ten_names]
    by (simp add: ten_args_def example_args_def)
qed

theorem ten_inputs_four_procs_witness:
  "\<exists>s. annotate_cli ten_env ten_argv (Inr s) \<and> length (spawned s) = 10 \<and>
     mset (dones (stdout s)) = mset ten_jobs"
proof -
  obtain s where m: "annotate_cli ten_env ten_argv (Inr s)"
    using ten_inputs_four_procs by blast
  then have "mset (spawned s) = mset ten_jobs \<and> mset (dones (stdout s)) = mset ten_jobs"
    using ten_inputs_four_procs by blast
  then have "length (spawned s) = length ten_jobs \<and> mset (dones (stdout s)) = mset ten_jobs"
    by (metis size_mset)
  moreover have "length ten_jobs = 10" by (simp add: ten_jobs_def)
  ultimately show ?thesis using m by metis
qed

theorem scripts_exit_status_witness:
  "\<exists>r l r'. annotate_cli ten_env ten_argv r \<and> categorize_cli ten_env ten_argv (l, r') \<and>
     script_exit r = 0 \<and> script_exit r' = 0"
proof -
  obtain s where m: "annotate_main ten_env ten_args (Inr s)" using ten_main_runs by blast
  then have c: "annotate_cli ten_env ten_argv (Inr s)" unfolding ten_cli .
  obtain ns where pa: "parse_args annotate_parser ten_argv = Inr ns" and "args_of ns = ten_args"
    and la: "\<not> annotate_list_valued ns"
    using ten_parse by blast
  moreover have p: "1 \<le> num_proc ten_args" by (simp add: ten_args_def)
  obtain ns' where pc: "parse_args categorize_parser ten_argv = Inr ns'"
    and ns': "args_of ns' = ten_args\<lparr>vep_script := []\<rparr>" and lc: "\<not> categorize_list_valued ns'"
    using ten_cat_parse by blast
  have p': "1 \<le> num_proc (args_of ns')" using p ns' by simp
  obtain s' where "dispatch (dur ten_env) (num_proc (args_of ns'))
      (categorize_jobs ''categorize.py'' ten_env (args_of ns')) (initial_proc ten_env) (Inr s')"
    using dispatch_total[OF p'] by blast
  moreover have md: "snd (py_makedirs True (fs ten_env) (out_dir (args_of ns'))) = None"
    using ns' by (simp add: ten_env_def ten_args_def example_args_def makedirs_eval)
  ultimately have "categorize_main ten_env (args_of ns')
      (fst (py_makedirs True (fs ten_env) (out_dir (args_of ns'))), finish_categorize (Inr s'))"
    using categorize_main_run[OF categorize_cmds_ok[OF ten_load_conf example_conf_categorize]] by blast
  then have cc: "categorize_cli ten_env ten_argv
      (fst (py_makedirs True (fs ten_env) (out_dir (args_of ns'))), finish_categorize (Inr s'))"
    by (rule categorize_cli.intros(2)[OF pc lc])
  have "1 \<le> num_proc (args_of ns)" using p \<open>args_of ns = ten_args\<close> by simp
  then have ea: "\<exists>ns d sc. parse_args annotate_parser ten_argv = Inr ns \<and> \<not> annotate_list_valued ns \<and>
      load_conf ten_env = Inr (ConfDict d) \<and> d ''annotate'' = Some sc \<and> 1 \<le> num_proc (args_of ns)"
    using pa la ten_load_conf example_conf_annotate by blast
  have ec: "\<exists>ns d sc. parse_args categorize_parser ten_argv = Inr ns \<and> \<not> categorize_list_valued ns \<and>
      load_conf ten_env = Inr (ConfDict d) \<and> d ''categorize'' = Some sc \<and>
      snd (py_makedirs True (fs ten_env) (out_dir (args_of ns))) = None \<and> 1 \<le> num_proc (args_of ns)"
    using pc lc p' md ten_load_conf example_conf_categorize by blast
  have "script_exit (Inr s :: py_error + proc) = 0 \<and> script_exit (finish_categorize (Inr s')) = 0"
    using scripts_exit_status[OF c cc] ea ec by blast
  then show ?thesis using c cc by blast
qed

theorem annotate_empty_window_witness:
  "\<exists>s. annotate_main ten_env (ten_args\<lparr>start_idx := 5, end_idx := 2\<rparr>) (Inr s) \<and>
     spawned s = [] \<and> dones (stdout s) = []"
proof -
  have p: "1 \<le> num_proc (ten_args\<lparr>start_idx := 5, end_idx := 2\<rparr>)" by (simp add: ten_args_def)
  obtain s where "dispatch (dur ten_env) (num_proc (ten_args\<lparr>start_idx := 5, end_idx := 2\<rparr>))
      (annotate_jobs ''annotate.py'' ten_env (ten_args\<lparr>start_idx := 5, end_idx := 2\<rparr>)) (initial_proc ten_env) (Inr s)"
    using dispatch_total[OF p] by blast
  then have m: "annotate_main ten_env (ten_args\<lparr>start_idx := 5, end_idx := 2\<rparr>) (Inr s)"
    unfolding ten_annotate_main .
  show ?thesis
    using annotate_empty_window[OF ten_load_conf example_conf_annotate _ _ m] m by simp blast
qed

theorem dash_out_dir_witness:
  "''in'' \<noteq> ''--'' \<and> load_conf example_env = Inr (ConfDict example_conf) \<and>
   example_conf ''categorize'' = Some ''categorize.py'' \<and>
   categorize_cli example_env [''--in_dir='' @ ''in'', ''-o--''] (fs example_env, Inl makedirs_type_error)"
  using dash_out_dir[OF _ example_load_conf example_conf_categorize, of "''in''"
      "(fs example_env, Inl makedirs_type_error)" "Inl HelpExit"]
    example_load_conf example_conf_categorize by simp

end
